(* ===== verification/Prelude.thy ===== *)
theory Prelude
  imports Complex_Main
begin

text \<open>
  Shared vocabulary of the development: the Python exceptions the handlers of
  \<open>src/main.py\<close> can raise, the Python string operations they call
  (\<open>str.split\<close> with an explicit separator, \<open>str.strip\<close>, \<open>str.replace\<close> of one
  character, \<open>str.join\<close>), decimal digits, and the generic list lemmas the
  component theories share.  Strings are \<open>char list\<close>s holding the UTF-8 bytes of
  the Python text: every separator the code uses is ASCII, and a UTF-8 continuation
  byte is never ASCII, so splitting bytes and splitting code points agree.
\<close>

named_theorems py_str_simps "evaluation rules of the modelled Python string operations"

section \<open>Python exceptions\<close>

text \<open>The exceptions the modelled handlers can raise; each is a value, \<open>Inl\<close> of a sum.\<close>

datatype py_exc = ValueError | IndexError | AttributeError | OSError

type_synonym 'a py_result = "py_exc + 'a"

text \<open>Whether a write to a file or to the database succeeds is up to the environment.\<close>

datatype io_result = IoOk | IoFail

text \<open>\<open>xs[i]\<close> with Python's negative indices; out of range raises \<open>IndexError\<close>.\<close>

definition py_index :: "'a list \<Rightarrow> int \<Rightarrow> 'a py_result" where
  "py_index xs i =
     (if i < - int (length xs) \<or> int (length xs) \<le> i then Inl IndexError
      else Inr (xs ! nat (i mod int (length xs))))"

text \<open>
  A \<open>for\<close> loop whose body mutates state in place and may raise: the body maps
  the state and the element to the new state and, if it raised, the exception.  An
  exception ends the loop; the state keeps every effect made before it, as Python's
  in-place mutation does.
\<close>

fun py_for :: "('s \<Rightarrow> 'a \<Rightarrow> 's \<times> py_exc option) \<Rightarrow> 'a list \<Rightarrow> 's \<Rightarrow> 's \<times> py_exc option" where
  "py_for f [] s = (s, None)"
| "py_for f (x # xs) s = (case f s x of (s', None) \<Rightarrow> py_for f xs s' | (s', Some e) \<Rightarrow> (s', Some e))"

section \<open>Characters\<close>

text \<open>The byte value of a character, Python's \<open>ord\<close> on ASCII.\<close>

abbreviation byte_of :: "char \<Rightarrow> nat" where
  "byte_of c \<equiv> of_char c"

text \<open>
  \<open>str.isspace\<close> on the ASCII range: space, the five control characters
  \<open>\t \n \v \f \r\<close> and the separators \<open>\x1c\<close> to \<open>\x1f\<close>.
\<close>

definition is_py_space :: "char \<Rightarrow> bool" where
  "is_py_space c \<longleftrightarrow> c = CHR '' '' \<or> (9 \<le> byte_of c \<and> byte_of c \<le> 13)
                      \<or> (28 \<le> byte_of c \<and> byte_of c \<le> 31)"

definition is_digit :: "char \<Rightarrow> bool" where
  "is_digit c \<longleftrightarrow> 48 \<le> byte_of c \<and> byte_of c \<le> 57"

definition digit_val :: "char \<Rightarrow> nat" where
  "digit_val c = byte_of c - 48"

definition digit_char :: "nat \<Rightarrow> char" where
  "digit_char d = char_of (48 + d)"

text \<open>ASCII lower case, used for the case-insensitive \<open>inf\<close> and \<open>nan\<close> of \<open>float()\<close>.\<close>

definition lower_char :: "char \<Rightarrow> char" where
  "lower_char c = (if 65 \<le> byte_of c \<and> byte_of c \<le> 90 then char_of (byte_of c + 32) else c)"

section \<open>Python string operations\<close>

text \<open>\<open>s.split(sep)\<close> with a one-character separator: every occurrence splits, empty
  pieces are kept, and the result is never empty (\<open>''.split(' ') == ['']\<close>).\<close>

fun py_split :: "char \<Rightarrow> string \<Rightarrow> string list" where
  "py_split c [] = [[]]"
| "py_split c (x # xs) =
     (if x = c then [] # py_split c xs
      else (case py_split c xs of w # ws \<Rightarrow> (x # w) # ws | [] \<Rightarrow> [[x]]))"

text \<open>\<open>sep.join(xs)\<close>.\<close>

fun py_join :: "string \<Rightarrow> string list \<Rightarrow> string" where
  "py_join sep [] = []"
| "py_join sep [x] = x"
| "py_join sep (x # y # ys) = x @ sep @ py_join sep (y # ys)"

text \<open>\<open>s.strip()\<close>: drop whitespace at both ends.\<close>

definition py_strip :: "string \<Rightarrow> string" where
  "py_strip s = rev (dropWhile is_py_space (rev (dropWhile is_py_space s)))"

text \<open>\<open>s.replace(a, b)\<close> for one-character \<open>a\<close> and \<open>b\<close>.\<close>

definition py_replace_char :: "char \<Rightarrow> char \<Rightarrow> string \<Rightarrow> string" where
  "py_replace_char a b s = map (\<lambda>x. if x = a then b else x) s"

section \<open>Decimal numerals\<close>

text \<open>The value of a string of decimal digits, most significant first.\<close>

definition digits_val :: "string \<Rightarrow> nat" where
  "digits_val s = foldl (\<lambda>n c. 10 * n + digit_val c) 0 s"

text \<open>\<open>str(n)\<close> for a natural number: its decimal digits, no leading zero.\<close>

fun show_nat :: "nat \<Rightarrow> string" where
  "show_nat n = (if n < 10 then [digit_char n] else show_nat (n div 10) @ [digit_char (n mod 10)])"

declare show_nat.simps [simp del]

text \<open>\<open>str(i)\<close> for a Python int.\<close>

definition show_int :: "int \<Rightarrow> string" where
  "show_int i = (if i < 0 then CHR ''-'' # show_nat (nat (- i)) else show_nat (nat i))"

text \<open>Left padding with zeros to a minimum width, as Qt's \<open>yyyy\<close>, \<open>MM\<close>, \<open>dd\<close>,
  \<open>HH\<close>, \<open>mm\<close> format fields and the fractional digits of \<open>%.nf\<close> do.\<close>

definition zero_pad :: "nat \<Rightarrow> string \<Rightarrow> string" where
  "zero_pad w s = replicate (w - length s) CHR ''0'' @ s"

definition show_padded :: "nat \<Rightarrow> nat \<Rightarrow> string" where
  "show_padded w n = zero_pad w (show_nat n)"

section \<open>Character and numeral lemmas\<close>

lemma py_index_nat: "i < length xs \<Longrightarrow> py_index xs (int i) = Inr (xs ! i)"
  by (simp add: py_index_def)

lemma byte_of_digit_char [simp]: "d < 10 \<Longrightarrow> byte_of (digit_char d) = 48 + d"
  by (simp add: digit_char_def)

lemma digit_not_space: "is_digit c \<Longrightarrow> \<not> is_py_space c"
  by (auto simp: is_digit_def is_py_space_def)

lemma digit_char_is_digit [simp]: "d < 10 \<Longrightarrow> is_digit (digit_char d)"
  by (simp add: is_digit_def)

lemma digit_char_not_space [simp]: "d < 10 \<Longrightarrow> \<not> is_py_space (digit_char d)"
  by (simp add: digit_not_space)

lemma digit_val_digit_char [simp]: "d < 10 \<Longrightarrow> digit_val (digit_char d) = d"
  by (simp add: digit_val_def)

lemma digits_val_append [simp]:
  "digits_val (xs @ ys) = digits_val xs * 10 ^ length ys + digits_val ys"
proof (induction ys rule: rev_induct)
  case Nil
  then show ?case by (simp add: digits_val_def)
next
  case (snoc y ys)
  then show ?case by (simp add: digits_val_def algebra_simps)
qed

lemma digits_val_single [simp]: "digits_val [c] = digit_val c"
  by (simp add: digits_val_def)

lemma digits_val_Nil [simp]: "digits_val [] = 0"
  by (simp add: digits_val_def)

lemma show_nat_digits: "c \<in> set (show_nat n) \<Longrightarrow> is_digit c"
proof (induction n rule: show_nat.induct)
  case (1 n)
  then show ?case by (cases "n < 10") (auto simp: show_nat.simps [of n])
qed

lemma show_nat_not_char: "\<not> is_digit c \<Longrightarrow> c \<notin> set (show_nat n)"
  using show_nat_digits by blast

lemma show_nat_nonempty [simp]: "show_nat n \<noteq> []"
  by (subst show_nat.simps) simp

lemma digits_val_show_nat [simp]: "digits_val (show_nat n) = n"
proof (induction n rule: show_nat.induct)
  case (1 n)
  show ?case
  proof (cases "n < 10")
    case True
    then show ?thesis by (simp add: show_nat.simps [of n])
  next
    case False
    with "1.IH" show ?thesis by (simp add: show_nat.simps [of n])
  qed
qed

section \<open>String operation lemmas\<close>

lemma py_split_nonempty [simp]: "py_split c s \<noteq> []"
  by (induction s) (auto split: list.split)

lemma py_split_no_sep [py_str_simps]: "c \<notin> set s \<Longrightarrow> py_split c s = [s]"
  by (induction s) auto

lemma py_split_append_sep [py_str_simps]:
  "c \<notin> set s \<Longrightarrow> py_split c (s @ c # t) = s # py_split c t"
  by (induction s) auto

lemma dropWhile_all_not: "\<forall>c \<in> set s. \<not> P c \<Longrightarrow> dropWhile P s = s"
  by (cases s) auto

lemma py_strip_no_space [py_str_simps]:
  "\<forall>c \<in> set s. \<not> is_py_space c \<Longrightarrow> py_strip s = s"
  by (simp add: py_strip_def dropWhile_all_not)

lemma set_py_strip: "set (py_strip s) \<subseteq> set s"
proof
  fix x assume "x \<in> set (py_strip s)"
  then have "x \<in> set (dropWhile is_py_space (rev (dropWhile is_py_space s)))"
    by (simp add: py_strip_def)
  then have "x \<in> set (dropWhile is_py_space s)" by (auto dest: set_dropWhileD)
  then show "x \<in> set s" by (auto dest: set_dropWhileD)
qed

lemma py_strip_show_nat [simp]: "py_strip (show_nat n) = show_nat n"
  by (rule py_strip_no_space) (auto dest: show_nat_digits digit_not_space)

lemma show_nat_all_digits [simp]: "\<forall>c \<in> set (show_nat n). is_digit c"
  by (auto dest: show_nat_digits)

lemma hd_show_nat_digit [simp]: "is_digit (hd (show_nat n))"
  using show_nat_digits [of "hd (show_nat n)" n] show_nat_nonempty [of n] by simp

section \<open>Padding lemmas\<close>

lemma length_show_nat_le: "0 < w \<Longrightarrow> m < 10 ^ w \<Longrightarrow> length (show_nat m) \<le> w"
proof (induction m arbitrary: w rule: show_nat.induct)
  case (1 m)
  show ?case
  proof (cases "m < 10")
    case True
    with "1.prems" show ?thesis by (simp add: show_nat.simps [of m])
  next
    case False
    obtain v where w: "w = Suc v"
      using "1.prems" by (cases w) auto
    with False "1.prems" have v: "0 < v" by (cases v) auto
    have "m div 10 < 10 ^ v" using "1.prems" w by (simp add: less_mult_imp_div_less mult.commute)
    with "1.IH" False v have "length (show_nat (m div 10)) \<le> v" by blast
    with False w show ?thesis by (simp add: show_nat.simps [of m])
  qed
qed

lemma digits_val_Cons: "digits_val (c # s) = digit_val c * 10 ^ length s + digits_val s"
  using digits_val_append [of "[c]" s] by simp

lemma digits_val_replicate_zero [simp]: "digits_val (replicate k CHR ''0'') = 0"
  by (induction k) (simp_all add: digits_val_Cons digit_val_def)

lemma digits_val_zero_pad [simp]: "digits_val (zero_pad w s) = digits_val s"
  by (simp add: zero_pad_def)

lemma zero_digit [simp]: "is_digit CHR ''0''"
  by (simp add: is_digit_def)

lemma show_padded_digits [simp]: "\<forall>c \<in> set (show_padded w n). is_digit c"
  by (auto simp: show_padded_def zero_pad_def)

lemma show_padded_nonempty [simp]: "show_padded w n \<noteq> []"
  by (simp add: show_padded_def zero_pad_def)

lemma length_show_padded: "0 < w \<Longrightarrow> m < 10 ^ w \<Longrightarrow> length (show_padded w m) = w"
  using length_show_nat_le [of w m] by (simp add: show_padded_def zero_pad_def)

lemma digits_val_show_padded [simp]: "digits_val (show_padded w m) = m"
  by (simp add: show_padded_def)

section \<open>List lemmas\<close>

text \<open>A loop whose body never raises and keeps an invariant keeps it to the end.\<close>

lemma py_for_inv:
  assumes "\<And>s x. x \<in> set xs \<Longrightarrow> P s \<Longrightarrow> snd (f s x) = None \<and> P (fst (f s x))"
    and "P s"
  shows "snd (py_for f xs s) = None \<and> P (fst (py_for f xs s))"
  using assms
proof (induction xs arbitrary: s)
  case Nil
  then show ?case by simp
next
  case (Cons x xs)
  then have n: "snd (f s x) = None" and p: "P (fst (f s x))" by auto
  obtain s' where fx: "f s x = (s', None)" using n by (cases "f s x") auto
  with p have "P s'" by simp
  then have "snd (py_for f xs s') = None \<and> P (fst (py_for f xs s'))"
    using Cons.IH Cons.prems(1) by simp
  with fx show ?case by simp
qed

text \<open>A loop keeps every property its body keeps, whether or not it raises.\<close>

lemma py_for_preserves:
  "P s \<Longrightarrow> (\<And>s x. x \<in> set xs \<Longrightarrow> P s \<Longrightarrow> P (fst (f s x))) \<Longrightarrow> P (fst (py_for f xs s))"
proof (induction xs arbitrary: s)
  case Nil
  then show ?case by simp
next
  case (Cons x xs)
  obtain s' r where fx: "f s x = (s', r)" by (cases "f s x")
  with Cons.prems have "P s'" by (metis fst_conv list.set_intros(1))
  show ?case
  proof (cases r)
    case None
    with fx Cons.IH [of s'] Cons.prems \<open>P s'\<close> show ?thesis by simp
  next
    case (Some e)
    with fx \<open>P s'\<close> show ?thesis by simp
  qed
qed

text \<open>A loop whose body never raises is a left fold.\<close>

lemma py_for_fold:
  "(\<And>s x. x \<in> set xs \<Longrightarrow> f s x = (g s x, None)) \<Longrightarrow> py_for f xs s = (foldl g s xs, None)"
  by (induction xs arbitrary: s) auto

lemma takeWhile_all: "\<forall>x \<in> set xs. P x \<Longrightarrow> takeWhile P xs = xs"
  by (simp add: takeWhile_eq_all_conv)

lemma dropWhile_all: "\<forall>x \<in> set xs. P x \<Longrightarrow> dropWhile P xs = []"
  by (simp add: dropWhile_eq_Nil_conv)

text \<open>A loop over elements whose bodies change nothing.\<close>

lemma py_for_fold_inv:
  assumes "P s" "\<And>s x. x \<in> set xs \<Longrightarrow> P s \<Longrightarrow> f s x = (g s x, None) \<and> P (g s x)"
  shows "py_for f xs s = (foldl g s xs, None)"
  using assms by (induction xs arbitrary: s) auto

lemma py_for_skip:
  "(\<And>s x. x \<in> set xs \<Longrightarrow> P s \<Longrightarrow> f s x = (s, None)) \<Longrightarrow> P s \<Longrightarrow> py_for f xs s = (s, None)"
  by (induction xs) auto

lemma py_for_only:
  assumes "r \<in> set xs" "distinct xs"
    and "\<And>s x. x \<in> set xs \<Longrightarrow> x \<noteq> r \<Longrightarrow> P s \<Longrightarrow> f s x = (s, None)"
    and "P s" "snd (f s r) = None \<Longrightarrow> P (fst (f s r))"
  shows "py_for f xs s = f s r"
  using assms
proof (induction xs arbitrary: s)
  case Nil
  then show ?case by simp
next
  case (Cons x xs)
  show ?case
  proof (cases "x = r")
    case True
    with Cons.prems have nr: "r \<notin> set xs" by simp
    show ?thesis
    proof (cases "f s r")
      case (Pair s' e)
      show ?thesis
      proof (cases e)
        case None
        with Pair Cons.prems(5) have "P s'" by simp
        with nr Cons.prems(3) have "py_for f xs s' = (s', None)"
          by (intro py_for_skip [where P = P]) auto
        with True Pair None show ?thesis by simp
      next
        case (Some e')
        with True Pair show ?thesis by simp
      qed
    qed
  next
    case False
    with Cons.prems have "f s x = (s, None)" by simp
    moreover have "py_for f xs s = f s r"
      using Cons.prems False by (intro Cons.IH) auto
    ultimately show ?thesis by simp
  qed
qed

end
