(* ===== verification/PyNum.thy ===== *)
theory PyNum
  imports Prelude
begin

text \<open>
  The Python number conversions the handlers of \<open>src/main.py\<close> rely on:
  \<open>int(s)\<close> (in \<open>getZoneColumn\<close>), \<open>float(s)\<close> (in \<open>handleM3Input\<close> and
  \<open>saveDeliveryData\<close>), float addition and \<open>sum\<close>, and the fixed-point formats
  \<open>f"{x:.1f}"\<close> and \<open>f"{x:.2f}"\<close>.  A float is \<open>Fin q\<close> with \<open>q\<close> the exact
  rational value of the decimal literal, or one of the three non-finite values;
  the rounding of binary doubles, their finite range and the sign of zero are not
  modelled (see the root theory's header).  The main results are the round trips
  \<open>float(format(x)) = round(x)\<close> and \<open>int(str(n)) = n\<close>.
\<close>

section \<open>Python's numeric literal grammar\<close>

text \<open>\<open>digitpart ::= digit (["_"] digit)*\<close>: digits, single underscores between
  digits only.\<close>

fun digitpart :: "string \<Rightarrow> bool"
  and digitpart_rest :: "string \<Rightarrow> bool" where
  "digitpart [] = False"
| "digitpart (c # cs) = (is_digit c \<and> digitpart_rest cs)"
| "digitpart_rest [] = True"
| "digitpart_rest (c # cs) = (if c = CHR ''_'' then digitpart cs else is_digit c \<and> digitpart_rest cs)"

text \<open>The value of a digit part: its digits, underscores dropped.\<close>

definition digitpart_val :: "string \<Rightarrow> nat" where
  "digitpart_val s = digits_val (filter (\<lambda>c. c \<noteq> CHR ''_'') s)"

definition digitpart_len :: "string \<Rightarrow> nat" where
  "digitpart_len s = length (filter (\<lambda>c. c \<noteq> CHR ''_'') s)"

text \<open>An optional leading sign.\<close>

definition split_sign :: "string \<Rightarrow> int \<times> string" where
  "split_sign s = (case s of
       c # r \<Rightarrow> if c = CHR ''+'' then (1, r) else if c = CHR ''-'' then (-1, r) else (1, s)
     | [] \<Rightarrow> (1, s))"

section \<open>int()\<close>

text \<open>\<open>int(s)\<close>: surrounding whitespace, an optional sign, a digit part; anything
  else raises \<open>ValueError\<close> (here \<open>None\<close>).\<close>

definition py_int :: "string \<Rightarrow> int option" where
  "py_int s = (case split_sign (py_strip s) of
     (sg, r) \<Rightarrow> if digitpart r then Some (sg * int (digitpart_val r)) else None)"

section \<open>float()\<close>

datatype pyfloat = Fin rat | PInf | NInf | NaN

text \<open>\<open>number ::= [digitpart] "." digitpart | digitpart ["."]\<close>.\<close>

definition parse_number :: "string \<Rightarrow> rat option" where
  "parse_number m = (let i = takeWhile (\<lambda>c. c \<noteq> CHR ''.'') m;
                         rest = dropWhile (\<lambda>c. c \<noteq> CHR ''.'') m in
     case rest of
       [] \<Rightarrow> if digitpart i then Some (of_nat (digitpart_val i)) else None
     | _ # f \<Rightarrow>
         if (i = [] \<or> digitpart i) \<and> (f = [] \<or> digitpart f) \<and> (i \<noteq> [] \<or> f \<noteq> [])
         then Some (of_nat (digitpart_val i) + of_nat (digitpart_val f) / 10 ^ digitpart_len f)
         else None)"

text \<open>\<open>exponent ::= ("e" | "E") ["+" | "-"] digitpart\<close>.\<close>

definition parse_exponent :: "string \<Rightarrow> int option" where
  "parse_exponent e = (case split_sign e of
     (sg, r) \<Rightarrow> if digitpart r then Some (sg * int (digitpart_val r)) else None)"

definition scale10 :: "rat \<Rightarrow> int \<Rightarrow> rat" where
  "scale10 q k = (if 0 \<le> k then q * 10 ^ nat k else q / 10 ^ nat (- k))"

text \<open>\<open>floatnumber ::= number [exponent]\<close>.\<close>

definition parse_floatnumber :: "string \<Rightarrow> rat option" where
  "parse_floatnumber r = (let is_e = (\<lambda>c. c = CHR ''e'' \<or> c = CHR ''E'');
                              m = takeWhile (\<lambda>c. \<not> is_e c) r;
                              ex = dropWhile (\<lambda>c. \<not> is_e c) r in
     case ex of
       [] \<Rightarrow> parse_number m
     | _ # e \<Rightarrow> (case parse_exponent e of
                   None \<Rightarrow> None
                 | Some k \<Rightarrow> map_option (\<lambda>q. scale10 q k) (parse_number m)))"

text \<open>\<open>float(s)\<close>: surrounding whitespace, an optional sign, then \<open>inf\<close>,
  \<open>infinity\<close> or \<open>nan\<close> in any case, or a float number; anything else raises
  \<open>ValueError\<close> (here \<open>None\<close>).\<close>

definition py_float :: "string \<Rightarrow> pyfloat option" where
  "py_float s = (case split_sign (py_strip s) of
     (sg, r) \<Rightarrow>
       let l = map lower_char r in
       if l = ''inf'' \<or> l = ''infinity'' then Some (if sg < 0 then NInf else PInf)
       else if l = ''nan'' then Some NaN
       else map_option (\<lambda>q. Fin (of_int sg * q)) (parse_floatnumber r))"

section \<open>Float arithmetic\<close>

text \<open>IEEE addition on the modelled values: infinities absorb finite values,
  opposite infinities give NaN, NaN propagates.\<close>

fun py_add :: "pyfloat \<Rightarrow> pyfloat \<Rightarrow> pyfloat" where
  "py_add (Fin a) (Fin b) = Fin (a + b)"
| "py_add NaN y = NaN"
| "py_add x NaN = NaN"
| "py_add PInf NInf = NaN"
| "py_add NInf PInf = NaN"
| "py_add PInf y = PInf"
| "py_add x PInf = PInf"
| "py_add NInf y = NInf"
| "py_add x NInf = NInf"

text \<open>\<open>sum(xs)\<close>: the int \<open>0\<close> plus each element from the left; \<open>0 + x\<close> is
  \<open>x\<close> converted to float.\<close>

definition py_sum :: "pyfloat list \<Rightarrow> pyfloat" where
  "py_sum xs = foldl py_add (Fin 0) xs"

section \<open>Fixed-point formatting\<close>

text \<open>Round half to even, as Python's \<open>format\<close> rounds.\<close>

definition round_half_even :: "rat \<Rightarrow> int" where
  "round_half_even q = (let f = floor q; d = q - of_int f in
     if d < 1/2 then f else if 1/2 < d then f + 1 else if even f then f else f + 1)"

text \<open>The digits of \<open>k / 10 ^ n\<close> with exactly \<open>n\<close> fractional digits.\<close>

definition fixed_digits :: "nat \<Rightarrow> nat \<Rightarrow> string" where
  "fixed_digits n k = show_nat (k div 10 ^ n) @
     (if n = 0 then [] else CHR ''.'' # show_padded n (k mod 10 ^ n))"

text \<open>\<open>f"{x:.nf}"\<close>: a minus sign for a negative value, the integer part, and
  \<open>n\<close> fractional digits; \<open>inf\<close>, \<open>-inf\<close> and \<open>nan\<close> for the others.\<close>

definition format_fixed :: "nat \<Rightarrow> pyfloat \<Rightarrow> string" where
  "format_fixed n x = (case x of
     Fin q \<Rightarrow>
       (if q < 0 then ''-'' else []) @ fixed_digits n (nat (round_half_even (\<bar>q\<bar> * 10 ^ n)))
   | PInf \<Rightarrow> ''inf''
   | NInf \<Rightarrow> ''-inf''
   | NaN \<Rightarrow> ''nan'')"

text \<open>The value that the formatted text denotes: \<open>x\<close> rounded to \<open>n\<close> decimals.\<close>

definition round_fixed :: "nat \<Rightarrow> pyfloat \<Rightarrow> pyfloat" where
  "round_fixed n x = (case x of
     Fin q \<Rightarrow> Fin ((if q < 0 then -1 else 1) * of_int (round_half_even (\<bar>q\<bar> * 10 ^ n)) / 10 ^ n)
   | _ \<Rightarrow> x)"

section \<open>Digit parts\<close>

lemma underscore_not_digit [simp]: "\<not> is_digit CHR ''_''"
  by (simp add: is_digit_def)

lemma digitpart_rest_digits: "\<forall>c \<in> set s. is_digit c \<Longrightarrow> digitpart_rest s"
  by (induction s) (auto simp: is_digit_def)

lemma digitpart_digits: "s \<noteq> [] \<Longrightarrow> \<forall>c \<in> set s. is_digit c \<Longrightarrow> digitpart s"
  by (cases s) (auto intro: digitpart_rest_digits)

lemma filter_underscore_digits: "\<forall>c \<in> set s. is_digit c \<Longrightarrow> filter (\<lambda>c. c \<noteq> CHR ''_'') s = s"
  by (induction s) auto

lemma digitpart_val_digits:
  "\<forall>c \<in> set s. is_digit c \<Longrightarrow> digitpart_val s = digits_val s"
  by (simp add: digitpart_val_def filter_underscore_digits)

lemma digitpart_len_digits:
  "\<forall>c \<in> set s. is_digit c \<Longrightarrow> digitpart_len s = length s"
  by (simp add: digitpart_len_def filter_underscore_digits)

lemma digitpart_show_nat [simp]: "digitpart (show_nat n)"
  by (simp add: digitpart_digits)

lemma split_sign_digit: "s \<noteq> [] \<Longrightarrow> is_digit (hd s) \<Longrightarrow> split_sign s = (1, s)"
  by (cases s) (auto simp: split_sign_def is_digit_def)

lemma py_int_show_nat: "py_int (show_nat n) = Some (int n)"
  by (simp add: py_int_def split_sign_digit digitpart_val_digits)

section \<open>Round trip of the fixed-point format\<close>

lemma fixed_digits_chars:
  "c \<in> set (fixed_digits n k) \<Longrightarrow> is_digit c \<or> c = CHR ''.''"
  by (auto simp: fixed_digits_def split: if_splits dest: show_nat_digits)

lemma fixed_digits_no_space: "c \<in> set (fixed_digits n k) \<Longrightarrow> \<not> is_py_space c"
  using fixed_digits_chars [of c n k] digit_not_space [of c] by (auto simp: is_py_space_def)

lemma fixed_digits_hd: "fixed_digits n k \<noteq> [] \<and> is_digit (hd (fixed_digits n k))"
  by (simp add: fixed_digits_def)

lemma of_nat_div_mod_pow: "of_nat (k div 10 ^ n) + of_nat (k mod 10 ^ n) / 10 ^ n = (of_nat k / 10 ^ n :: rat)"
proof -
  have "k = k div 10 ^ n * 10 ^ n + k mod 10 ^ n" by (rule div_mult_mod_eq [symmetric])
  then have "(of_nat k :: rat) = of_nat (k div 10 ^ n) * 10 ^ n + of_nat (k mod 10 ^ n)"
    by (metis of_nat_add of_nat_mult of_nat_numeral of_nat_power)
  then show ?thesis by (simp add: field_simps)
qed

lemma parse_number_fixed: "parse_number (fixed_digits n k) = Some (of_nat k / 10 ^ n)"
proof (cases "n = 0")
  case True
  have "\<forall>c \<in> set (show_nat k). c \<noteq> CHR ''.''" by (auto dest: show_nat_digits simp: is_digit_def)
  with True show ?thesis
    by (simp add: fixed_digits_def parse_number_def digitpart_val_digits takeWhile_all dropWhile_all)
next
  case False
  have nd: "\<forall>c \<in> set (show_nat (k div 10 ^ n)). c \<noteq> CHR ''.''"
    by (auto dest: show_nat_digits simp: is_digit_def)
  have len: "digitpart_len (show_padded n (k mod 10 ^ n)) = n"
    using False by (simp add: digitpart_len_digits length_show_padded)
  have dp: "digitpart (show_padded n (k mod 10 ^ n))"
    by (simp add: digitpart_digits)
  from False nd len dp show ?thesis
    by (simp add: fixed_digits_def parse_number_def
                  digitpart_val_digits of_nat_div_mod_pow)
qed

lemma parse_floatnumber_fixed: "parse_floatnumber (fixed_digits n k) = Some (of_nat k / 10 ^ n)"
proof -
  have "\<forall>c \<in> set (fixed_digits n k). \<not> (c = CHR ''e'' \<or> c = CHR ''E'')"
    by (auto dest: fixed_digits_chars simp: is_digit_def)
  then show ?thesis
    by (simp add: parse_floatnumber_def parse_number_fixed takeWhile_all dropWhile_all)
qed

lemma lower_char_digit: "is_digit c \<Longrightarrow> lower_char c = c"
  by (simp add: lower_char_def is_digit_def)

lemma fixed_digits_not_special:
  "map lower_char (fixed_digits n k) \<noteq> ''inf'' \<and> map lower_char (fixed_digits n k) \<noteq> ''infinity''
   \<and> map lower_char (fixed_digits n k) \<noteq> ''nan''"
proof -
  obtain c r where cr: "fixed_digits n k = c # r" and "is_digit c"
    using fixed_digits_hd [of n k] by (cases "fixed_digits n k") auto
  then have "lower_char c = c" and "c \<noteq> CHR ''i''" and "c \<noteq> CHR ''n''"
    by (auto simp: lower_char_digit is_digit_def)
  with cr show ?thesis by auto
qed

lemma round_half_even_nonneg: "0 \<le> q \<Longrightarrow> 0 \<le> round_half_even q"
  by (auto simp: round_half_even_def Let_def)

text \<open>Reading back with \<open>float()\<close> the text that \<open>f"{x:.nf}"\<close> prints gives
  \<open>x\<close> rounded half-to-even to \<open>n\<close> decimals; infinities and NaN come back as themselves.\<close>

lemma py_float_format_fixed: "py_float (format_fixed n x) = Some (round_fixed n x)"
proof (cases x)
  case (Fin q)
  let ?k = "nat (round_half_even (\<bar>q\<bar> * 10 ^ n))"
  have ns: "\<forall>c \<in> set (fixed_digits n ?k). \<not> is_py_space c"
    using fixed_digits_no_space by blast
  have minus: "\<not> is_py_space CHR ''-''" by (simp add: is_py_space_def)
  have sg: "split_sign (fixed_digits n ?k) = (1, fixed_digits n ?k)"
    using fixed_digits_hd by (simp add: split_sign_digit)
  have k: "of_nat ?k = (of_int (round_half_even (\<bar>q\<bar> * 10 ^ n)) :: rat)"
    by (simp add: round_half_even_nonneg)
  show ?thesis
  proof (cases "q < 0")
    case True
    with Fin ns minus k show ?thesis
      by (simp add: format_fixed_def round_fixed_def py_float_def py_strip_no_space split_sign_def
                    fixed_digits_not_special parse_floatnumber_fixed)
  next
    case False
    with Fin ns sg k show ?thesis
      by (simp add: format_fixed_def round_fixed_def py_float_def py_strip_no_space
                    fixed_digits_not_special parse_floatnumber_fixed)
  qed
qed (simp_all add: format_fixed_def round_fixed_def py_float_def py_strip_def split_sign_def
                   is_py_space_def lower_char_def)

end
