(* ===== verification/Zone.thy ===== *)
theory Zone
  imports PyNum
begin

text \<open>
  The zone resolver of \<open>src/main.py\<close>: the distance bands offered by the
  \<open>km_combo\<close> selector (\<open>setupTopFrame\<close>), the header row of the delivery
  ledger (\<open>setupBottomFrame\<close>), and \<open>FuvarAdminApp.getZoneColumn\<close>, which
  parses the lower bound out of a band label and turns it into a ledger column.
  Labels are UTF-8: \<open>"O"vezet"\<close> begins with the two bytes \<open>C3 96\<close>.
\<close>

section \<open>Labels\<close>

definition zone_word :: string where
  "zone_word = [CHR 0xC3, CHR 0x96] @ ''vezet''"

text \<open>\<open>f"O"vezet {i}-{i+5}"\<close>.\<close>

definition band_label :: "nat \<Rightarrow> string" where
  "band_label i = zone_word @ CHR '' '' # show_nat i @ CHR ''-'' # show_nat (i + 5)"

text \<open>\<open>km_combo\<close>: \<open>[f"O"vezet {i}-{i+5}" for i in range(0, 50, 5)]\<close>
  (line 206), ten bands.\<close>

definition km_bands :: "string list" where
  "km_bands = map (\<lambda>j. band_label (5 * j)) [0..<10]"

text \<open>The delivery ledger's header labels (lines 276, 316 and 328):
  \<open>["Da'tum"] + [f"O"vezet {i}-{i+5}" for i in range(0, 45, 5)] + ["O"sszeg"]\<close>,
  eleven labels for a table of ten columns.\<close>

definition delivery_headers :: "string list" where
  "delivery_headers =
     (''D'' @ [CHR 0xC3, CHR 0xA1] @ ''tum'') #
     map (\<lambda>j. band_label (5 * j)) [0..<9] @
     [[CHR 0xC3, CHR 0x96] @ ''sszeg'']"

text \<open>\<open>self.delivery_table.setColumnCount(10)\<close> (lines 275 and 315).\<close>

definition delivery_col_count :: nat where
  "delivery_col_count = 10"

section \<open>getZoneColumn\<close>

text \<open>
  \<^verbatim>\<open>start_km = int(zone_text.split(' ')[1].split('-')[0])
column = (start_km // 5) + 1\<close>
  inside a \<open>try\<close> whose bare \<open>except\<close> returns \<open>0\<close>: a missing second word
  (\<open>IndexError\<close>) and a non-integer (\<open>ValueError\<close>) both give the sentinel.
\<close>

definition getZoneColumn :: "string \<Rightarrow> int" where
  "getZoneColumn zone_text = (case py_split CHR '' '' zone_text of
       _ # p # _ \<Rightarrow>
         (case py_split CHR ''-'' p of
            q # _ \<Rightarrow> (case py_int q of Some start_km \<Rightarrow> start_km div 5 + 1 | None \<Rightarrow> 0)
          | [] \<Rightarrow> 0)
     | _ \<Rightarrow> 0)"

section \<open>Splitting lemmas\<close>

lemma py_split_first: "\<exists>ps. py_split c s = takeWhile (\<lambda>x. x \<noteq> c) s # ps"
  by (induction s) (auto split: list.split)

lemma py_split_pieces: "p \<in> set (py_split c s) \<Longrightarrow> c \<notin> set p"
proof (induction s arbitrary: p)
  case Nil
  then show ?case by simp
next
  case (Cons x xs)
  then show ?case by (auto split: if_splits list.splits)
qed

lemma py_int_no_minus: "CHR ''-'' \<notin> set q \<Longrightarrow> py_int q = Some k \<Longrightarrow> 0 \<le> k"
proof -
  assume nm: "CHR ''-'' \<notin> set q" and k: "py_int q = Some k"
  from nm set_py_strip [of q] have "CHR ''-'' \<notin> set (py_strip q)" by blast
  then have "fst (split_sign (py_strip q)) = 1"
    by (auto simp: split_sign_def split: list.splits)
  with k show ?thesis
    by (auto simp: py_int_def split: prod.splits if_splits)
qed

lemma band_word_no_space: "CHR '' '' \<notin> set zone_word"
  by (simp add: zone_word_def)

section \<open>Resolving labels to columns\<close>

lemma takeWhile_label:
  "takeWhile (\<lambda>x. x \<noteq> CHR '' '') (show_nat a @ CHR ''-'' # rest) =
   show_nat a @ CHR ''-'' # takeWhile (\<lambda>x. x \<noteq> CHR '' '') rest"
proof -
  have "\<forall>x \<in> set (show_nat a). x \<noteq> CHR '' ''"
    by (auto dest: show_nat_digits simp: is_digit_def)
  then show ?thesis by simp
qed

lemma minus_not_in_show_nat [simp]: "CHR ''-'' \<notin> set (show_nat a)"
  by (rule show_nat_not_char) (simp add: is_digit_def)

lemma zone_label_column:
  assumes "CHR '' '' \<notin> set w"
  shows "getZoneColumn (w @ CHR '' '' # show_nat a @ CHR ''-'' # rest) = int a div 5 + 1"
proof -
  obtain ps where ps: "py_split CHR '' '' (show_nat a @ CHR ''-'' # rest) =
      (show_nat a @ CHR ''-'' # takeWhile (\<lambda>x. x \<noteq> CHR '' '') rest) # ps"
    using py_split_first [of "CHR '' ''" "show_nat a @ CHR ''-'' # rest"] takeWhile_label by auto
  from assms ps show ?thesis
    by (simp add: getZoneColumn_def py_split_append_sep py_int_show_nat)
qed

text \<open>C26. \<open>getZoneColumn\<close> resolves a label \<open>"<word> <a>-<rest>"\<close> whose first word
  has no space to column \<open>a // 5 + 1\<close>, whatever follows the dash; the spec's
  \<open>resolveColumn("Zone 10-15") == 3\<close> is an instance.\<close>

theorem getZoneColumn_label:
  assumes "CHR '' '' \<notin> set w"
  shows "getZoneColumn (w @ CHR '' '' # show_nat a @ CHR ''-'' # rest) = int a div 5 + 1"
  using assms by (rule zone_label_column)

text \<open>C27. A label without a space has no second word: \<open>split(' ')[1]\<close> raises
  \<open>IndexError\<close>, the bare \<open>except\<close> returns the sentinel \<open>0\<close>
  (the spec's \<open>resolveColumn("garbage") == 0\<close>).\<close>

theorem getZoneColumn_no_space: "CHR '' '' \<notin> set s \<Longrightarrow> getZoneColumn s = 0"
  by (simp add: getZoneColumn_def py_split_no_sep)

text \<open>C31. The resolver never returns a negative column: its result is the sentinel
  \<open>0\<close> or a real column \<open>\<ge> 1\<close>, because the text before the first dash
  cannot carry a minus sign.  So the callers' guard \<open>zone_col > 0\<close> excludes
  exactly the sentinel and column 0 (the date) is never written.\<close>

theorem getZoneColumn_sentinel_or_column: "getZoneColumn s = 0 \<or> 1 \<le> getZoneColumn s"
proof (cases "py_split CHR '' '' s")
  case (Cons w ws)
  show ?thesis
  proof (cases ws)
    case (Cons p ps)
    obtain qs where qs: "py_split CHR ''-'' p = takeWhile (\<lambda>x. x \<noteq> CHR ''-'') p # qs"
      using py_split_first by blast
    let ?q = "takeWhile (\<lambda>x. x \<noteq> CHR ''-'') p"
    have "CHR ''-'' \<notin> set ?q"
      using py_split_pieces [of ?q "CHR ''-''" p] qs by simp
    then have "\<And>k. py_int ?q = Some k \<Longrightarrow> 0 \<le> k" by (rule py_int_no_minus)
    with \<open>py_split CHR '' '' s = w # ws\<close> Cons qs show ?thesis
      by (auto simp: getZoneColumn_def split: option.splits)
  qed (simp add: getZoneColumn_def \<open>py_split CHR '' '' s = w # ws\<close>)
qed (simp add: getZoneColumn_def)

lemma getZoneColumn_band_label: "getZoneColumn (band_label i) = int i div 5 + 1"
  unfolding band_label_def using band_word_no_space by (rule zone_label_column)

theorem getZoneColumn_label_witness: "getZoneColumn ''Zone 10-15'' = 3"
proof -
  have "getZoneColumn (''Zone'' @ CHR '' '' # show_nat 10 @ CHR ''-'' # ''15'') = int 10 div 5 + 1"
    by (rule getZoneColumn_label) simp
  moreover have "''Zone'' @ CHR '' '' # show_nat 10 @ CHR ''-'' # ''15'' = ''Zone 10-15''"
    by code_simp
  ultimately show ?thesis by simp
qed

theorem getZoneColumn_no_space_witness: "getZoneColumn ''garbage'' = 0"
  by (rule getZoneColumn_no_space) simp

end
