(* ===== verification/QtTable.thy ===== *)
theory QtTable
  imports Prelude
begin

text \<open>
  The part of Qt's \<open>QTableWidget\<close> that \<open>src/main.py\<close> uses: a grid of optional
  \<open>QTableWidgetItem\<close>s, of which only the text matters.  \<open>setItem\<close> and
  \<open>item\<close> outside the grid are ignored and return no item (Qt's documented
  behaviour: the model rejects an invalid index), \<open>insertRow\<close> adds a row of empty
  cells, \<open>setRowCount(0)\<close> removes all rows.  Reading \<open>item(r, c).text()\<close> on a
  missing item raises \<open>AttributeError\<close> in Python (\<open>None.text()\<close>).  This is a
  model of the library the handlers call, not of repository code; the lemmas are the
  frame rules the handlers' proofs are built from.
\<close>

named_theorems qtable_simps "frame rules of the table widget operations"

record qtable =
  col_count :: nat
  rows :: "string option list list"

definition row_count :: "qtable \<Rightarrow> nat" where
  "row_count t = length (rows t)"

definition new_table :: "nat \<Rightarrow> qtable" where
  "new_table n = \<lparr>col_count = n, rows = []\<rparr>"

definition set_row_count_zero :: "qtable \<Rightarrow> qtable" where
  "set_row_count_zero t = t\<lparr>rows := []\<rparr>"

definition insert_row :: "nat \<Rightarrow> qtable \<Rightarrow> qtable" where
  "insert_row i t = (if i \<le> row_count t
     then t\<lparr>rows := take i (rows t) @ [replicate (col_count t) None] @ drop i (rows t)\<rparr>
     else t)"

definition in_grid :: "qtable \<Rightarrow> nat \<Rightarrow> nat \<Rightarrow> bool" where
  "in_grid t r c \<longleftrightarrow> r < row_count t \<and> c < col_count t"

definition set_item :: "nat \<Rightarrow> nat \<Rightarrow> string \<Rightarrow> qtable \<Rightarrow> qtable" where
  "set_item r c v t = (if in_grid t r c
     then t\<lparr>rows := (rows t)[r := (rows t ! r)[c := Some v]]\<rparr> else t)"

definition item :: "qtable \<Rightarrow> nat \<Rightarrow> nat \<Rightarrow> string option" where
  "item t r c = (if in_grid t r c then rows t ! r ! c else None)"

text \<open>\<open>table.item(r, c).text()\<close>.\<close>

definition item_text :: "qtable \<Rightarrow> nat \<Rightarrow> nat \<Rightarrow> string py_result" where
  "item_text t r c = (case item t r c of None \<Rightarrow> Inl AttributeError | Some s \<Rightarrow> Inr s)"

text \<open>Every row has \<open>columnCount\<close> cells.\<close>

definition wf_table :: "qtable \<Rightarrow> bool" where
  "wf_table t \<longleftrightarrow> (\<forall>r \<in> set (rows t). length r = col_count t)"

lemma row_count_set_item [qtable_simps]: "row_count (set_item r c v t) = row_count t"
  by (simp add: set_item_def row_count_def)

lemma col_count_set_item [qtable_simps]: "col_count (set_item r c v t) = col_count t"
  by (simp add: set_item_def)

lemma in_grid_set_item [qtable_simps]: "in_grid (set_item r c v t) = in_grid t"
  by (simp add: in_grid_def fun_eq_iff qtable_simps)

lemma wf_set_item [qtable_simps]: "wf_table t \<Longrightarrow> wf_table (set_item r c v t)"
  by (auto simp: wf_table_def set_item_def in_grid_def row_count_def dest!: set_update_subset_insert [THEN subsetD])

lemma item_set_item [qtable_simps]:
  "wf_table t \<Longrightarrow> item (set_item r c v t) r' c' =
     (if r' = r \<and> c' = c \<and> in_grid t r c then Some v else item t r' c')"
  by (auto simp: item_def set_item_def in_grid_def row_count_def wf_table_def nth_list_update)

lemma item_set_item_other_col [qtable_simps]:
  "wf_table t \<Longrightarrow> c' \<noteq> c \<Longrightarrow> item (set_item r c v t) r' c' = item t r' c'"
  by (simp add: item_set_item)

lemma set_item_outside [qtable_simps]: "\<not> in_grid t r c \<Longrightarrow> set_item r c v t = t"
  by (simp add: set_item_def)

lemma col_count_new_table [simp]: "col_count (new_table n) = n"
  by (simp add: new_table_def)

lemma row_count_new_table [simp]: "row_count (new_table n) = 0"
  by (simp add: new_table_def row_count_def)

lemma wf_new_table [simp]: "wf_table (new_table n)"
  by (simp add: wf_table_def new_table_def)

lemma wf_set_row_count_zero [qtable_simps]: "wf_table (set_row_count_zero t)"
  by (simp add: wf_table_def set_row_count_zero_def)

lemma wf_insert_row [qtable_simps]: "wf_table t \<Longrightarrow> wf_table (insert_row i t)"
  by (auto simp: wf_table_def insert_row_def dest: in_set_takeD in_set_dropD)

lemma row_count_insert_row [qtable_simps]:
  "i \<le> row_count t \<Longrightarrow> row_count (insert_row i t) = Suc (row_count t)"
  by (simp add: insert_row_def row_count_def)

lemma col_count_insert_row [qtable_simps]: "col_count (insert_row i t) = col_count t"
  by (simp add: insert_row_def)

lemma item_text_Some [qtable_simps]: "item t r c = Some s \<Longrightarrow> item_text t r c = Inr s"
  by (simp add: item_text_def)

lemma item_insert_row_end:
  "wf_table t \<Longrightarrow> item (insert_row (row_count t) t) i c = (if i < row_count t then item t i c else None)"
  by (auto simp: item_def insert_row_def in_grid_def row_count_def wf_table_def nth_append)

lemma row_count_set_row_count_zero [simp]: "row_count (set_row_count_zero t) = 0"
  by (simp add: set_row_count_zero_def row_count_def)

lemma col_count_set_row_count_zero [simp]: "col_count (set_row_count_zero t) = col_count t"
  by (simp add: set_row_count_zero_def)

lemma in_grid_insert_row_end:
  "in_grid (insert_row (row_count t) t) i c \<longleftrightarrow> i \<le> row_count t \<and> c < col_count t"
  by (auto simp: in_grid_def insert_row_def row_count_def)

lemma qtable_eqI:
  assumes "wf_table t1" "wf_table t2" "col_count t1 = col_count t2" "row_count t1 = row_count t2"
    and "\<And>r c. item t1 r c = item t2 r c"
  shows "t1 = t2"
proof -
  have "rows t1 = rows t2"
  proof (rule nth_equalityI)
    show "length (rows t1) = length (rows t2)" using assms(4) by (simp add: row_count_def)
    fix r assume r: "r < length (rows t1)"
    then have r2: "r < length (rows t2)" using assms(4) by (simp add: row_count_def)
    have l1: "length (rows t1 ! r) = col_count t1" using assms(1) r by (simp add: wf_table_def)
    have l2: "length (rows t2 ! r) = col_count t2" using assms(2) r2 by (simp add: wf_table_def)
    show "rows t1 ! r = rows t2 ! r"
    proof (rule nth_equalityI)
      show "length (rows t1 ! r) = length (rows t2 ! r)" using l1 l2 assms(3) by simp
      fix c assume "c < length (rows t1 ! r)"
      then show "rows t1 ! r ! c = rows t2 ! r ! c"
        using assms(5) [of r c] r r2 l1 l2 assms(3,4) by (simp add: item_def in_grid_def row_count_def)
    qed
  qed
  then show ?thesis using assms(3) by (cases t1, cases t2) simp
qed

end
