(* ===== verification/Calendar.thy ===== *)
theory Calendar
  imports Prelude
begin

text \<open>
  The calendar the ledger is built on.  Qt's \<open>QDate\<close> (proleptic Gregorian
  calendar, years from 1) is modelled as a triple (year, month, day); \<open>addDays\<close>
  steps day by day, \<open>dayOfWeek\<close> counts days from Monday 0001-01-01,
  \<open>toString('yyyy-MM-dd')\<close> pads each field with zeros.  The Hungarian day names
  of \<open>setupTableRows\<close> are UTF-8 byte strings.  Also Qt's \<open>QTime\<close> as
  (hour, minute) with \<open>toString('HH:mm')\<close>, and Python's
  \<open>datetime.strptime(s, '%H:%M')\<close> that reads it back in \<open>saveWorkHours\<close>.
\<close>

type_synonym qdate = "nat \<times> nat \<times> nat"

type_synonym qtime = "nat \<times> nat"

section \<open>Gregorian calendar\<close>

definition is_leap_year :: "nat \<Rightarrow> bool" where
  "is_leap_year y \<longleftrightarrow> (4 dvd y \<and> \<not> 100 dvd y) \<or> 400 dvd y"

definition days_in_month :: "nat \<Rightarrow> nat \<Rightarrow> nat" where
  "days_in_month y m =
     (if m = 2 then (if is_leap_year y then 29 else 28)
      else if m = 4 \<or> m = 6 \<or> m = 9 \<or> m = 11 then 30 else 31)"

definition valid_date :: "qdate \<Rightarrow> bool" where
  "valid_date d = (case d of (y, m, dd) \<Rightarrow> 1 \<le> y \<and> 1 \<le> m \<and> m \<le> 12 \<and> 1 \<le> dd \<and> dd \<le> days_in_month y m)"

text \<open>Days of the year before the first of month \<open>m\<close>.\<close>

definition days_before_month :: "nat \<Rightarrow> nat \<Rightarrow> nat" where
  "days_before_month y m = (\<Sum>k \<leftarrow> [1..<m]. days_in_month y k)"

text \<open>Leap years among the years \<open>1..x\<close>.\<close>

definition leap_days :: "nat \<Rightarrow> nat" where
  "leap_days x = x div 4 - x div 100 + x div 400"

text \<open>Days from 0001-01-01 to the date: the day number \<open>QDate\<close> keeps (its
  Julian day, shifted).\<close>

definition day_number :: "qdate \<Rightarrow> nat" where
  "day_number d = (case d of (y, m, dd) \<Rightarrow>
     365 * (y - 1) + leap_days (y - 1) + days_before_month y m + (dd - 1))"

text \<open>\<open>QDate::dayOfWeek\<close>: 1 is Monday, 7 is Sunday; 0001-01-01 was a Monday.\<close>

definition day_of_week :: "qdate \<Rightarrow> nat" where
  "day_of_week d = day_number d mod 7 + 1"

text \<open>\<open>QDate::addDays(1)\<close> on a valid date.\<close>

definition next_day :: "qdate \<Rightarrow> qdate" where
  "next_day d = (case d of (y, m, dd) \<Rightarrow>
     if dd < days_in_month y m then (y, m, dd + 1)
     else if m < 12 then (y, m + 1, 1) else (y + 1, 1, 1))"

definition add_days :: "qdate \<Rightarrow> nat \<Rightarrow> qdate" where
  "add_days d n = (next_day ^^ n) d"

text \<open>\<open>QDate(year, month, 1)\<close> and \<open>daysInMonth()\<close>.\<close>

definition first_of_month :: "qdate \<Rightarrow> qdate" where
  "first_of_month d = (case d of (y, m, _) \<Rightarrow> (y, m, 1))"

definition month_length :: "qdate \<Rightarrow> nat" where
  "month_length d = (case d of (y, m, _) \<Rightarrow> days_in_month y m)"

text \<open>\<open>toString('yyyy-MM-dd')\<close>.\<close>

definition date_string :: "qdate \<Rightarrow> string" where
  "date_string d = (case d of (y, m, dd) \<Rightarrow>
     show_padded 4 y @ CHR ''-'' # show_padded 2 m @ CHR ''-'' # show_padded 2 dd)"

section \<open>Day names\<close>

text \<open>\<open>day_names = ['He'tfo"', 'Kedd', 'Szerda', 'Csu"to"rto"k', 'Pe'ntek',
  'Szombat', 'Vasa'rnap']\<close> (line 396), in UTF-8.\<close>

definition day_names :: "string list" where
  "day_names =
     [''H'' @ [CHR 0xC3, CHR 0xA9] @ ''tf'' @ [CHR 0xC5, CHR 0x91],
      ''Kedd'',
      ''Szerda'',
      ''Cs'' @ [CHR 0xC3, CHR 0xBC] @ ''t'' @ [CHR 0xC3, CHR 0xB6] @ ''rt'' @ [CHR 0xC3, CHR 0xB6] @ ''k'',
      ''P'' @ [CHR 0xC3, CHR 0xA9] @ ''ntek'',
      ''Szombat'',
      ''Vas'' @ [CHR 0xC3, CHR 0xA1] @ ''rnap'']"

section \<open>Times\<close>

definition valid_time :: "qtime \<Rightarrow> bool" where
  "valid_time t = (case t of (h, mi) \<Rightarrow> h < 24 \<and> mi < 60)"

text \<open>\<open>QTime::toString('HH:mm')\<close>.\<close>

definition time_string :: "qtime \<Rightarrow> string" where
  "time_string t = (case t of (h, mi) \<Rightarrow> show_padded 2 h @ CHR '':'' # show_padded 2 mi)"

text \<open>One field of \<open>strptime\<close>: one or two digits whose value is at most
  \<open>hi\<close> (the regular expressions \<open>2[0-3]|[0-1]\d|\d\<close> and \<open>[0-5]\d|\d\<close>).\<close>

definition strptime_field :: "nat \<Rightarrow> string \<Rightarrow> nat option" where
  "strptime_field hi s =
     (if s \<noteq> [] \<and> length s \<le> 2 \<and> (\<forall>c \<in> set s. is_digit c) \<and> digits_val s \<le> hi
      then Some (digits_val s) else None)"

text \<open>\<open>datetime.strptime(s, '%H:%M')\<close>: hour, a colon, minute, nothing else;
  anything else raises \<open>ValueError\<close> (here \<open>None\<close>).\<close>

definition strptime_hm :: "string \<Rightarrow> qtime option" where
  "strptime_hm s = (case py_split CHR '':'' s of
       [hs, ms] \<Rightarrow> (case (strptime_field 23 hs, strptime_field 59 ms) of
                     (Some h, Some mi) \<Rightarrow> Some (h, mi)
                   | _ \<Rightarrow> None)
     | _ \<Rightarrow> None)"

text \<open>Seconds since midnight of the \<open>datetime\<close> that \<open>strptime\<close> returns
  (1900-01-01 at that time).\<close>

definition time_seconds :: "qtime \<Rightarrow> int" where
  "time_seconds t = (case t of (h, mi) \<Rightarrow> int (3600 * h + 60 * mi))"

text \<open>\<open>(end - start).seconds\<close>: a \<open>timedelta\<close> is normalised to days and
  \<open>0 \<le> seconds < 86400\<close>, so the seconds field is the difference modulo a day.\<close>

definition timedelta_seconds :: "qtime \<Rightarrow> qtime \<Rightarrow> int" where
  "timedelta_seconds start fin = (time_seconds fin - time_seconds start) mod 86400"

section \<open>Calendar lemmas\<close>

lemma days_in_month_bounds: "28 \<le> days_in_month y m \<and> days_in_month y m \<le> 31"
  by (simp add: days_in_month_def)

lemma days_before_month_Suc:
  "1 \<le> m \<Longrightarrow> days_before_month y (Suc m) = days_before_month y m + days_in_month y m"
  by (simp add: days_before_month_def)

lemma days_before_month_1 [simp]: "days_before_month y 1 = 0"
  by (simp add: days_before_month_def)

lemma days_before_month_13: "days_before_month y 13 = (if is_leap_year y then 366 else 365)"
  by (simp add: days_before_month_def days_in_month_def upt_rec)

lemma div_step: "0 < k \<Longrightarrow> Suc x div k = x div k + (if k dvd Suc x then 1 else 0)"
  for x k :: nat
  by (auto simp: div_Suc dvd_eq_mod_eq_0)

lemma leap_days_Suc:
  "leap_days (Suc x) = leap_days x + (if is_leap_year (Suc x) then 1 else 0)"
proof -
  have a: "x div 100 \<le> x div 4" by (rule div_le_mono2) simp_all
  have d4: "Suc x div 4 = x div 4 + (if 4 dvd Suc x then 1 else 0)" by (rule div_step) simp
  have d100: "Suc x div 100 = x div 100 + (if 100 dvd Suc x then 1 else 0)" by (rule div_step) simp
  have d400: "Suc x div 400 = x div 400 + (if 400 dvd Suc x then 1 else 0)" by (rule div_step) simp
  have i1: "100 dvd Suc x \<Longrightarrow> 4 dvd Suc x" by (erule dvd_trans [rotated]) simp
  have i2: "400 dvd Suc x \<Longrightarrow> 100 dvd Suc x" by (erule dvd_trans [rotated]) simp
  show ?thesis
    using a i1 i2 by (simp add: leap_days_def d4 d100 d400 is_leap_year_def)
qed

lemma day_number_next_day:
  assumes "valid_date d"
  shows "day_number (next_day d) = Suc (day_number d)"
proof -
  obtain y m dd where d: "d = (y, m, dd)" by (cases d) auto
  with assms have v: "1 \<le> y" "1 \<le> m" "m \<le> 12" "1 \<le> dd" "dd \<le> days_in_month y m"
    by (auto simp: valid_date_def)
  consider (same) "dd < days_in_month y m" | (month) "dd = days_in_month y m" "m < 12"
    | (year) "dd = days_in_month y m" "m = 12"
    using v by linarith
  then show ?thesis
  proof cases
    case same
    with d v show ?thesis by (simp add: next_day_def day_number_def)
  next
    case month
    with d v show ?thesis by (simp add: next_day_def day_number_def days_before_month_Suc)
  next
    case year
    obtain x where x: "y = Suc x" using v by (cases y) auto
    have "days_before_month y 12 + days_in_month y 12 = (if is_leap_year y then 366 else 365)"
      using days_before_month_13 [of y] days_before_month_Suc [of 12 y] by simp
    then show ?thesis using year d x
      by (simp add: next_day_def day_number_def leap_days_Suc days_before_month_def days_in_month_def split: if_splits)
  qed
qed

section \<open>Dates and times as text\<close>

lemma add_days_Suc: "add_days d (Suc n) = next_day (add_days d n)"
  by (simp add: add_days_def)

lemma add_days_first_of_month:
  "i < days_in_month y m \<Longrightarrow> add_days (y, m, 1) i = (y, m, Suc i)"
  by (induction i) (simp_all add: add_days_def next_day_def)

lemma day_of_week_range: "1 \<le> day_of_week d \<and> day_of_week d \<le> 7"
  by (simp add: day_of_week_def)

lemma date_string_same_month_inj:
  "date_string (y, m, a) = date_string (y, m, b) \<Longrightarrow> a = b"
proof -
  assume "date_string (y, m, a) = date_string (y, m, b)"
  then have "show_padded 2 a = show_padded 2 b" by (simp add: date_string_def)
  then have "digits_val (show_padded 2 a) = digits_val (show_padded 2 b)" by simp
  then show "a = b" by simp
qed

lemma colon_not_digit [simp]: "\<not> is_digit CHR '':''"
  by (simp add: is_digit_def)

lemma strptime_field_padded:
  "n \<le> hi \<Longrightarrow> n < 100 \<Longrightarrow> strptime_field hi (show_padded 2 n) = Some n"
  using length_show_padded [of 2 n] by (simp add: strptime_field_def)

lemma strptime_time_string: "valid_time t \<Longrightarrow> strptime_hm (time_string t) = Some t"
proof -
  assume v: "valid_time t"
  obtain h mi where t: "t = (h, mi)" by (cases t) auto
  with v have "h < 24" "mi < 60" by (auto simp: valid_time_def)
  have nc: "CHR '':'' \<notin> set (show_padded 2 k)" for k
    using show_padded_digits [of 2 k] colon_not_digit by blast
  from t \<open>h < 24\<close> \<open>mi < 60\<close> nc show ?thesis
    by (simp add: strptime_hm_def time_string_def py_split_append_sep py_split_no_sep
                  strptime_field_padded)
qed

lemma timedelta_seconds_range: "0 \<le> timedelta_seconds s e \<and> timedelta_seconds s e < 86400"
  by (simp add: timedelta_seconds_def)

lemma minus_not_digit [simp]: "\<not> is_digit CHR ''-''"
  by (simp add: is_digit_def)

lemma minus_notin_padded [simp]: "CHR ''-'' \<notin> set (show_padded w n)"
  using show_padded_digits [of w n] minus_not_digit by blast

lemma date_string_nonempty [simp]: "date_string d \<noteq> []"
  by (cases d) (simp add: date_string_def)

lemma py_split_date_string:
  "py_split CHR ''-'' (date_string (y, m, d)) = [show_padded 4 y, show_padded 2 m, show_padded 2 d]"
  by (simp add: date_string_def py_split_append_sep py_split_no_sep)

lemma date_string_inj: "date_string a = date_string b \<Longrightarrow> a = b"
proof -
  assume eq: "date_string a = date_string b"
  obtain y m d where a: "a = (y, m, d)" by (cases a) auto
  obtain y' m' d' where b: "b = (y', m', d')" by (cases b) auto
  from eq a b have "py_split CHR ''-'' (date_string (y, m, d)) = py_split CHR ''-'' (date_string (y', m', d'))"
    by simp
  then have "show_padded 4 y = show_padded 4 y'" "show_padded 2 m = show_padded 2 m'"
            "show_padded 2 d = show_padded 2 d'"
    by (simp_all add: py_split_date_string)
  then have "digits_val (show_padded 4 y) = digits_val (show_padded 4 y')"
            "digits_val (show_padded 2 m) = digits_val (show_padded 2 m')"
            "digits_val (show_padded 2 d) = digits_val (show_padded 2 d')"
    by simp_all
  with a b show "a = b" by simp
qed


end
