(* ===== verification/Ledger.thy ===== *)
theory Ledger
  imports Zone QtTable Calendar
begin

text \<open>
  The main window \<open>FuvarAdminApp\<close> of \<open>src/main.py\<close> as a state record: the two
  month ledgers (the \<open>work_table\<close> and \<open>delivery_table\<close> widgets), the input
  widgets the handlers read, the volume session (\<open>m3_values\<close>, an attribute that
  exists only after the first volume entry, and its label \<open>m3_sum\<close>), the two
  append-only journal files and the message boxes shown.  Each handler is one
  definition over that record: \<open>setupTableRows\<close>, \<open>handleM3Input\<close> with
  \<open>updateDeliveryTable\<close>, \<open>saveWorkHours\<close> and \<open>saveDeliveryData\<close>.
  Exceptions inside a \<open>for\<close> loop keep the effects made before them
  (\<open>py_for\<close>); a \<open>try\<close> block's handler adds the message box it shows.
\<close>

section \<open>State\<close>

text \<open>The message boxes, by their text in the source.\<close>

datatype notice =
    WorkSaved \<comment> \<open>\<open>"Munkaorak mentve!"\<close>, line 532\<close>
  | DeliverySaved \<comment> \<open>\<open>"Fuvar adatok mentve!"\<close>, line 579\<close>
  | NumberPrompt \<comment> \<open>\<open>"Kerem szamot adjon meg (pl.: 6.0 vagy 6,0)"\<close>, line 481\<close>
  | SaveFailed py_exc \<comment> \<open>\<open>f"Hiba tortent: {str(e)}"\<close>, lines 534 and 581\<close>
  | ExcelSaved \<comment> \<open>\<open>"Excel fajl mentve!"\<close>, lines 605 and 653\<close>
  | ExportFailed py_exc \<comment> \<open>\<open>f"Mentesi hiba: ..."\<close>, lines 607 and 655\<close>
  | ExcelLoaded \<comment> \<open>\<open>"Excel adatok betoltve!"\<close>, line 690\<close>
  | LoadFailed py_exc \<comment> \<open>\<open>f"Adatok betoltesi hiba: ..."\<close>, line 692\<close>
  | OpenFailed py_exc \<comment> \<open>\<open>f"Fajl megnyitasi hiba: ..."\<close>, line 670\<close>

text \<open>One line of \<open>work_hours.json\<close>: the \<open>data\<close> dict of \<open>saveWorkHours\<close>.\<close>

record work_entry =
  we_date :: string
  we_start_time :: string
  we_end_time :: string
  we_type :: string

text \<open>One line of \<open>delivery_data.json\<close>: the \<open>data\<close> dict of \<open>saveDeliveryData\<close>.\<close>

record delivery_entry =
  de_date :: string
  de_km_range :: string
  de_factory :: string
  de_address :: string
  de_delivery_number :: string
  de_m3_values :: "pyfloat list"

record app =
  work_table :: qtable
  delivery_table :: qtable
  date_edit :: qdate
  start_time :: qtime
  end_time :: qtime
  type_combo :: string
  km_combo :: string
  factory_combo :: string
  address_input :: string
  delivery_input :: string
  m3_input :: string
  m3_values :: "pyfloat list option"
  m3_sum :: string
  work_journal :: "work_entry list"
  delivery_journal :: "delivery_entry list"
  notices :: "notice list"

text \<open>\<open>self.work_table.setColumnCount(7)\<close> (line 260).\<close>

definition work_col_count :: nat where
  "work_col_count = 7"

definition show_notice :: "notice \<Rightarrow> app \<Rightarrow> app" where
  "show_notice n s = s\<lparr>notices := notices s @ [n]\<rparr>"

text \<open>The volume session: \<open>self.m3_values if hasattr(self, 'm3_values') else []\<close>.\<close>

definition session :: "app \<Rightarrow> pyfloat list" where
  "session s = (case m3_values s of None \<Rightarrow> [] | Some vs \<Rightarrow> vs)"

section \<open>setupTableRows\<close>

text \<open>One iteration of \<open>for i in range(days_in_month)\<close>: insert the row, write
  the date, and in the work ledger the day name \<open>day_names[dayOfWeek() - 1]\<close>.\<close>

definition setup_row :: "bool \<Rightarrow> qdate \<Rightarrow> qtable \<Rightarrow> nat \<Rightarrow> qtable \<times> py_exc option" where
  "setup_row is_work first_day t i =
     (let current_day = add_days first_day i;
          t1 = set_item i 0 (date_string current_day) (insert_row i t) in
      if is_work then
        (case py_index day_names (int (day_of_week current_day) - 1) of
           Inl e \<Rightarrow> (t1, Some e)
         | Inr day_name \<Rightarrow> (set_item i 1 day_name t1, None))
      else (t1, None))"

text \<open>The table after one iteration (the exception part is dropped; it never occurs, see
  \<open>setup_row_no_exc\<close>).\<close>

definition setup_step :: "bool \<Rightarrow> qdate \<Rightarrow> qtable \<Rightarrow> nat \<Rightarrow> qtable" where
  "setup_step is_work first_day t i = fst (setup_row is_work first_day t i)"

text \<open>\<open>table.setRowCount(0)\<close>, then one row per day of the month of \<open>today\<close>.\<close>

definition setup_table :: "bool \<Rightarrow> qdate \<Rightarrow> qtable \<Rightarrow> qtable \<times> py_exc option" where
  "setup_table is_work today t =
     py_for (setup_row is_work (first_of_month today)) [0..<month_length today] (set_row_count_zero t)"

text \<open>\<open>for table in [self.work_table, self.delivery_table]\<close>.\<close>

definition setupTableRows :: "qdate \<Rightarrow> app \<Rightarrow> app \<times> py_exc option" where
  "setupTableRows today s =
     (case setup_table True today (work_table s) of
        (w, Some e) \<Rightarrow> (s\<lparr>work_table := w\<rparr>, Some e)
      | (w, None) \<Rightarrow>
          (case setup_table False today (delivery_table s) of
             (d, r) \<Rightarrow> (s\<lparr>work_table := w, delivery_table := d\<rparr>, r)))"

section \<open>The window at start-up\<close>

text \<open>
  The widgets as \<open>setupTopFrame\<close> leaves them: the date edit shows today, the
  two time edits their default \<open>00:00\<close>, each combo box its first item (the
  factory combo the first name \<open>loadFactories\<close> read from the store), the line
  edits are empty, the volume label reads \<open>"(0)"\<close>; no \<open>m3_values\<close> attribute
  yet; \<open>setupBottomFrame\<close> creates the tables with 7 and 10 columns.
\<close>

definition fresh_window :: "qdate \<Rightarrow> string list \<Rightarrow> app" where
  "fresh_window today factory_names =
     \<lparr>work_table = new_table work_col_count, delivery_table = new_table delivery_col_count,
      date_edit = today, start_time = (0, 0), end_time = (0, 0),
      type_combo = ''Sima munkanap'', km_combo = hd km_bands,
      factory_combo = (case factory_names of [] \<Rightarrow> [] | f # _ \<Rightarrow> f),
      address_input = [], delivery_input = [], m3_input = [], m3_values = None,
      m3_sum = ''(0)'', work_journal = [], delivery_journal = [], notices = []\<rparr>"

text \<open>\<open>FuvarAdminApp.__init__\<close>: the window, then \<open>setupTableRows\<close> for the month of
  \<open>QDate.currentDate()\<close>.\<close>

definition app_init :: "qdate \<Rightarrow> string list \<Rightarrow> app \<times> py_exc option" where
  "app_init today factory_names = setupTableRows today (fresh_window today factory_names)"

section \<open>The ledger invariant\<close>

text \<open>A month ledger: well formed, with the code's column count, one row per day of
  the month of \<open>today\<close>, and in column 0 of row \<open>i\<close> the date \<open>i\<close> days after
  the first of the month.\<close>

definition dated_table :: "nat \<Rightarrow> qdate \<Rightarrow> qtable \<Rightarrow> bool" where
  "dated_table cols today t \<longleftrightarrow>
     wf_table t \<and> col_count t = cols \<and> row_count t = month_length today \<and>
     (\<forall>i < row_count t. item t i 0 = Some (date_string (add_days (first_of_month today) i)))"

definition ledger_ok :: "qdate \<Rightarrow> app \<Rightarrow> bool" where
  "ledger_ok today s \<longleftrightarrow>
     dated_table work_col_count today (work_table s) \<and>
     dated_table delivery_col_count today (delivery_table s)"

text \<open>What the user's own edits of the tables keep: the editable \<open>QTableWidget\<close>s
  let the user retype any cell, the dates in column 0 included, so the invariant of
  every run is the shape of a month ledger with some text in column 0 of each row.\<close>

definition keyed_table :: "nat \<Rightarrow> nat \<Rightarrow> qtable \<Rightarrow> bool" where
  "keyed_table cols n t \<longleftrightarrow>
     wf_table t \<and> col_count t = cols \<and> row_count t = n \<and> (\<forall>i < n. item t i 0 \<noteq> None)"

definition ledger_shape :: "qdate \<Rightarrow> app \<Rightarrow> bool" where
  "ledger_shape today s \<longleftrightarrow>
     keyed_table work_col_count (month_length today) (work_table s) \<and>
     keyed_table delivery_col_count (month_length today) (delivery_table s)"

text \<open>The handlers write only columns after the date: the rows, the column count,
  well-formedness and column 0 stay as they were.\<close>

definition col0_frame :: "qtable \<Rightarrow> qtable \<Rightarrow> bool" where
  "col0_frame t t' \<longleftrightarrow> row_count t' = row_count t \<and> col_count t' = col_count t \<and>
     (wf_table t \<longrightarrow> wf_table t') \<and> (\<forall>i. item t' i 0 = item t i 0)"

definition ledger_frame :: "app \<Rightarrow> app \<Rightarrow> bool" where
  "ledger_frame s s' \<longleftrightarrow> col0_frame (work_table s) (work_table s') \<and> col0_frame (delivery_table s) (delivery_table s')"

section \<open>Volume entry\<close>

text \<open>The label text of \<open>handleM3Input\<close>: every value to one decimal joined
  by \<open>" + "\<close>, in parentheses, then the total in parentheses.\<close>

definition m3_display :: "pyfloat list \<Rightarrow> string" where
  "m3_display vs =
     ''('' @ py_join '' + '' (map (format_fixed 1) vs) @ '') ('' @ format_fixed 1 (py_sum vs) @ '')''"

text \<open>The loop body shared by the handlers that write a ledger row by date:
  \<open>if table.item(row, 0).text() == date_text: ...\<close>.\<close>

definition row_if_date :: "string \<Rightarrow> (qtable \<Rightarrow> nat \<Rightarrow> qtable \<times> py_exc option)
                            \<Rightarrow> qtable \<Rightarrow> nat \<Rightarrow> qtable \<times> py_exc option" where
  "row_if_date date_text body t row =
     (case item_text t row 0 of
        Inl e \<Rightarrow> (t, Some e)
      | Inr txt \<Rightarrow> if txt = date_text then body t row else (t, None))"

definition for_rows :: "qtable \<Rightarrow> (qtable \<Rightarrow> nat \<Rightarrow> qtable \<times> py_exc option) \<Rightarrow> qtable \<times> py_exc option" where
  "for_rows t body = py_for body [0..<row_count t] t"

text \<open>\<open>updateDeliveryTable(sum_text)\<close>: the running display is written into the
  zone's cell of today's row.\<close>

definition updateDeliveryTable :: "string \<Rightarrow> app \<Rightarrow> app \<times> py_exc option" where
  "updateDeliveryTable sum_text s =
     (let date_text = date_string (date_edit s);
          zone_col = getZoneColumn (km_combo s) in
      if 0 < zone_col then
        (case for_rows (delivery_table s)
                (row_if_date date_text (\<lambda>t row. (set_item row (nat zone_col) sum_text t, None))) of
           (t, r) \<Rightarrow> (s\<lparr>delivery_table := t\<rparr>, r))
      else (s, None))"

text \<open>
  \<open>handleM3Input\<close>: the text is stripped, commas become points, empty input does
  nothing; \<open>float(text)\<close> raising \<open>ValueError\<close> shows the number prompt and changes
  nothing else.  Otherwise the value is appended to the session (created on first
  use), the label and the ledger cell show the running display, and the input is
  cleared.  Only \<open>ValueError\<close> is caught; another exception leaves the slot with
  the effects made so far.
\<close>

text \<open>\<open>self.m3_input.text().strip()\<close>, then \<open>text.replace(',', '.')\<close>.\<close>

definition m3_text :: "app \<Rightarrow> string" where
  "m3_text s = py_replace_char CHR '','' CHR ''.'' (py_strip (m3_input s))"

definition handleM3Input :: "app \<Rightarrow> app" where
  "handleM3Input s =
     (let text = m3_text s in
      if text = [] then s
      else case py_float text of
        None \<Rightarrow> show_notice NumberPrompt s
      | Some value \<Rightarrow>
          let vals = session s @ [value];
              sum_text = m3_display vals;
              s1 = s\<lparr>m3_values := Some vals, m3_sum := sum_text\<rparr> in
          (case updateDeliveryTable sum_text s1 of
             (s2, None) \<Rightarrow> s2\<lparr>m3_input := []\<rparr>
           | (s2, Some ValueError) \<Rightarrow> show_notice NumberPrompt s2
           | (s2, Some _) \<Rightarrow> s2))"

section \<open>Saving work hours\<close>

text \<open>\<open>(end - start).seconds / 3600\<close> formatted with \<open>:.2f\<close>; \<open>None\<close> where
  \<open>strptime\<close> raises.\<close>

definition hours_text :: "string \<Rightarrow> string \<Rightarrow> string option" where
  "hours_text start_text end_text =
     (case (strptime_hm start_text, strptime_hm end_text) of
        (Some st, Some en) \<Rightarrow> Some (format_fixed 2 (Fin (of_int (timedelta_seconds st en) / 3600)))
      | _ \<Rightarrow> None)"

text \<open>The body for the matching row: start, end, and the hours worked in columns
  2, 3 and 4.\<close>

definition work_row :: "string \<Rightarrow> string \<Rightarrow> qtable \<Rightarrow> nat \<Rightarrow> qtable \<times> py_exc option" where
  "work_row start_text end_text t row =
     (let t1 = set_item row 3 end_text (set_item row 2 start_text t) in
      case hours_text start_text end_text of
        None \<Rightarrow> (t1, Some ValueError)
      | Some h \<Rightarrow> (set_item row 4 h t1, None))"

text \<open>\<open>saveWorkHours\<close>: update the row of the selected date, append the record to
  \<open>work_hours.json\<close>, confirm; any exception shows the error box and keeps the
  effects made before it.\<close>

definition saveWorkHours :: "io_result \<Rightarrow> app \<Rightarrow> app" where
  "saveWorkHours io s =
     (let data = \<lparr>we_date = date_string (date_edit s), we_start_time = time_string (start_time s),
                  we_end_time = time_string (end_time s), we_type = type_combo s\<rparr> in
      case for_rows (work_table s) (row_if_date (we_date data) (work_row (we_start_time data) (we_end_time data))) of
        (t, Some e) \<Rightarrow> show_notice (SaveFailed e) (s\<lparr>work_table := t\<rparr>)
      | (t, None) \<Rightarrow>
          (case io of
             IoFail \<Rightarrow> show_notice (SaveFailed OSError) (s\<lparr>work_table := t\<rparr>)
           | IoOk \<Rightarrow> show_notice WorkSaved
                       (s\<lparr>work_table := t, work_journal := work_journal s @ [data]\<rparr>)))"

section \<open>Saving a delivery\<close>

text \<open>\<open>float(current_item.text()) if current_item and current_item.text() else 0\<close>.\<close>

definition cell_value :: "string option \<Rightarrow> pyfloat option" where
  "cell_value c = (case c of Some txt \<Rightarrow> if txt \<noteq> [] then py_float txt else Some (Fin 0)
                            | None \<Rightarrow> Some (Fin 0))"

text \<open>\<open>m3_sum = sum(m3_values) if m3_values else 0\<close>.\<close>

definition session_total :: "pyfloat list \<Rightarrow> pyfloat" where
  "session_total m3 = (if m3 \<noteq> [] then py_sum m3 else Fin 0)"

text \<open>The body for the matching row: the session's sum is added to the number in
  the zone's cell, written back to one decimal.\<close>

definition delivery_row :: "nat \<Rightarrow> pyfloat list \<Rightarrow> qtable \<Rightarrow> nat \<Rightarrow> qtable \<times> py_exc option" where
  "delivery_row zone_col m3 t row =
     (let m3_total = session_total m3 in
      case cell_value (item t row zone_col) of
        None \<Rightarrow> (t, Some ValueError)
      | Some current_value \<Rightarrow>
          (set_item row zone_col (format_fixed 1 (py_add current_value m3_total)) t, None))"

text \<open>\<open>saveDeliveryData\<close>: add the session to the ledger cell of (date, zone),
  append the record to \<open>delivery_data.json\<close>, then clear the session, the input
  and the label and confirm; any exception shows the error box, keeps the effects
  made before it and keeps the session.\<close>

definition saveDeliveryData :: "io_result \<Rightarrow> app \<Rightarrow> app" where
  "saveDeliveryData io s =
     (let data = \<lparr>de_date = date_string (date_edit s), de_km_range = km_combo s,
                  de_factory = factory_combo s, de_address = address_input s,
                  de_delivery_number = delivery_input s,
                  de_m3_values = session s\<rparr>;
          zone_col = getZoneColumn (de_km_range data);
          (t, r) = (if 0 < zone_col
                    then for_rows (delivery_table s)
                           (row_if_date (de_date data) (delivery_row (nat zone_col) (de_m3_values data)))
                    else (delivery_table s, None));
          s1 = s\<lparr>delivery_table := t\<rparr> in
      case r of
        Some e \<Rightarrow> show_notice (SaveFailed e) s1
      | None \<Rightarrow>
          (case io of
             IoFail \<Rightarrow> show_notice (SaveFailed OSError) s1
           | IoOk \<Rightarrow> show_notice DeliverySaved
                       (s1\<lparr>delivery_journal := delivery_journal s @ [data],
                           m3_values := Some [], m3_input := [], m3_sum := ''(0)''\<rparr>)))"

section \<open>Row lookup by direct indexing\<close>

text \<open>The direct mapping from a date to its ledger row that the specification
  (section 9) proposes in place of the handlers' linear scan by date text: in the
  ledger of \<open>today\<close>'s month the row of a date of that month is its day minus one,
  and a date of another month has no row.  A reference for the scan, not code of
  the program.\<close>

definition date_row :: "qdate \<Rightarrow> qdate \<Rightarrow> nat option" where
  "date_row today d = (case (today, d) of ((y, m, _), (y', m', dd)) \<Rightarrow>
     if y' = y \<and> m' = m then Some (dd - 1) else None)"

definition write_by_date :: "qdate \<Rightarrow> qdate \<Rightarrow> (qtable \<Rightarrow> nat \<Rightarrow> qtable \<times> py_exc option)
                              \<Rightarrow> qtable \<Rightarrow> qtable \<times> py_exc option" where
  "write_by_date today d body t = (case date_row today d of None \<Rightarrow> (t, None) | Some r \<Rightarrow> body t r)"

section \<open>The ledger invariant is kept\<close>

section \<open>Example windows\<close>

text \<open>The start-up window of 15 April 2024, and two states reached from it by the
  user's input: a delivery on 3 April in band 10-15 with one volume of 3 in the session
  over a cell that reads \<open>"5.0"\<close>, and a working day on 3 April between two times.\<close>

abbreviation april_window :: app where
  "april_window \<equiv> fst (app_init (2024, 4, 15) [])"

abbreviation april_delivery :: app where
  "april_delivery \<equiv> april_window\<lparr>date_edit := (2024, 4, 3), km_combo := band_label 10,
      m3_values := Some [Fin 3],
      delivery_table := set_item 2 3 ''5.0'' (delivery_table (april_window))\<rparr>"

abbreviation april_work :: "nat \<times> nat \<Rightarrow> nat \<times> nat \<Rightarrow> app" where
  "april_work st en \<equiv> april_window\<lparr>date_edit := (2024, 4, 3),
      start_time := st, end_time := en\<rparr>"

lemma dated_set_item:
  "dated_table n today t \<Longrightarrow> 0 < c \<Longrightarrow> dated_table n today (set_item r c v t)"
  by (simp add: dated_table_def qtable_simps)

lemma dated_item_text:
  "dated_table n today t \<Longrightarrow> row < row_count t \<Longrightarrow>
   item_text t row 0 = Inr (date_string (add_days (first_of_month today) row))"
  by (simp add: dated_table_def item_text_def)

lemma show_notice_tables [simp]:
  "work_table (show_notice n s) = work_table s" "delivery_table (show_notice n s) = delivery_table s"
  by (simp_all add: show_notice_def)

subsection \<open>The column-0 frame\<close>

lemma col0_frame_refl [simp]: "col0_frame t t"
  by (simp add: col0_frame_def)

lemma col0_frame_trans: "col0_frame t u \<Longrightarrow> col0_frame u w \<Longrightarrow> col0_frame t w"
  by (simp add: col0_frame_def)

lemma col0_frame_set_item: "0 < c \<Longrightarrow> col0_frame t (set_item r c v t)"
proof -
  assume c: "0 < c"
  have "item (set_item r c v t) i 0 = item t i 0" for i
    using c by (auto simp: set_item_def item_def in_grid_def row_count_def nth_list_update)
  then show ?thesis by (simp add: col0_frame_def qtable_simps)
qed

lemma dated_frame: "dated_table n today t \<Longrightarrow> col0_frame t t' \<Longrightarrow> dated_table n today t'"
  by (simp add: dated_table_def col0_frame_def)

lemma keyed_frame: "keyed_table n m t \<Longrightarrow> col0_frame t t' \<Longrightarrow> keyed_table n m t'"
  by (simp add: keyed_table_def col0_frame_def)

lemma ledger_frame_refl [simp]: "ledger_frame s s"
  by (simp add: ledger_frame_def)

lemma ledger_frame_trans: "ledger_frame s u \<Longrightarrow> ledger_frame u w \<Longrightarrow> ledger_frame s w"
  by (auto simp: ledger_frame_def intro: col0_frame_trans)

lemma ledger_frame_ok: "ledger_ok today s \<Longrightarrow> ledger_frame s s' \<Longrightarrow> ledger_ok today s'"
  by (auto simp: ledger_ok_def ledger_frame_def intro: dated_frame)

lemma ledger_frame_shape: "ledger_shape today s \<Longrightarrow> ledger_frame s s' \<Longrightarrow> ledger_shape today s'"
  by (auto simp: ledger_shape_def ledger_frame_def intro: keyed_frame)

lemma ledger_ok_shape: "ledger_ok today s \<Longrightarrow> ledger_shape today s"
  by (simp add: ledger_ok_def ledger_shape_def dated_table_def keyed_table_def)

lemma row_if_date_frame:
  "(\<And>t'. col0_frame t' (fst (body t' row))) \<Longrightarrow> col0_frame t (fst (row_if_date d body t row))"
  by (simp add: row_if_date_def split: sum.split)

lemma for_rows_frame:
  assumes "\<And>t' row. col0_frame t' (fst (body t' row))"
  shows "col0_frame t (fst (for_rows t (row_if_date d body)))"
  unfolding for_rows_def
  by (rule py_for_preserves [where P = "col0_frame t"])
     (auto intro: col0_frame_trans row_if_date_frame assms)

lemma updateDeliveryTable_frame: "ledger_frame s (fst (updateDeliveryTable txt s))"
  by (auto simp: updateDeliveryTable_def Let_def case_prod_beta ledger_frame_def
           intro!: for_rows_frame col0_frame_set_item)

lemma updateDeliveryTable_ok:
  "ledger_ok today s \<Longrightarrow> ledger_ok today (fst (updateDeliveryTable txt s))"
  by (erule ledger_frame_ok) (rule updateDeliveryTable_frame)

lemma updateDeliveryTable_other:
  "work_table (fst (updateDeliveryTable txt s)) = work_table s \<and>
   m3_values (fst (updateDeliveryTable txt s)) = m3_values s \<and>
   m3_sum (fst (updateDeliveryTable txt s)) = m3_sum s \<and>
   notices (fst (updateDeliveryTable txt s)) = notices s \<and>
   delivery_journal (fst (updateDeliveryTable txt s)) = delivery_journal s"
  by (simp add: updateDeliveryTable_def Let_def case_prod_beta)

lemma handleM3Input_frame: "ledger_frame s (handleM3Input s)"
proof -
  have u: "ledger_frame s (fst (updateDeliveryTable w (s\<lparr>m3_values := v, m3_sum := l\<rparr>)))" for w v l
    using updateDeliveryTable_frame [of "s\<lparr>m3_values := v, m3_sum := l\<rparr>" w] by (simp add: ledger_frame_def)
  show ?thesis
    using u by (auto simp: handleM3Input_def Let_def ledger_frame_def case_prod_beta split: option.split py_exc.split)
qed

lemma handleM3Input_ok: "ledger_ok today s \<Longrightarrow> ledger_ok today (handleM3Input s)"
  by (erule ledger_frame_ok) (rule handleM3Input_frame)

lemma col0_frame_set_item_trans: "col0_frame t u \<Longrightarrow> 0 < c \<Longrightarrow> col0_frame t (set_item r c v u)"
  by (blast intro: col0_frame_trans col0_frame_set_item)

lemma work_row_frame: "col0_frame t (fst (work_row a b t row))"
  by (simp add: work_row_def Let_def col0_frame_set_item_trans col0_frame_set_item split: option.split)

lemma delivery_row_frame: "0 < c \<Longrightarrow> col0_frame t (fst (delivery_row c m3 t row))"
  by (auto simp: delivery_row_def Let_def col0_frame_set_item split: option.split)

lemma work_row_dated:
  "dated_table n today t \<Longrightarrow> dated_table n today (fst (work_row a b t row))"
  by (erule dated_frame) (rule work_row_frame)

lemma delivery_row_dated:
  "0 < c \<Longrightarrow> dated_table n today t \<Longrightarrow> dated_table n today (fst (delivery_row c m3 t row))"
  by (blast intro: dated_frame delivery_row_frame)

lemma saveWorkHours_frame: "ledger_frame s (saveWorkHours io s)"
proof -
  let ?r = "for_rows (work_table s) (row_if_date (date_string (date_edit s))
              (work_row (time_string (start_time s)) (time_string (end_time s))))"
  have "col0_frame (work_table s) (fst ?r)" by (intro for_rows_frame work_row_frame)
  then show ?thesis
    by (auto simp: saveWorkHours_def ledger_frame_def case_prod_beta Let_def split: option.split io_result.split)
qed

lemma saveWorkHours_ok: "ledger_ok today s \<Longrightarrow> ledger_ok today (saveWorkHours io s)"
  by (erule ledger_frame_ok) (rule saveWorkHours_frame)

lemma saveDeliveryData_frame: "ledger_frame s (saveDeliveryData io s)"
proof -
  let ?z = "getZoneColumn (km_combo s)"
  let ?r = "for_rows (delivery_table s) (row_if_date (date_string (date_edit s)) (delivery_row (nat ?z) (session s)))"
  have "0 < ?z \<Longrightarrow> col0_frame (delivery_table s) (fst ?r)" by (intro for_rows_frame delivery_row_frame) simp
  then show ?thesis
    by (auto simp: saveDeliveryData_def ledger_frame_def Let_def case_prod_beta
             split: option.split io_result.split)
qed

lemma saveDeliveryData_ok: "ledger_ok today s \<Longrightarrow> ledger_ok today (saveDeliveryData io s)"
  by (erule ledger_frame_ok) (rule saveDeliveryData_frame)

section \<open>Building the month\<close>

lemma py_index_day_names:
  "py_index day_names (int (day_of_week d) - 1) = Inr (day_names ! (day_of_week d - 1))"
proof -
  have "1 \<le> day_of_week d" "day_of_week d \<le> 7" using day_of_week_range by blast+
  moreover have "length day_names = 7" by (simp add: day_names_def)
  ultimately show ?thesis using py_index_nat [of "day_of_week d - 1" day_names] by (simp add: of_nat_diff)
qed

lemma setup_row_no_exc: "setup_row b f t i = (setup_step b f t i, None)"
  by (simp add: setup_step_def setup_row_def Let_def py_index_day_names)

lemma setup_fold:
  assumes "wf_table t0" "row_count t0 = 0" "1 < col_count t0"
  shows "wf_table (foldl (setup_step b f) t0 [0..<k]) \<and>
         col_count (foldl (setup_step b f) t0 [0..<k]) = col_count t0 \<and>
         row_count (foldl (setup_step b f) t0 [0..<k]) = k \<and>
         (\<forall>i < k. item (foldl (setup_step b f) t0 [0..<k]) i 0 = Some (date_string (add_days f i)) \<and>
                 (b \<longrightarrow> item (foldl (setup_step b f) t0 [0..<k]) i 1 =
                         Some (day_names ! (day_of_week (add_days f i) - 1))))"
proof (induction k)
  case 0
  with assms show ?case by simp
next
  case (Suc k)
  let ?t = "foldl (setup_step b f) t0 [0..<k]"
  have wf: "wf_table ?t" and cc: "col_count ?t = col_count t0" and rc: "row_count ?t = k"
    and dates: "\<forall>i<k. item ?t i 0 = Some (date_string (add_days f i))"
    and names: "b \<longrightarrow> (\<forall>i<k. item ?t i 1 = Some (day_names ! (day_of_week (add_days f i) - 1)))"
    using Suc.IH by blast+
  let ?ti = "insert_row k ?t"
  let ?t1 = "set_item k 0 (date_string (add_days f k)) ?ti"
  let ?name = "day_names ! (day_of_week (add_days f k) - 1)"
  have wfi: "wf_table ?ti" using wf by (simp add: qtable_simps)
  have gi: "in_grid ?ti k 0" "in_grid ?ti k 1"
    using rc cc assms(3) in_grid_insert_row_end [of ?t] by simp_all
  have old: "i < k \<Longrightarrow> item ?ti i c = item ?t i c" for i c
    using item_insert_row_end [OF wf] rc by simp
  have wf1: "wf_table ?t1" using wfi by (simp add: qtable_simps)
  have rc1: "row_count ?t1 = Suc k" using rc by (simp add: qtable_simps)
  have cc1: "col_count ?t1 = col_count t0" using cc by (simp add: qtable_simps)
  have d1: "\<forall>i<Suc k. item ?t1 i 0 = Some (date_string (add_days f i))"
    using dates old gi wfi by (auto simp: item_set_item less_Suc_eq)
  have n1: "\<forall>i<k. item ?t1 i 1 = item ?t i 1"
    using old wfi by (simp add: item_set_item)
  have step: "foldl (setup_step b f) t0 [0..<Suc k] = (if b then set_item k 1 ?name ?t1 else ?t1)"
    by (simp add: setup_step_def setup_row_def Let_def py_index_day_names)
  show ?case
  proof (cases b)
    case True
    have g1: "in_grid ?t1 k 1" using gi by (simp add: qtable_simps)
    have "\<forall>i<Suc k. item (set_item k 1 ?name ?t1) i 1 = Some (day_names ! (day_of_week (add_days f i) - 1))"
      using True names n1 g1 wf1 by (auto simp: item_set_item less_Suc_eq)
    moreover have "\<forall>i<Suc k. item (set_item k 1 ?name ?t1) i 0 = Some (date_string (add_days f i))"
      using d1 wf1 by (simp add: item_set_item_other_col)
    ultimately show ?thesis using True step wf1 rc1 cc1 by (simp add: qtable_simps)
  next
    case False
    then show ?thesis using step wf1 rc1 cc1 d1 by simp
  qed
qed

lemma setup_table_fold:
  "setup_table b today t = (foldl (setup_step b (first_of_month today)) (set_row_count_zero t) [0..<month_length today], None)"
  by (simp add: setup_table_def setup_row_no_exc py_for_fold)

lemma setup_table_dated:
  assumes "wf_table t" "1 < col_count t"
  shows "dated_table (col_count t) today (fst (setup_table b today t))"
  using setup_fold [of "set_row_count_zero t" b "first_of_month today" "month_length today"] assms
  by (simp add: setup_table_fold dated_table_def qtable_simps)

lemma first_of_month_days:
  "valid_date (y, m, d) \<Longrightarrow> i < month_length (y, m, d) \<Longrightarrow> add_days (first_of_month (y, m, d)) i = (y, m, Suc i)"
  using add_days_first_of_month [of i y m] by (simp add: first_of_month_def month_length_def)

text \<open>C4. For any valid selected date, \<open>setupTableRows\<close> (called once, from \<open>initUI\<close> at start-up) raises no exception and leaves both ledgers with one row per day of the selected month: row \<open>i\<close> holds the date of day \<open>i + 1\<close> in column 0, the dates are pairwise distinct, and the ledger invariant holds.\<close>

theorem setupTableRows_month:
  assumes v: "valid_date (y, m, d)"
    and w: "wf_table (work_table s)" "col_count (work_table s) = work_col_count"
    and dl: "wf_table (delivery_table s)" "col_count (delivery_table s) = delivery_col_count"
  shows "snd (setupTableRows (y, m, d) s) = None \<and>
         ledger_ok (y, m, d) (fst (setupTableRows (y, m, d) s)) \<and>
         row_count (delivery_table (fst (setupTableRows (y, m, d) s))) = days_in_month y m \<and>
         (\<forall>i < days_in_month y m.
            item (work_table (fst (setupTableRows (y, m, d) s))) i 0 = Some (date_string (y, m, Suc i)) \<and>
            item (delivery_table (fst (setupTableRows (y, m, d) s))) i 0 = Some (date_string (y, m, Suc i))) \<and>
         distinct (map (\<lambda>i. item (delivery_table (fst (setupTableRows (y, m, d) s))) i 0) [0..<days_in_month y m])"
proof -
  let ?w = "fst (setup_table True (y, m, d) (work_table s))"
  let ?d = "fst (setup_table False (y, m, d) (delivery_table s))"
  have r: "setupTableRows (y, m, d) s = (s\<lparr>work_table := ?w, delivery_table := ?d\<rparr>, None)"
    by (simp add: setupTableRows_def setup_table_fold)
  have dw: "dated_table work_col_count (y, m, d) ?w"
    using setup_table_dated [of "work_table s"] w by (simp add: work_col_count_def)
  have dd: "dated_table delivery_col_count (y, m, d) ?d"
    using setup_table_dated [of "delivery_table s"] dl by (simp add: delivery_col_count_def)
  have ml: "month_length (y, m, d) = days_in_month y m" by (simp add: month_length_def)
  have items: "\<forall>i < days_in_month y m. item ?w i 0 = Some (date_string (y, m, Suc i)) \<and>
                                        item ?d i 0 = Some (date_string (y, m, Suc i))"
    using dw dd v ml first_of_month_days [OF v] by (simp add: dated_table_def)
  have "inj_on (\<lambda>i. Some (date_string (y, m, Suc i))) {0..<days_in_month y m}"
    by (auto intro!: inj_onI dest: date_string_same_month_inj)
  then have "distinct (map (\<lambda>i. Some (date_string (y, m, Suc i))) [0..<days_in_month y m])"
    by (simp add: distinct_map)
  moreover have eq: "map (\<lambda>i. item ?d i 0) [0..<days_in_month y m] =
                 map (\<lambda>i. Some (date_string (y, m, Suc i))) [0..<days_in_month y m]"
    by (rule map_cong) (simp_all add: items)
  ultimately have dist: "distinct (map (\<lambda>i. item ?d i 0) [0..<days_in_month y m])"
    by (simp only: eq)
  have rc: "row_count ?d = days_in_month y m" using dd ml by (simp add: dated_table_def)
  show ?thesis
    using r dw dd items dist rc by (simp add: ledger_ok_def)
qed

text \<open>The invariant established by \<open>setupTableRows\<close>, and the start-up window of
  15 April 2024 used by the examples below.\<close>

lemma setupTableRows_ledger:
  assumes v: "valid_date today"
    and w: "wf_table (work_table s)" "col_count (work_table s) = work_col_count"
    and dl: "wf_table (delivery_table s)" "col_count (delivery_table s) = delivery_col_count"
  shows "snd (setupTableRows today s) = None \<and> ledger_ok today (fst (setupTableRows today s))"
proof -
  have "dated_table work_col_count today (fst (setup_table True today (work_table s)))"
    using setup_table_dated [of "work_table s"] w by (simp add: work_col_count_def)
  moreover have "dated_table delivery_col_count today (fst (setup_table False today (delivery_table s)))"
    using setup_table_dated [of "delivery_table s"] dl by (simp add: delivery_col_count_def)
  ultimately show ?thesis
    by (simp add: setupTableRows_def setup_table_fold ledger_ok_def)
qed

lemma app_init_ok:
  "valid_date today \<Longrightarrow> snd (app_init today fs) = None \<and> ledger_ok today (fst (app_init today fs))"
  unfolding app_init_def
  by (rule setupTableRows_ledger) (simp_all add: fresh_window_def work_col_count_def delivery_col_count_def)

lemma ledger_ok_fields [simp]:
  "ledger_ok today (s\<lparr>date_edit := d\<rparr>) = ledger_ok today s"
  "ledger_ok today (s\<lparr>km_combo := k\<rparr>) = ledger_ok today s"
  "ledger_ok today (s\<lparr>m3_input := i\<rparr>) = ledger_ok today s"
  "ledger_ok today (s\<lparr>m3_values := vs\<rparr>) = ledger_ok today s"
  "ledger_ok today (s\<lparr>start_time := t\<rparr>) = ledger_ok today s"
  "ledger_ok today (s\<lparr>end_time := t\<rparr>) = ledger_ok today s"
  by (simp_all add: ledger_ok_def)

lemma dated_table_eqI:
  "dated_table n today t1 \<Longrightarrow> dated_table n today t2 \<Longrightarrow> (\<And>r c. item t1 r c = item t2 r c) \<Longrightarrow> t1 = t2"
  by (rule qtable_eqI) (simp_all add: dated_table_def)

lemma april_valid: "valid_date (2024, 4, 15)"
  by (simp add: valid_date_def days_in_month_def)

lemma april_ok: "ledger_ok (2024, 4, 15) (fst (app_init (2024, 4, 15) fs))"
  using app_init_ok [OF april_valid] by blast

lemma april_len: "month_length (2024, 4, 15) = 30"
  by (simp add: month_length_def days_in_month_def)

theorem setupTableRows_month_witness:
  "snd (app_init (2024, 4, 15) []) = None \<and>
   row_count (delivery_table (april_window)) = 30 \<and>
   item (work_table (april_window)) 29 0 = Some ''2024-04-30''"
proof -
  have ds: "date_string (2024, 4, 30) = ''2024-04-30''" by code_simp
  have "days_in_month 2024 4 = 30" by (simp add: days_in_month_def)
  then show ?thesis
    using setupTableRows_month [of 2024 4 15 "fresh_window (2024, 4, 15) []"] ds april_valid
    by (simp add: app_init_def fresh_window_def work_col_count_def delivery_col_count_def)
qed


section \<open>Rows by date\<close>

lemma month_dates:
  "valid_date today \<Longrightarrow> i < month_length today \<Longrightarrow>
   add_days (first_of_month today) i = (fst today, fst (snd today), Suc i)"
  by (cases today) (auto simp: first_of_month_days)

lemma month_dates_distinct:
  "valid_date today \<Longrightarrow> i < month_length today \<Longrightarrow> j < month_length today \<Longrightarrow> i \<noteq> j \<Longrightarrow>
   date_string (add_days (first_of_month today) i) \<noteq> date_string (add_days (first_of_month today) j)"
  by (auto simp: month_dates dest: date_string_inj)

lemma for_rows_no_match:
  assumes "dated_table n today t"
    and "\<forall>i < month_length today. date_string (add_days (first_of_month today) i) \<noteq> dt"
  shows "for_rows t (row_if_date dt body) = (t, None)"
  unfolding for_rows_def
  by (rule py_for_skip [where P = "\<lambda>t'. t' = t"])
     (use assms in \<open>auto simp: row_if_date_def item_text_def dated_table_def\<close>)

lemma for_rows_no_row:
  assumes "\<forall>i < row_count t. \<exists>w. item t i 0 = Some w \<and> w \<noteq> dt"
  shows "for_rows t (row_if_date dt body) = (t, None)"
  unfolding for_rows_def
  by (rule py_for_skip [where P = "\<lambda>t'. t' = t"])
     (use assms in \<open>auto simp: row_if_date_def item_text_def\<close>)

lemma for_rows_match:
  assumes v: "valid_date today" and dt: "dated_table n today t"
    and r: "r < row_count t" "dt = date_string (add_days (first_of_month today) r)"
    and b: "snd (body t r) = None \<Longrightarrow> dated_table n today (fst (body t r))"
  shows "for_rows t (row_if_date dt body) = body t r"
proof -
  have here: "row_if_date dt body t r = body t r"
    using dt r by (simp add: row_if_date_def dated_item_text)
  have "py_for (row_if_date dt body) [0..<row_count t] t = row_if_date dt body t r"
  proof (rule py_for_only [where P = "dated_table n today"])
    show "r \<in> set [0..<row_count t]" using r by simp
    show "distinct [0..<row_count t]" by simp
    show "dated_table n today t" by (rule dt)
    show "snd (row_if_date dt body t r) = None \<Longrightarrow> dated_table n today (fst (row_if_date dt body t r))"
      using b here by simp
  next
    fix s x
    assume x: "x \<in> set [0..<row_count t]" "x \<noteq> r" and ds: "dated_table n today s"
    have rc: "row_count s = row_count t" "row_count t = month_length today"
      using ds dt by (simp_all add: dated_table_def)
    with x r v have "date_string (add_days (first_of_month today) x) \<noteq> dt"
      using month_dates_distinct by auto
    with x ds rc show "row_if_date dt body s x = (s, None)"
      by (simp add: row_if_date_def dated_item_text)
  qed
  with here show ?thesis by (simp add: for_rows_def)
qed

section \<open>Handlers on a date and zone\<close>

text \<open>C7. A volume entry that parses as a float is appended to the session, and the label shows every value of the session to one decimal and their sum, in the format \<open>"(6.0 + 3.5) (9.5)"\<close>.\<close>

lemma handleM3Input_session:
  assumes "m3_text s \<noteq> []" "py_float (m3_text s) = Some x"
  shows "m3_values (handleM3Input s) = Some (session s @ [x]) \<and>
         m3_sum (handleM3Input s) = m3_display (session s @ [x])"
  using assms updateDeliveryTable_other
  by (auto simp: handleM3Input_def Let_def show_notice_def case_prod_beta split: option.split py_exc.split)

text \<open>C28. A non-empty volume entry that \<open>float()\<close> rejects changes nothing but showing the number prompt: the session, label, ledger and input are kept.\<close>

lemma handleM3Input_invalid:
  "m3_text s \<noteq> [] \<Longrightarrow> py_float (m3_text s) = None \<Longrightarrow> handleM3Input s = show_notice NumberPrompt s"
  by (simp add: handleM3Input_def Let_def)


lemma april_3: "add_days (first_of_month (2024, 4, 15)) 2 = (2024, 4, 3)"
  by (simp add: month_dates april_valid month_length_def days_in_month_def)

lemma band_10: "getZoneColumn (band_label 10) = int 3"
  by (simp add: getZoneColumn_band_label)

theorem handleM3Input_invalid_witness:
  "handleM3Input (april_window\<lparr>m3_input := ''abc''\<rparr>) =
   show_notice NumberPrompt (april_window\<lparr>m3_input := ''abc''\<rparr>)"
proof -
  have "m3_text (april_window\<lparr>m3_input := ''abc''\<rparr>) = ''abc''"
    by (simp add: m3_text_def) code_simp
  moreover have "py_float ''abc'' = None" by code_simp
  ultimately show ?thesis using handleM3Input_invalid by simp
qed

theorem handleM3Input_display_witness:
  "m3_sum (handleM3Input ((handleM3Input (april_window\<lparr>m3_input := ''6,0'', m3_values := None\<rparr>))
      \<lparr>m3_input := '' 3.5''\<rparr>)) = ''(6.0 + 3.5) (9.5)''"
proof -
  define s0 where "s0 = april_window\<lparr>m3_input := ''6,0'', m3_values := None\<rparr>"
  have t0: "m3_text s0 = ''6.0''" by (simp add: s0_def m3_text_def) code_simp
  have f0: "py_float ''6.0'' = Some (Fin 6)" by code_simp
  have "m3_values (handleM3Input s0) = Some [Fin 6]"
    using handleM3Input_session [of s0 "Fin 6"] t0 f0 by (simp add: s0_def session_def)
  define s1 where "s1 = (handleM3Input s0)\<lparr>m3_input := '' 3.5''\<rparr>"
  have ss: "session s1 = [Fin 6]" by (simp add: s1_def session_def \<open>m3_values (handleM3Input s0) = _\<close>)
  have t1: "m3_text s1 = ''3.5''" by (simp add: s1_def m3_text_def) code_simp
  have f1: "py_float ''3.5'' = Some (Fin (7/2))" by code_simp
  have d: "m3_display [Fin 6, Fin (7/2)] = ''(6.0 + 3.5) (9.5)''" by code_simp
  show ?thesis
    using handleM3Input_session [of s1 "Fin (7/2)"] t1 f1 ss d by (simp add: s0_def s1_def)
qed

lemma not_in_month:
  assumes "valid_date today" "(fst d, fst (snd d)) \<noteq> (fst today, fst (snd today))"
  shows "\<forall>i < month_length today. date_string (add_days (first_of_month today) i) \<noteq> date_string d"
  using assms by (auto simp: month_dates dest!: date_string_inj)

lemma updateDeliveryTable_no_match:
  assumes "ledger_ok today s"
    and "\<forall>i < month_length today. date_string (add_days (first_of_month today) i) \<noteq> date_string (date_edit s)"
  shows "fst (updateDeliveryTable txt s) = s"
  using assms for_rows_no_match [of delivery_col_count today "delivery_table s" "date_string (date_edit s)"]
  by (simp add: updateDeliveryTable_def ledger_ok_def Let_def)

lemma handleM3Input_no_match_table:
  assumes "ledger_ok today s"
    and "\<forall>i < month_length today. date_string (add_days (first_of_month today) i) \<noteq> date_string (date_edit s)"
  shows "delivery_table (handleM3Input s) = delivery_table s"
proof -
  have "\<And>txt v l. fst (updateDeliveryTable txt (s\<lparr>m3_values := v, m3_sum := l\<rparr>)) = s\<lparr>m3_values := v, m3_sum := l\<rparr>"
    using assms by (intro updateDeliveryTable_no_match) (simp_all add: ledger_ok_def)
  then show ?thesis
    by (auto simp: handleM3Input_def Let_def show_notice_def case_prod_beta split: option.split py_exc.split)
qed

lemma saveWorkHours_no_match:
  assumes "ledger_ok today s"
    and "\<forall>i < month_length today. date_string (add_days (first_of_month today) i) \<noteq> date_string (date_edit s)"
  shows "work_table (saveWorkHours io s) = work_table s \<and>
         notices (saveWorkHours IoOk s) = notices s @ [WorkSaved]"
  using assms for_rows_no_match [of work_col_count today "work_table s" "date_string (date_edit s)"]
  by (simp add: saveWorkHours_def ledger_ok_def Let_def show_notice_def split: io_result.split)

lemma saveDeliveryData_no_match:
  assumes "ledger_ok today s"
    and "\<forall>i < month_length today. date_string (add_days (first_of_month today) i) \<noteq> date_string (date_edit s)"
  shows "delivery_table (saveDeliveryData io s) = delivery_table s \<and>
         notices (saveDeliveryData IoOk s) = notices s @ [DeliverySaved]"
  using assms for_rows_no_match [of delivery_col_count today "delivery_table s" "date_string (date_edit s)"]
  by (simp add: saveDeliveryData_def ledger_ok_def Let_def show_notice_def split: io_result.split)

lemma saveDeliveryData_no_row:
  assumes "\<forall>i < row_count (delivery_table s). \<exists>w. item (delivery_table s) i 0 = Some w \<and> w \<noteq> date_string (date_edit s)"
  shows "delivery_table (saveDeliveryData io s) = delivery_table s \<and>
         notices (saveDeliveryData IoOk s) = notices s @ [DeliverySaved] \<and>
         m3_values (saveDeliveryData IoOk s) = Some []"
  using for_rows_no_row [OF assms]
  by (simp add: saveDeliveryData_def Let_def show_notice_def split: io_result.split)

lemma ledger_row:
  assumes "ledger_ok today s" "r < month_length today"
  shows "r < row_count (work_table s)" "r < row_count (delivery_table s)"
  using assms by (simp_all add: ledger_ok_def dated_table_def)

lemma delivery_row_value:
  assumes "dated_table n today t" "0 < c" "c < n" "r < row_count t" "cell_value (item t r c) = Some v"
  shows "delivery_row c m3 t r = (set_item r c (format_fixed 1 (py_add v (session_total m3))) t, None)"
  using assms by (simp add: delivery_row_def)

lemma saveDeliveryData_commit:
  assumes ok: "ledger_ok today s" and v: "valid_date today"
    and r: "r < month_length today" "date_edit s = add_days (first_of_month today) r"
    and z: "getZoneColumn (km_combo s) = int c" "0 < c" "c < delivery_col_count"
    and cell: "cell_value (item (delivery_table s) r c) = Some x"
  shows "delivery_table (saveDeliveryData io s) =
           set_item r c (format_fixed 1 (py_add x (session_total (session s)))) (delivery_table s) \<and>
         (io = IoOk \<longrightarrow> notices (saveDeliveryData io s) = notices s @ [DeliverySaved] \<and>
                       m3_values (saveDeliveryData io s) = Some [] \<and>
                       length (delivery_journal (saveDeliveryData io s)) = Suc (length (delivery_journal s)))"
proof -
  have dt: "dated_table delivery_col_count today (delivery_table s)" using ok by (simp add: ledger_ok_def)
  have rr: "r < row_count (delivery_table s)" using ledger_row [OF ok r(1)] by simp
  let ?t' = "set_item r c (format_fixed 1 (py_add x (session_total (session s)))) (delivery_table s)"
  have body: "delivery_row c (session s) (delivery_table s) r = (?t', None)"
    using dt z rr cell by (intro delivery_row_value) simp_all
  have "for_rows (delivery_table s) (row_if_date (date_string (date_edit s)) (delivery_row c (session s))) = (?t', None)"
    using v dt rr r(2) body dated_set_item [OF dt z(2)] by (subst for_rows_match [where r = r]) simp_all
  with z show ?thesis
    by (simp add: saveDeliveryData_def Let_def show_notice_def split: io_result.split)
qed

lemma py_strip_Cons_nonspace:
  assumes "\<not> is_py_space c"
  shows "\<exists>r'. py_strip (c # r) = c # r'"
proof (cases "\<forall>x \<in> set r. is_py_space x")
  case True
  with assms have "py_strip (c # r) = [c]" by (simp add: py_strip_def dropWhile_append)
  then show ?thesis by blast
next
  case False
  with assms have "py_strip (c # r) = c # rev (dropWhile is_py_space (rev r))"
    by (simp add: py_strip_def dropWhile_append)
  then show ?thesis by blast
qed

lemma paren_not_digit [simp]: "\<not> is_digit CHR ''(''"
  by (simp add: is_digit_def)

lemma digitpart_paren [simp]: "\<not> digitpart (CHR ''('' # r)"
  by (simp add: is_digit_def)

lemma parse_number_paren: "parse_number (CHR ''('' # r) = None"
  by (simp add: parse_number_def Let_def split: list.split)

lemma parse_floatnumber_paren: "parse_floatnumber (CHR ''('' # r) = None"
  by (simp add: parse_floatnumber_def Let_def parse_number_paren split: list.split option.split)

lemma py_float_paren: "py_float (CHR ''('' # r) = None"
proof -
  obtain r' where st: "py_strip (CHR ''('' # r) = CHR ''('' # r'"
    using py_strip_Cons_nonspace [of "CHR ''(''" r] by (auto simp: is_py_space_def)
  have "split_sign (CHR ''('' # r') = (1, CHR ''('' # r')" by (simp add: split_sign_def)
  moreover have "lower_char CHR ''('' = CHR ''(''" by (simp add: lower_char_def)
  ultimately show ?thesis
    using st by (simp add: py_float_def parse_floatnumber_paren)
qed

lemma m3_display_paren: "\<exists>r. m3_display vs = CHR ''('' # r"
  by (simp add: m3_display_def)

lemma updateDeliveryTable_match:
  assumes ok: "ledger_ok today s" and v: "valid_date today"
    and r: "r < month_length today" "date_edit s = add_days (first_of_month today) r"
    and z: "getZoneColumn (km_combo s) = int c" "0 < c"
  shows "updateDeliveryTable txt s = (s\<lparr>delivery_table := set_item r c txt (delivery_table s)\<rparr>, None)"
proof -
  have dt: "dated_table delivery_col_count today (delivery_table s)" using ok by (simp add: ledger_ok_def)
  have rr: "r < row_count (delivery_table s)" using ledger_row [OF ok r(1)] by simp
  have "for_rows (delivery_table s) (row_if_date (date_string (date_edit s)) (\<lambda>t row. (set_item row c txt t, None)))
        = (set_item r c txt (delivery_table s), None)"
    using v dt rr r(2) dated_set_item [OF dt z(2)] by (subst for_rows_match [where r = r]) simp_all
  with z show ?thesis by (simp add: updateDeliveryTable_def)
qed

lemma handleM3Input_match:
  assumes ok: "ledger_ok today s" and v: "valid_date today"
    and r: "r < month_length today" "date_edit s = add_days (first_of_month today) r"
    and z: "getZoneColumn (km_combo s) = int c" "0 < c"
    and x: "m3_text s \<noteq> []" "py_float (m3_text s) = Some x"
  shows "handleM3Input s =
           s\<lparr>m3_values := Some (session s @ [x]), m3_sum := m3_display (session s @ [x]),
             delivery_table := set_item r c (m3_display (session s @ [x])) (delivery_table s),
             m3_input := []\<rparr>"
proof -
  let ?s1 = "s\<lparr>m3_values := Some (session s @ [x]), m3_sum := m3_display (session s @ [x])\<rparr>"
  have "updateDeliveryTable (m3_display (session s @ [x])) ?s1 =
          (?s1\<lparr>delivery_table := set_item r c (m3_display (session s @ [x])) (delivery_table s)\<rparr>, None)"
    using ok v r z by (subst updateDeliveryTable_match [where today = today and r = r and c = c])
                      (simp_all add: ledger_ok_def)
  with x show ?thesis by (simp add: handleM3Input_def Let_def)
qed

lemma cell_value_display: "cell_value (Some (m3_display vs)) = None"
proof -
  obtain r where "m3_display vs = CHR ''('' # r" using m3_display_paren by blast
  then show ?thesis by (simp add: cell_value_def py_float_paren)
qed

text \<open>C6. After a volume has been entered for a date of the month and a band with a ledger column, saving the delivery always fails: \<open>handleM3Input\<close> has written the running display \<open>"(...) (...)"\<close> into the ledger cell, \<open>saveDeliveryData\<close> cannot parse it as a float, so it shows the error box with \<open>ValueError\<close>, appends no journal record and keeps the session.\<close>

theorem m3_entry_then_save_fails:
  assumes ok: "ledger_ok today s" and v: "valid_date today"
    and r: "r < month_length today" "date_edit s = add_days (first_of_month today) r"
    and z: "getZoneColumn (km_combo s) = int c" "0 < c" "c < delivery_col_count"
    and x: "m3_text s \<noteq> []" "py_float (m3_text s) = Some x"
  shows "saveDeliveryData io (handleM3Input s) = show_notice (SaveFailed ValueError) (handleM3Input s)"
proof -
  let ?s' = "handleM3Input s"
  let ?vals = "session s @ [x]"
  have s': "?s' = s\<lparr>m3_values := Some ?vals, m3_sum := m3_display ?vals,
                     delivery_table := set_item r c (m3_display ?vals) (delivery_table s), m3_input := []\<rparr>"
    using handleM3Input_match [OF ok v r z(1,2) x] .
  have ok': "ledger_ok today ?s'" using handleM3Input_ok [OF ok] .
  have dt: "dated_table delivery_col_count today (delivery_table ?s')" using ok' by (simp add: ledger_ok_def)
  have rr: "r < row_count (delivery_table ?s')" using ledger_row [OF ok' r(1)] by simp
  have "in_grid (delivery_table s) r c"
    using ledger_row [OF ok r(1)] z(3) ok by (simp add: in_grid_def ledger_ok_def dated_table_def)
  then have cell: "item (delivery_table ?s') r c = Some (m3_display ?vals)"
    using ok s' by (simp add: qtable_simps ledger_ok_def dated_table_def)
  have body: "delivery_row c (session ?s') (delivery_table ?s') r = (delivery_table ?s', Some ValueError)"
    using cell by (simp add: delivery_row_def cell_value_display)
  have "for_rows (delivery_table ?s') (row_if_date (date_string (date_edit ?s')) (delivery_row c (session ?s')))
        = (delivery_table ?s', Some ValueError)"
    using v dt rr r(2) body s' by (subst for_rows_match [where r = r]) simp_all
  moreover have "km_combo ?s' = km_combo s" using s' by simp
  ultimately show ?thesis using z by (simp add: saveDeliveryData_def Let_def)
qed

theorem m3_entry_then_save_fails_witness:
  "saveDeliveryData IoOk (handleM3Input (april_window\<lparr>date_edit := (2024, 4, 3),
      km_combo := band_label 10, m3_input := ''6,0''\<rparr>)) =
   show_notice (SaveFailed ValueError) (handleM3Input (april_window\<lparr>date_edit := (2024, 4, 3),
      km_combo := band_label 10, m3_input := ''6,0''\<rparr>))"
proof -
  have t: "m3_text (april_window\<lparr>date_edit := (2024, 4, 3),
      km_combo := band_label 10, m3_input := ''6,0''\<rparr>) = ''6.0''" by (simp add: m3_text_def) code_simp
  have f: "py_float ''6.0'' = Some (Fin 6)" by code_simp
  show ?thesis
    using m3_entry_then_save_fails [of "(2024, 4, 15)" "april_window\<lparr>date_edit := (2024, 4, 3),
      km_combo := band_label 10, m3_input := ''6,0''\<rparr>" 2 3 "Fin 6" IoOk]
      april_ok april_valid april_len april_3 band_10 t f by (simp add: delivery_col_count_def)
qed


lemma time_seconds_bound: "valid_time t \<Longrightarrow> 0 \<le> time_seconds t \<and> time_seconds t < 86400"
  by (auto simp: valid_time_def time_seconds_def)

lemma timedelta_seconds_overnight:
  assumes "valid_time st" "valid_time en" "time_seconds en < time_seconds st"
  shows "timedelta_seconds st en = 86400 - (time_seconds st - time_seconds en)"
proof -
  have "0 \<le> time_seconds en - time_seconds st + 86400" "time_seconds en - time_seconds st + 86400 < 86400"
    using time_seconds_bound [OF assms(1)] time_seconds_bound [OF assms(2)] assms(3) by linarith+
  then have "(time_seconds en - time_seconds st) mod 86400 = time_seconds en - time_seconds st + 86400"
    by (metis mod_add_self2 mod_pos_pos_trivial)
  then show ?thesis by (simp add: timedelta_seconds_def)
qed

lemma timedelta_seconds_same_day:
  assumes "valid_time st" "valid_time en" "time_seconds st \<le> time_seconds en"
  shows "timedelta_seconds st en = time_seconds en - time_seconds st"
  using time_seconds_bound [OF assms(1)] time_seconds_bound [OF assms(2)] assms(3)
  by (simp add: timedelta_seconds_def)

lemma hours_text_valid:
  "valid_time st \<Longrightarrow> valid_time en \<Longrightarrow>
   hours_text (time_string st) (time_string en) = Some (format_fixed 2 (Fin (of_int (timedelta_seconds st en) / 3600)))"
  by (simp add: hours_text_def strptime_time_string)

lemma saveWorkHours_match:
  assumes ok: "ledger_ok today s" and v: "valid_date today"
    and r: "r < month_length today" "date_edit s = add_days (first_of_month today) r"
    and t: "valid_time (start_time s)" "valid_time (end_time s)"
  shows "item (work_table (saveWorkHours io s)) r 2 = Some (time_string (start_time s)) \<and>
         item (work_table (saveWorkHours io s)) r 3 = Some (time_string (end_time s)) \<and>
         item (work_table (saveWorkHours io s)) r 4 =
           Some (format_fixed 2 (Fin (of_int (timedelta_seconds (start_time s) (end_time s)) / 3600))) \<and>
         notices (saveWorkHours IoOk s) = notices s @ [WorkSaved]"
proof -
  let ?w = "work_table s"
  let ?h = "format_fixed 2 (Fin (of_int (timedelta_seconds (start_time s) (end_time s)) / 3600))"
  let ?t' = "set_item r 4 ?h (set_item r 3 (time_string (end_time s)) (set_item r 2 (time_string (start_time s)) ?w))"
  have dt: "dated_table work_col_count today ?w" using ok by (simp add: ledger_ok_def)
  have rr: "r < row_count ?w" using ledger_row [OF ok r(1)] by simp
  have dt': "dated_table work_col_count today ?t'" by (intro dated_set_item dt) simp_all
  have body: "work_row (time_string (start_time s)) (time_string (end_time s)) ?w r = (?t', None)"
    using t by (simp add: work_row_def hours_text_valid)
  have "for_rows ?w (row_if_date (date_string (date_edit s)) (work_row (time_string (start_time s)) (time_string (end_time s))))
        = (?t', None)"
    using v dt rr r(2) body dt' by (subst for_rows_match [where r = r]) simp_all
  moreover have "item ?t' r 2 = Some (time_string (start_time s)) \<and> item ?t' r 3 = Some (time_string (end_time s))
                 \<and> item ?t' r 4 = Some ?h"
    using dt rr by (simp add: qtable_simps dated_table_def in_grid_def work_col_count_def)
  ultimately show ?thesis
    by (simp add: saveWorkHours_def Let_def show_notice_def split: io_result.split)
qed

lemma last_band_column: "getZoneColumn (last km_bands) = int delivery_col_count"
  by (simp add: km_bands_def getZoneColumn_band_label delivery_col_count_def upt_conv_Cons)

lemma delivery_row_outside:
  "col_count t = delivery_col_count \<Longrightarrow> delivery_row delivery_col_count m3 t row = (t, None)"
  by (simp add: delivery_row_def item_def in_grid_def cell_value_def set_item_def)

lemma last_band_no_write:
  assumes ok: "ledger_ok today s" and b: "km_combo s = last km_bands"
  shows "delivery_table (saveDeliveryData io s) = delivery_table s \<and>
         notices (saveDeliveryData IoOk s) = notices s @ [DeliverySaved] \<and>
         delivery_journal (saveDeliveryData IoOk s) \<noteq> delivery_journal s"
proof -
  have dt: "dated_table delivery_col_count today (delivery_table s)" using ok by (simp add: ledger_ok_def)
  have cc: "col_count (delivery_table s) = delivery_col_count" using dt by (simp add: dated_table_def)
  have z: "getZoneColumn (km_combo s) = int delivery_col_count" using b last_band_column by simp
  have "for_rows (delivery_table s) (row_if_date d (delivery_row delivery_col_count m3)) = (delivery_table s, None)"
    for d m3
    unfolding for_rows_def
    by (rule py_for_skip [where P = "\<lambda>t. t = delivery_table s"])
       (auto simp: row_if_date_def delivery_row_outside cc dated_item_text [OF dt])
  with z show ?thesis
    by (simp add: saveDeliveryData_def Let_def show_notice_def delivery_col_count_def split: io_result.split)
qed

text \<open>C8. When the selected date lies outside the month the ledgers show, entering a volume and saving work hours or a delivery leave the ledgers unchanged: no row carries that date.\<close>

theorem write_outside_month_noop:
  assumes ok: "ledger_ok today s" and v: "valid_date today"
    and m: "(fst (date_edit s), fst (snd (date_edit s))) \<noteq> (fst today, fst (snd today))"
  shows "delivery_table (handleM3Input s) = delivery_table s \<and>
         work_table (saveWorkHours io s) = work_table s \<and>
         delivery_table (saveDeliveryData io s) = delivery_table s"
  using not_in_month [OF v m] handleM3Input_no_match_table [OF ok] saveWorkHours_no_match [OF ok]
        saveDeliveryData_no_match [OF ok] by blast

theorem write_outside_month_noop_witness:
  "delivery_table (handleM3Input (april_window\<lparr>date_edit := (2024, 5, 3)\<rparr>)) =
     delivery_table (april_window)"
  using write_outside_month_noop [of "(2024, 4, 15)" "april_window\<lparr>date_edit := (2024, 5, 3)\<rparr>" IoOk]
    april_ok april_valid by simp

lemma date_row_month:
  assumes "valid_date today" "valid_date d" "date_row today d = Some r"
  shows "r < month_length today \<and> d = add_days (first_of_month today) r"
proof -
  obtain y m dd y' m' dd' where t: "today = (y, m, dd)" and d: "d = (y', m', dd')" by (cases today, cases d) auto
  then have "y' = y" "m' = m" "r = dd' - 1" using assms(3) by (auto simp: date_row_def split: if_splits)
  moreover have "1 \<le> dd'" "dd' \<le> days_in_month y' m'" using assms(2) d by (simp_all add: valid_date_def)
  ultimately have "r < month_length today" "d = (fst today, fst (snd today), Suc r)"
    using t d by (simp_all add: month_length_def)
  then show ?thesis using month_dates [OF assms(1)] by simp
qed

lemma date_row_None:
  "date_row today d = None \<Longrightarrow> (fst d, fst (snd d)) \<noteq> (fst today, fst (snd today))"
  by (cases today, cases d) (simp add: date_row_def split: if_splits)

text \<open>C22. The handlers' scan (\<open>for row in range(rowCount()): if item(row, 0).text()
  == date_text\<close>) is equivalent to direct indexing: on a ledger of the month, for any
  valid selected date and any row body that keeps the ledger's dates, the scan runs
  the body exactly on the row \<open>day - 1\<close> when the date is in the month, and does
  nothing otherwise.\<close>

theorem scan_equals_direct:
  assumes v: "valid_date today" "valid_date d" and dt: "dated_table n today t"
    and b: "\<And>t r. dated_table n today t \<Longrightarrow> snd (body t r) = None \<Longrightarrow> dated_table n today (fst (body t r))"
  shows "for_rows t (row_if_date (date_string d) body) = write_by_date today d body t"
proof (cases "date_row today d")
  case None
  then show ?thesis
    using for_rows_no_match [OF dt not_in_month [OF v(1) date_row_None [OF None]]]
    by (simp add: write_by_date_def)
next
  case (Some r)
  note rd = date_row_month [OF v Some]
  have "r < row_count t" using rd dt by (simp add: dated_table_def)
  then have "for_rows t (row_if_date (date_string d) body) = body t r"
    by (rule for_rows_match [OF v(1) dt]) (use rd b dt in auto)
  then show ?thesis using Some by (simp add: write_by_date_def)
qed

theorem scan_equals_direct_witness:
  "for_rows (work_table april_window) (row_if_date (date_string (2024, 4, 3)) (work_row ''08:00'' ''16:30'')) =
     work_row ''08:00'' ''16:30'' (work_table april_window) 2"
proof -
  have dt: "dated_table work_col_count (2024, 4, 15) (work_table april_window)"
    using april_ok [of "[]"] by (simp add: ledger_ok_def)
  have v: "valid_date (2024, 4, 3)" by (simp add: valid_date_def days_in_month_def)
  show ?thesis
    using scan_equals_direct [OF april_valid v dt, of "work_row ''08:00'' ''16:30''"] work_row_dated
    by (simp add: write_by_date_def date_row_def)
qed

text \<open>C5. Saving a delivery for a date of the month and a band with a ledger column adds the session total to the number in that cell, written to one decimal, leaves every other cell unchanged, confirms, and clears the session.\<close>

theorem saveDeliveryData_accumulates:
  assumes ok: "ledger_ok today s" and v: "valid_date today"
    and r: "r < month_length today" "date_edit s = add_days (first_of_month today) r"
    and z: "getZoneColumn (km_combo s) = int c" "0 < c" "c < delivery_col_count"
    and cell: "cell_value (item (delivery_table s) r c) = Some x"
  shows "item (delivery_table (saveDeliveryData io s)) r c =
           Some (format_fixed 1 (py_add x (session_total (session s)))) \<and>
         (\<forall>i j. (i, j) \<noteq> (r, c) \<longrightarrow> item (delivery_table (saveDeliveryData io s)) i j = item (delivery_table s) i j) \<and>
         notices (saveDeliveryData IoOk s) = notices s @ [DeliverySaved] \<and>
         m3_values (saveDeliveryData IoOk s) = Some []"
proof -
  have dt: "dated_table delivery_col_count today (delivery_table s)" using ok by (simp add: ledger_ok_def)
  then have "wf_table (delivery_table s)" "in_grid (delivery_table s) r c"
    using ledger_row [OF ok r(1)] z(3) by (simp_all add: dated_table_def in_grid_def)
  then show ?thesis
    using saveDeliveryData_commit [OF ok v r z cell, of io] saveDeliveryData_commit [OF ok v r z cell, of IoOk]
    by (auto simp: item_set_item)
qed

lemma april_delivery_ok: "ledger_ok (2024, 4, 15) april_delivery"
  using april_ok [of "[]"] by (simp add: ledger_ok_def dated_set_item)

theorem saveDeliveryData_accumulates_witness:
  "item (delivery_table (saveDeliveryData IoOk april_delivery)) 2 3 = Some ''8.0''"
proof -
  have dt: "dated_table delivery_col_count (2024, 4, 15) (delivery_table (april_window))"
    using april_ok [of "[]"] by (simp add: ledger_ok_def)
  then have "item (delivery_table april_delivery) 2 3 = Some ''5.0''"
    by (simp add: item_set_item dated_table_def in_grid_def april_len delivery_col_count_def)
  moreover have "py_float ''5.0'' = Some (Fin 5)" by code_simp
  ultimately have c: "cell_value (item (delivery_table april_delivery) 2 3) = Some (Fin 5)"
    by (simp add: cell_value_def)
  have f: "format_fixed 1 (py_add (Fin 5) (session_total [Fin 3])) = ''8.0''" by code_simp
  show ?thesis
    using saveDeliveryData_accumulates [of "(2024, 4, 15)" april_delivery 2 3 "Fin 5" IoOk]
      april_delivery_ok april_valid band_10 c april_len april_3 f
    by (simp add: session_def delivery_col_count_def)
qed

text \<open>C29. Saving work hours with the end not before the start writes start, end and the hours worked (\<open>(end - start) / 3600\<close>, two decimals) into the row of the selected date.\<close>

theorem saveWorkHours_same_day:
  assumes ok: "ledger_ok today s" and v: "valid_date today"
    and r: "r < month_length today" "date_edit s = add_days (first_of_month today) r"
    and t: "valid_time (start_time s)" "valid_time (end_time s)"
    and le: "time_seconds (start_time s) \<le> time_seconds (end_time s)"
  shows "item (work_table (saveWorkHours io s)) r 4 =
           Some (format_fixed 2 (Fin (of_int (time_seconds (end_time s) - time_seconds (start_time s)) / 3600))) \<and>
         item (work_table (saveWorkHours io s)) r 2 = Some (time_string (start_time s)) \<and>
         item (work_table (saveWorkHours io s)) r 3 = Some (time_string (end_time s))"
  using saveWorkHours_match [OF ok v r t, of io] timedelta_seconds_same_day [OF t le] by simp

text \<open>C30. With the end before the start, the hours written are \<open>24 - (start - end) / 3600\<close>, which is positive: \<open>timedelta.seconds\<close> wraps the negative difference into the previous day.\<close>

theorem saveWorkHours_overnight:
  assumes ok: "ledger_ok today s" and v: "valid_date today"
    and r: "r < month_length today" "date_edit s = add_days (first_of_month today) r"
    and t: "valid_time (start_time s)" "valid_time (end_time s)"
    and lt: "time_seconds (end_time s) < time_seconds (start_time s)"
  shows "item (work_table (saveWorkHours io s)) r 4 =
           Some (format_fixed 2 (Fin (24 - of_int (time_seconds (start_time s) - time_seconds (end_time s)) / 3600))) \<and>
         0 < 24 - (of_int (time_seconds (start_time s) - time_seconds (end_time s)) / 3600 :: rat)"
proof -
  have e: "of_int (timedelta_seconds (start_time s) (end_time s)) / 3600 =
        (24 - of_int (time_seconds (start_time s) - time_seconds (end_time s)) / 3600 :: rat)"
    by (simp add: timedelta_seconds_overnight [OF t lt] field_simps)
  have "item (work_table (saveWorkHours io s)) r 4 =
          Some (format_fixed 2 (Fin (of_int (timedelta_seconds (start_time s) (end_time s)) / 3600)))"
    using saveWorkHours_match [OF ok v r t, of io] by blast
  then have "item (work_table (saveWorkHours io s)) r 4 =
           Some (format_fixed 2 (Fin (24 - of_int (time_seconds (start_time s) - time_seconds (end_time s)) / 3600)))"
    by (simp only: e)
  moreover have "time_seconds (start_time s) - time_seconds (end_time s) < 86400"
    using time_seconds_bound [OF t(1)] time_seconds_bound [OF t(2)] by simp
  then have "0 < 24 - (of_int (time_seconds (start_time s) - time_seconds (end_time s)) / 3600 :: rat)"
    by (simp add: field_simps)
  ultimately show ?thesis by blast
qed

lemma april_work_hyps:
  "ledger_ok (2024, 4, 15) (april_work st en)"
  "date_edit (april_work st en) = add_days (first_of_month (2024, 4, 15)) 2"
  "start_time (april_work st en) = st" "end_time (april_work st en) = en"
  using april_ok [of "[]"] by (simp_all add: april_3)

theorem saveWorkHours_same_day_witness:
  "item (work_table (saveWorkHours IoOk (april_work (8, 0) (16, 30)))) 2 4 = Some ''8.50''"
proof -
  have f: "format_fixed 2 (Fin (of_int (time_seconds (16, 30) - time_seconds (8, 0)) / 3600)) = ''8.50''"
  proof -
    have "(of_int (time_seconds (16, 30) - time_seconds (8, 0)) / 3600 :: rat) = 17 / 2"
      by (simp add: time_seconds_def)
    moreover have "format_fixed 2 (Fin (17 / 2)) = ''8.50''" by code_simp
    ultimately show ?thesis by (simp only:)
  qed
  have v: "valid_time (8, 0)" "valid_time (16, 30)" "time_seconds (8, 0) \<le> time_seconds (16, 30)"
    by (simp_all add: valid_time_def time_seconds_def)
  have "2 < month_length (2024, 4, 15)" by (simp add: april_len)
  from saveWorkHours_same_day [of "(2024, 4, 15)" "april_work (8, 0) (16, 30)" 2 IoOk,
      OF april_work_hyps(1) april_valid this april_work_hyps(2)]
  show ?thesis using v f by (simp only: april_work_hyps(3,4) simp_thms)
qed

theorem saveWorkHours_overnight_witness:
  "item (work_table (saveWorkHours IoOk (april_work (22, 0) (6, 0)))) 2 4 = Some ''8.00''"
proof -
  have f: "format_fixed 2 (Fin (24 - of_int (time_seconds (22, 0) - time_seconds (6, 0)) / 3600)) = ''8.00''"
  proof -
    have "(24 - of_int (time_seconds (22, 0) - time_seconds (6, 0)) / 3600 :: rat) = 8"
      by (simp add: time_seconds_def)
    moreover have "format_fixed 2 (Fin 8) = ''8.00''" by code_simp
    ultimately show ?thesis by (simp only:)
  qed
  have v: "valid_time (22, 0)" "valid_time (6, 0)" "time_seconds (6, 0) < time_seconds (22, 0)"
    by (simp_all add: valid_time_def time_seconds_def)
  have "2 < month_length (2024, 4, 15)" by (simp add: april_len)
  from saveWorkHours_overnight [of "(2024, 4, 15)" "april_work (22, 0) (6, 0)" 2 IoOk,
      OF april_work_hyps(1) april_valid this april_work_hyps(2)]
  show ?thesis using v f by (simp only: april_work_hyps(3,4) simp_thms)
qed

text \<open>C9. A delivery in the last band of the selector (45-50 km) is journalled and confirmed, but its volume is written nowhere in the ledger: the band resolves to column 10 and the ledger has columns 0 to 9.\<close>

theorem last_band_not_recorded:
  assumes "ledger_ok today s" "km_combo s = last km_bands"
  shows "delivery_table (saveDeliveryData io s) = delivery_table s \<and>
         notices (saveDeliveryData IoOk s) = notices s @ [DeliverySaved] \<and>
         delivery_journal (saveDeliveryData IoOk s) \<noteq> delivery_journal s"
  using last_band_no_write [OF assms] .

theorem last_band_not_recorded_witness:
  "delivery_table (saveDeliveryData IoOk (april_window\<lparr>km_combo := last km_bands\<rparr>)) =
     delivery_table (april_window)"
proof -
  have "ledger_ok (2024, 4, 15) (april_window\<lparr>km_combo := last km_bands\<rparr>)"
    using april_ok [of "[]"] by simp
  from last_band_not_recorded [OF this] show ?thesis by simp
qed

end
