(* ===== verification/Excel.thy ===== *)
theory Excel
  imports Ledger
begin

text \<open>
  The export/import bridge: \<open>saveToExcel\<close> and \<open>exportToExcel\<close> write the
  ledgers into an openpyxl workbook saved as \<open>munka_nyilvantartas.xlsx\<close>;
  \<open>openExcel\<close> loads a workbook chosen in a file dialog and \<open>loadDataFromExcel\<close>
  copies its cells back into the ledgers by date, through \<open>loadWorkHoursRow\<close> and
  \<open>loadDeliveryRow\<close>.  A worksheet is its cells, addressed by openpyxl's 1-based
  (row, column), each holding a text or nothing, with \<open>max_row\<close>; a workbook is the
  list of its sheets under their titles.  The saved file is the result of a save,
  \<open>None\<close> when \<open>wb.save\<close> fails.
\<close>

section \<open>Workbooks\<close>

record sheet =
  ws_cells :: "nat \<times> nat \<Rightarrow> string option"
  ws_max_row :: nat

type_synonym workbook = "(string \<times> sheet) list"

text \<open>A new worksheet: no cells; openpyxl reports \<open>max_row\<close> 1 for it.\<close>

definition new_sheet :: sheet where
  "new_sheet = \<lparr>ws_cells = (\<lambda>_. None), ws_max_row = 1\<rparr>"

text \<open>\<open>ws.cell(row=r, column=c, value=v)\<close>.\<close>

definition ws_set :: "nat \<Rightarrow> nat \<Rightarrow> string \<Rightarrow> sheet \<Rightarrow> sheet" where
  "ws_set r c v ws = ws\<lparr>ws_cells := (ws_cells ws)((r, c) := Some v), ws_max_row := max (ws_max_row ws) r\<rparr>"

text \<open>\<open>ws.cell(row=r, column=c).value\<close>.\<close>

definition ws_value :: "sheet \<Rightarrow> nat \<Rightarrow> nat \<Rightarrow> string option" where
  "ws_value ws r c = ws_cells ws (r, c)"

text \<open>Python's truth value of a cell value: \<open>None\<close> and the empty text are false.\<close>

definition truthy :: "string option \<Rightarrow> bool" where
  "truthy v = (case v of None \<Rightarrow> False | Some s \<Rightarrow> s \<noteq> [])"

section \<open>saveToExcel and exportToExcel\<close>

definition work_sheet_title :: string where
  "work_sheet_title = ''Munka'' @ [CHR 0xC3, CHR 0xB3] @ ''r'' @ [CHR 0xC3, CHR 0xA1] @ ''k''"

definition delivery_sheet_title :: string where
  "delivery_sheet_title = ''Fuvar adatok''"

definition work_headers :: "string list" where
  "work_headers = [''D'' @ [CHR 0xC3, CHR 0xA1] @ ''tum'', ''Nap'', ''Munka KB'', ''Munka BF'',
                   ''Ledolgozott '' @ [CHR 0xC3, CHR 0xB3] @ ''ra'',
                   ''M'' @ [CHR 0xC5, CHR 0xB1] @ ''hely KB'', ''M'' @ [CHR 0xC5, CHR 0xB1] @ ''hely BF'']"

definition export_headers :: "string list" where
  "export_headers = [''D'' @ [CHR 0xC3, CHR 0xA1] @ ''tum'', ''Nap'', ''Kezd'' @ [CHR 0xC3, CHR 0xA9] @ ''s'',
                     ''V'' @ [CHR 0xC3, CHR 0xA9] @ ''gz'' @ [CHR 0xC3, CHR 0xA9] @ ''s'',
                     ''Munka t'' @ [CHR 0xC3, CHR 0xAD] @ ''pusa'']"

text \<open>\<open>for col, header in enumerate(headers, 1): ws.cell(row=1, column=col).value = header\<close>
  (the font and fill are presentation).\<close>

definition write_headers :: "string list \<Rightarrow> sheet \<Rightarrow> sheet" where
  "write_headers hs ws = foldl (\<lambda>ws (col, h). ws_set 1 col h ws) ws (enumerate 1 hs)"

text \<open>\<open>for row in range(table.rowCount()): for col in range(n): item = table.item(row, col);
  if item: ws.cell(row=row+2, column=col+1, value=item.text())\<close>.\<close>

definition write_cell :: "qtable \<Rightarrow> nat \<Rightarrow> sheet \<Rightarrow> nat \<Rightarrow> sheet" where
  "write_cell t row ws col = (case item t row col of None \<Rightarrow> ws | Some txt \<Rightarrow> ws_set (row + 2) (col + 1) txt ws)"

definition write_rows :: "qtable \<Rightarrow> nat \<Rightarrow> sheet \<Rightarrow> sheet" where
  "write_rows t n ws = foldl (\<lambda>ws row. foldl (write_cell t row) ws [0..<n]) ws [0..<row_count t]"

definition sheet_of :: "string list \<Rightarrow> qtable \<Rightarrow> sheet" where
  "sheet_of hs t = write_rows t (length hs) (write_headers hs new_sheet)"

text \<open>\<open>saveToExcel\<close>: the work ledger under its seven headers in the work-hours sheet,
  the delivery ledger under its eleven headers in \<open>"Fuvar adatok"\<close>; then
  \<open>wb.save\<close>, whose failure is caught and reported.\<close>

definition saveToExcel :: "io_result \<Rightarrow> app \<Rightarrow> app \<times> workbook option" where
  "saveToExcel io s =
     (let wb = [(work_sheet_title, sheet_of work_headers (work_table s)),
                (delivery_sheet_title, sheet_of delivery_headers (delivery_table s))] in
      case io of
        IoOk \<Rightarrow> (show_notice ExcelSaved s, Some wb)
      | IoFail \<Rightarrow> (show_notice (ExportFailed OSError) s, None))"

text \<open>\<open>exportToExcel\<close>: the first five columns of the work ledger under the five
  headers of that function, in one sheet, saved to the same file.\<close>

definition exportToExcel :: "io_result \<Rightarrow> app \<Rightarrow> app \<times> workbook option" where
  "exportToExcel io s =
     (let wb = [(work_sheet_title, sheet_of export_headers (work_table s))] in
      case io of
        IoOk \<Rightarrow> (show_notice ExcelSaved s, Some wb)
      | IoFail \<Rightarrow> (show_notice (ExportFailed OSError) s, None))"

section \<open>Loading a workbook\<close>

text \<open>\<open>if value: setItem(table_row, col, QTableWidgetItem(str(value)))\<close>.\<close>

definition set_if_truthy :: "nat \<Rightarrow> nat \<Rightarrow> string option \<Rightarrow> qtable \<Rightarrow> qtable" where
  "set_if_truthy row col v t = (if truthy v then set_item row col (the v) t else t)"

text \<open>\<open>loadWorkHoursRow\<close>: the values of columns 2, 3 and 4 of the sheet row go to
  columns 2, 3 and 4 of the ledger row whose date text equals the date.\<close>

definition loadWorkHoursRow :: "string \<Rightarrow> sheet \<Rightarrow> nat \<Rightarrow> qtable \<Rightarrow> qtable \<times> py_exc option" where
  "loadWorkHoursRow date ws row t =
     (let start_time = ws_value ws row 2; end_time = ws_value ws row 3; work_type = ws_value ws row 4 in
      for_rows t (row_if_date date (\<lambda>t table_row.
        (set_if_truthy table_row 4 work_type (set_if_truthy table_row 3 end_time
           (set_if_truthy table_row 2 start_time t)), None))))"

text \<open>\<open>loadDeliveryRow\<close>: for each ledger column \<open>col\<close> from 1, the value in sheet
  column \<open>col + 1\<close>, when there is one, goes to the ledger row of the date.\<close>

definition delivery_col :: "string \<Rightarrow> sheet \<Rightarrow> nat \<Rightarrow> qtable \<Rightarrow> nat \<Rightarrow> qtable \<times> py_exc option" where
  "delivery_col date ws row t col =
     (case ws_value ws row (col + 1) of
        None \<Rightarrow> (t, None)
      | Some value \<Rightarrow> for_rows t (row_if_date date (\<lambda>t table_row. (set_item table_row col value t, None))))"

definition loadDeliveryRow :: "string \<Rightarrow> sheet \<Rightarrow> nat \<Rightarrow> qtable \<Rightarrow> qtable \<times> py_exc option" where
  "loadDeliveryRow date ws row t = py_for (delivery_col date ws row) [1..<col_count t] t"

text \<open>\<open>for row in range(2, ws.max_row + 1): date = ws.cell(row=row, column=1).value;
  if date: load(date, ws, row)\<close>.\<close>

definition load_sheet :: "(string \<Rightarrow> sheet \<Rightarrow> nat \<Rightarrow> qtable \<Rightarrow> qtable \<times> py_exc option)
                          \<Rightarrow> sheet \<Rightarrow> qtable \<Rightarrow> qtable \<times> py_exc option" where
  "load_sheet load ws t =
     py_for (\<lambda>t row. if truthy (ws_value ws row 1) then load (the (ws_value ws row 1)) ws row t else (t, None))
            [2..<ws_max_row ws + 1] t"

text \<open>\<open>loadDataFromExcel\<close>: the work sheet, then the delivery sheet, each when the
  workbook has a sheet of that title; any exception is caught and reported, the
  rows loaded before it stay.\<close>

definition loadDataFromExcel :: "workbook \<Rightarrow> app \<Rightarrow> app" where
  "loadDataFromExcel wb s =
     (let (s1, r1) = (case map_of wb work_sheet_title of
                        None \<Rightarrow> (s, None)
                      | Some ws \<Rightarrow> (case load_sheet loadWorkHoursRow ws (work_table s) of
                                     (t, r) \<Rightarrow> (s\<lparr>work_table := t\<rparr>, r))) in
      case r1 of
        Some e \<Rightarrow> show_notice (LoadFailed e) s1
      | None \<Rightarrow>
          (let (s2, r2) = (case map_of wb delivery_sheet_title of
                             None \<Rightarrow> (s1, None)
                           | Some ws \<Rightarrow> (case load_sheet loadDeliveryRow ws (delivery_table s1) of
                                          (t, r) \<Rightarrow> (s1\<lparr>delivery_table := t\<rparr>, r))) in
           case r2 of
             Some e \<Rightarrow> show_notice (LoadFailed e) s2
           | None \<Rightarrow> show_notice ExcelLoaded s2))"

text \<open>What loading a sheet row does to the ledger row \<open>i\<close> of its date: each column
  \<open>col\<close> of \<open>cols\<close> gets \<open>vals i col\<close> where that is a value.  The lemmas below
  show that \<open>loadWorkHoursRow\<close> and \<open>loadDeliveryRow\<close> act this way on a ledger of
  the month.\<close>

definition overlay_row :: "(nat \<Rightarrow> nat \<Rightarrow> string option) \<Rightarrow> nat \<Rightarrow> nat list \<Rightarrow> qtable \<Rightarrow> qtable" where
  "overlay_row vals i cols t = foldl (\<lambda>t col. case vals i col of None \<Rightarrow> t | Some v \<Rightarrow> set_item i col v t) t cols"

text \<open>\<open>openExcel\<close>: the file dialog gives no name (\<open>None\<close>), or \<open>load_workbook\<close>
  raises (\<open>Inl\<close>) or returns the workbook (\<open>Inr\<close>).\<close>

definition openExcel :: "(py_exc + workbook) option \<Rightarrow> app \<Rightarrow> app" where
  "openExcel chosen s =
     (case chosen of
        None \<Rightarrow> s
      | Some (Inl e) \<Rightarrow> show_notice (OpenFailed e) s
      | Some (Inr wb) \<Rightarrow> loadDataFromExcel wb s)"

text \<open>A worksheet is well formed for \<open>n\<close> columns when every cell it holds lies
  within openpyxl's dimensions: rows \<open>1..max_row\<close> and columns \<open>1..n\<close>.\<close>

definition sheet_within :: "nat \<Rightarrow> sheet \<Rightarrow> bool" where
  "sheet_within n ws \<longleftrightarrow> 1 \<le> ws_max_row ws \<and>
     (\<forall>r c. ws_cells ws (r, c) \<noteq> None \<longrightarrow> 1 \<le> r \<and> r \<le> ws_max_row ws \<and> 1 \<le> c \<and> c \<le> n)"

section \<open>The saved sheets\<close>

lemma write_cells_row:
  "ws_cells (foldl (write_cell t row) ws cs) (r, c) =
     (if r = row + 2 \<and> 1 \<le> c \<and> c - 1 \<in> set cs \<and> item t row (c - 1) \<noteq> None then item t row (c - 1)
      else ws_cells ws (r, c))"
  by (induction cs arbitrary: ws) (auto simp: write_cell_def ws_set_def split: option.split)

lemma write_cells_rows:
  "ws_cells (foldl (\<lambda>ws row. foldl (write_cell t row) ws cs) ws rs) (r, c) =
     (if 2 \<le> r \<and> r - 2 \<in> set rs \<and> 1 \<le> c \<and> c - 1 \<in> set cs \<and> item t (r - 2) (c - 1) \<noteq> None
      then item t (r - 2) (c - 1) else ws_cells ws (r, c))"
  by (induction rs arbitrary: ws) (auto simp: write_cells_row)

lemma write_max_row_row:
  "ws_max_row (foldl (write_cell t row) ws cs) =
     (if \<exists>c \<in> set cs. item t row c \<noteq> None then max (ws_max_row ws) (row + 2) else ws_max_row ws)"
  by (induction cs arbitrary: ws) (auto simp: write_cell_def ws_set_def split: option.split)

lemma write_max_row_rows:
  assumes "\<forall>r < N. item t r 0 \<noteq> None" "0 < n" "1 \<le> ws_max_row ws"
  shows "ws_max_row (foldl (\<lambda>ws row. foldl (write_cell t row) ws [0..<n]) ws [0..<N]) = max (ws_max_row ws) (N + 1)"
  using assms by (induction N) (auto simp: write_max_row_row)

lemma write_headers_cells: "2 \<le> r \<Longrightarrow> ws_cells (write_headers hs ws) (r, c) = ws_cells ws (r, c)"
proof -
  assume r: "2 \<le> r"
  have "ws_cells (foldl (\<lambda>ws (col, h). ws_set 1 col h ws) ws xs) (r, c) = ws_cells ws (r, c)" for xs
    using r by (induction xs arbitrary: ws) (auto simp: ws_set_def)
  then show ?thesis by (simp add: write_headers_def)
qed

lemma write_headers_max_row: "ws_max_row (write_headers hs new_sheet) = 1"
proof -
  have "ws_max_row ws = 1 \<Longrightarrow> ws_max_row (foldl (\<lambda>ws (col, h). ws_set 1 col h ws) ws xs) = 1" for xs ws
    by (induction xs arbitrary: ws) (auto simp: ws_set_def)
  then show ?thesis by (simp add: write_headers_def new_sheet_def)
qed

lemma sheet_of_value:
  "2 \<le> r \<Longrightarrow> 1 \<le> c \<Longrightarrow>
   ws_value (sheet_of hs t) r c = (if r - 2 < row_count t \<and> c \<le> length hs then item t (r - 2) (c - 1) else None)"
  by (auto simp: ws_value_def sheet_of_def write_rows_def write_cells_rows write_headers_cells new_sheet_def)

lemma sheet_of_max_row:
  "\<forall>r < row_count t. item t r 0 \<noteq> None \<Longrightarrow> hs \<noteq> [] \<Longrightarrow> ws_max_row (sheet_of hs t) = row_count t + 1"
  by (simp add: sheet_of_def write_rows_def write_max_row_rows write_headers_max_row)

section \<open>Loading into a ledger of the month\<close>

lemma overlay_row_wf: "wf_table t \<Longrightarrow> wf_table (overlay_row vals i cols t)"
  unfolding overlay_row_def
  by (induction cols arbitrary: t) (auto simp: qtable_simps split: option.split)

lemma overlay_row_dated:
  "dated_table n today t \<Longrightarrow> 0 \<notin> set cols \<Longrightarrow> dated_table n today (overlay_row vals i cols t)"
  unfolding overlay_row_def
  by (induction cols arbitrary: t) (auto simp: dated_set_item split: option.split)

lemma overlay_row_item:
  "wf_table t \<Longrightarrow> item (overlay_row vals j cols t) i c =
     (if i = j \<and> c \<in> set cols \<and> in_grid t j c \<and> vals j c \<noteq> None then vals j c else item t i c)"
proof (induction cols arbitrary: t)
  case Nil
  then show ?case by (simp add: overlay_row_def)
next
  case (Cons col cols)
  have wf': "wf_table (case vals j col of None \<Rightarrow> t | Some v \<Rightarrow> set_item j col v t)"
    using Cons.prems by (simp add: qtable_simps split: option.split)
  have g: "in_grid (case vals j col of None \<Rightarrow> t | Some v \<Rightarrow> set_item j col v t) = in_grid t"
    by (simp add: qtable_simps split: option.split)
  show ?case
    using Cons.IH [OF wf'] Cons.prems g
    by (auto simp: overlay_row_def qtable_simps split: option.split)
qed

lemma overlay_rows_item:
  assumes "wf_table t"
  shows "item (foldl (\<lambda>t r. overlay_row vals (r - 2) cols t) t [2..<N + 2]) i c =
           (if i < N \<and> c \<in> set cols \<and> in_grid t i c \<and> vals i c \<noteq> None then vals i c else item t i c)"
  using assms
proof (induction N)
  case 0
  then show ?case by simp
next
  case (Suc N)
  let ?t = "foldl (\<lambda>t r. overlay_row vals (r - 2) cols t) t [2..<N + 2]"
  have wf: "wf_table ?t"
    using Suc.prems by (induction N) (simp_all add: overlay_row_wf)
  have g: "in_grid ?t = in_grid t"
  proof -
    have "in_grid (overlay_row vals j cols u) = in_grid u" for j u
      unfolding overlay_row_def
      by (induction cols arbitrary: u) (auto simp: qtable_simps split: option.split)
    then show ?thesis by (induction N) simp_all
  qed
  have "[2..<Suc N + 2] = [2..<N + 2] @ [N + 2]" by simp
  then show ?case
    using Suc overlay_row_item [OF wf, of vals N cols i c] g by (auto simp: less_Suc_eq)
qed

lemma loadDeliveryRow_overlay:
  assumes v: "valid_date today" and dt: "dated_table delivery_col_count today t"
    and i: "i < month_length today"
    and ws: "\<forall>col \<in> {1..<delivery_col_count}. ws_value ws (i + 2) (col + 1) = vals i col"
  shows "loadDeliveryRow (date_string (add_days (first_of_month today) i)) ws (i + 2) t =
           (overlay_row vals i [1..<delivery_col_count] t, None)"
proof -
  have rc: "i < row_count t" using dt i by (simp add: dated_table_def)
  have step: "delivery_col (date_string (add_days (first_of_month today) i)) ws (i + 2) u col =
                (case vals i col of None \<Rightarrow> u | Some x \<Rightarrow> set_item i col x u, None) \<and>
              dated_table delivery_col_count today (case vals i col of None \<Rightarrow> u | Some x \<Rightarrow> set_item i col x u)"
    if "col \<in> set [1..<delivery_col_count]" "dated_table delivery_col_count today u" for u col
  proof -
    have u: "i < row_count u" using that(2) i by (simp add: dated_table_def)
    have c: "0 < col" using that(1) by simp
    show ?thesis
      using that ws for_rows_match [OF v that(2) u refl, of "\<lambda>t row. (set_item row col _ t, None)"]
      by (auto simp: delivery_col_def dated_set_item c split: option.split)
  qed
  have cc: "col_count t = delivery_col_count" using dt by (simp add: dated_table_def)
  show ?thesis
    unfolding loadDeliveryRow_def cc overlay_row_def
    by (rule py_for_fold_inv [where P = "dated_table delivery_col_count today"]) (use dt step in auto)
qed

lemma loadWorkHoursRow_overlay:
  assumes v: "valid_date today" and dt: "dated_table work_col_count today t"
    and i: "i < month_length today"
  shows "loadWorkHoursRow (date_string (add_days (first_of_month today) i)) ws (i + 2) t =
           (overlay_row (\<lambda>j col. if truthy (ws_value ws (j + 2) col) then ws_value ws (j + 2) col else None)
              i [2, 3, 4] t, None)"
proof -
  have rc: "i < row_count t" using dt i by (simp add: dated_table_def)
  show ?thesis
    unfolding loadWorkHoursRow_def Let_def
    by (subst for_rows_match [OF v dt rc refl])
       (use dt in \<open>auto simp: overlay_row_def set_if_truthy_def truthy_def dated_set_item split: option.split\<close>)
qed

lemma load_sheet_overlay:
  assumes v: "valid_date today" and dt: "dated_table n today t"
    and N: "N \<le> month_length today" and mr: "ws_max_row ws = N + 1"
    and d: "\<forall>i < N. ws_value ws (i + 2) 1 = Some (date_string (add_days (first_of_month today) i))"
    and row: "\<And>i u. i < N \<Longrightarrow> dated_table n today u \<Longrightarrow>
                load (date_string (add_days (first_of_month today) i)) ws (i + 2) u = (overlay_row vals i cols u, None)"
    and c0: "0 \<notin> set cols"
  shows "load_sheet load ws t = (foldl (\<lambda>t r. overlay_row vals (r - 2) cols t) t [2..<N + 2], None)"
proof -
  have e: "[2..<ws_max_row ws + 1] = [2..<N + 2]" using mr by simp
  show ?thesis
  unfolding load_sheet_def e
proof (rule py_for_fold_inv [where P = "dated_table n today"])
  show "dated_table n today t" by (rule dt)
next
  fix u x assume x: "x \<in> set [2..<N + 2]" and u: "dated_table n today u"
  define i where "i = x - 2"
  then have i: "x = i + 2" "i < N" using x by auto
  have "truthy (ws_value ws x 1)" using d i by (simp add: truthy_def)
  then show "(if truthy (ws_value ws x 1) then load (the (ws_value ws x 1)) ws x u else (u, None)) =
               (overlay_row vals (x - 2) cols u, None) \<and> dated_table n today (overlay_row vals (x - 2) cols u)"
    using row [OF i(2) u] d i u overlay_row_dated [OF u c0] by simp
qed
qed

section \<open>The saved workbook loaded into a ledger of the month\<close>

lemma saved_sheet:
  assumes dt: "dated_table n today t" and hs: "hs \<noteq> []"
  shows "ws_max_row (sheet_of hs t) = month_length today + 1"
    "\<forall>i < month_length today. ws_value (sheet_of hs t) (i + 2) 1 = Some (date_string (add_days (first_of_month today) i))"
    "\<And>i col. col < length hs \<Longrightarrow> ws_value (sheet_of hs t) (i + 2) (col + 1) = item t i col"
proof -
  have "\<forall>r < row_count t. item t r 0 \<noteq> None" using dt by (simp add: dated_table_def)
  then show "ws_max_row (sheet_of hs t) = month_length today + 1"
    using dt hs by (simp add: sheet_of_max_row dated_table_def)
  show "\<forall>i < month_length today. ws_value (sheet_of hs t) (i + 2) 1 = Some (date_string (add_days (first_of_month today) i))"
    using dt hs by (auto simp: sheet_of_value dated_table_def Suc_le_eq)
  fix i col assume "col < length hs"
  then show "ws_value (sheet_of hs t) (i + 2) (col + 1) = item t i col"
    using dt by (auto simp: sheet_of_value dated_table_def item_def in_grid_def)
qed

lemma sheet_titles: "work_sheet_title \<noteq> delivery_sheet_title"
  by (simp add: work_sheet_title_def delivery_sheet_title_def)

lemma loadDataFromExcel_saved:
  assumes v: "valid_date today" and ok: "ledger_ok today s" and ok0: "ledger_ok today s0"
    and wb: "snd (saveToExcel IoOk s) = Some wb"
  defines "ww \<equiv> sheet_of work_headers (work_table s)" and "wd \<equiv> sheet_of delivery_headers (delivery_table s)"
  shows "loadDataFromExcel wb s0 = show_notice ExcelLoaded (s0\<lparr>
           work_table := foldl (\<lambda>t r. overlay_row (\<lambda>j col. if truthy (ws_value ww (j + 2) col)
                                   then ws_value ww (j + 2) col else None) (r - 2) [2, 3, 4] t)
                          (work_table s0) [2..<month_length today + 2],
           delivery_table := foldl (\<lambda>t r. overlay_row (\<lambda>j col. ws_value wd (j + 2) (col + 1)) (r - 2)
                                     [1..<delivery_col_count] t)
                              (delivery_table s0) [2..<month_length today + 2]\<rparr>)"
proof -
  have dw: "dated_table work_col_count today (work_table s)" "dated_table work_col_count today (work_table s0)"
   and dd: "dated_table delivery_col_count today (delivery_table s)"
           "dated_table delivery_col_count today (delivery_table s0)"
    using ok ok0 by (simp_all add: ledger_ok_def)
  have wb': "wb = [(work_sheet_title, ww), (delivery_sheet_title, wd)]"
    using wb by (simp add: saveToExcel_def ww_def wd_def)
  have hw: "work_headers \<noteq> []" and hd: "delivery_headers \<noteq> []"
    by (simp_all add: work_headers_def delivery_headers_def)
  note sw = saved_sheet [OF dw(1) hw, folded ww_def]
  note sd = saved_sheet [OF dd(1) hd, folded wd_def]
  have lw: "load_sheet loadWorkHoursRow ww (work_table s0) =
      (foldl (\<lambda>t r. overlay_row (\<lambda>j col. if truthy (ws_value ww (j + 2) col) then ws_value ww (j + 2) col else None)
                 (r - 2) [2, 3, 4] t) (work_table s0) [2..<month_length today + 2], None)"
    by (rule load_sheet_overlay [OF v dw(2) le_refl sw(1) sw(2)], rule loadWorkHoursRow_overlay [OF v],
        assumption+, simp)
  have ld: "load_sheet loadDeliveryRow wd (delivery_table s0) =
      (foldl (\<lambda>t r. overlay_row (\<lambda>j col. ws_value wd (j + 2) (col + 1)) (r - 2) [1..<delivery_col_count] t)
         (delivery_table s0) [2..<month_length today + 2], None)"
    by (rule load_sheet_overlay [OF v dd(2) le_refl sd(1) sd(2)], rule loadDeliveryRow_overlay [OF v],
        assumption+, simp_all add: delivery_col_count_def)
  show ?thesis using sheet_titles lw ld
    by (simp add: loadDataFromExcel_def wb' sheet_titles [symmetric])
qed

lemma loaded_work_item:
  assumes v: "valid_date today" and ok: "ledger_ok today s" and ok0: "ledger_ok today s0"
    and wb: "snd (saveToExcel IoOk s) = Some wb"
  shows "item (work_table (loadDataFromExcel wb s0)) i c =
           (if i < month_length today \<and> c \<in> {2, 3, 4} \<and> truthy (item (work_table s) i (c - 1))
            then item (work_table s) i (c - 1) else item (work_table s0) i c)"
proof -
  let ?ww = "sheet_of work_headers (work_table s)"
  let ?vals = "\<lambda>j col. if truthy (ws_value ?ww (j + 2) col) then ws_value ?ww (j + 2) col else None"
  have d0: "dated_table work_col_count today (work_table s0)" and d: "dated_table work_col_count today (work_table s)"
    using ok ok0 by (simp_all add: ledger_ok_def)
  have wf: "wf_table (work_table s0)" using d0 by (simp add: dated_table_def)
  have L: "item (work_table (loadDataFromExcel wb s0)) i c =
             (if i < month_length today \<and> c \<in> set [2, 3, 4] \<and> in_grid (work_table s0) i c \<and> ?vals i c \<noteq> None
              then ?vals i c else item (work_table s0) i c)"
    using loadDataFromExcel_saved [OF v ok ok0 wb] overlay_rows_item [OF wf, of ?vals "[2, 3, 4]" "month_length today" i c]
    by (simp add: show_notice_def del: upt_Suc)
  show ?thesis
  proof (cases "i < month_length today \<and> c \<in> {2, 3, 4}")
    case True
    have hw: "work_headers \<noteq> []" by (simp add: work_headers_def)
    have "c - 1 < length work_headers" using True by (auto simp: work_headers_def)
    then have "ws_value ?ww (i + 2) (c - 1 + 1) = item (work_table s) i (c - 1)" by (rule saved_sheet(3) [OF d hw])
    moreover have "c - 1 + 1 = c" using True by auto
    moreover have "in_grid (work_table s0) i c" using True d0 by (auto simp: in_grid_def dated_table_def work_col_count_def)
    ultimately show ?thesis using L True by (auto simp: truthy_def split: option.split)
  next
    case False
    then show ?thesis using L by auto
  qed
qed

lemma loaded_delivery_item:
  assumes v: "valid_date today" and ok: "ledger_ok today s" and ok0: "ledger_ok today s0"
    and wb: "snd (saveToExcel IoOk s) = Some wb"
  shows "item (delivery_table (loadDataFromExcel wb s0)) i c =
           (if 0 < c \<and> item (delivery_table s) i c \<noteq> None then item (delivery_table s) i c
            else item (delivery_table s0) i c)"
proof -
  let ?wd = "sheet_of delivery_headers (delivery_table s)"
  let ?vals = "\<lambda>j col. ws_value ?wd (j + 2) (col + 1)"
  have d0: "dated_table delivery_col_count today (delivery_table s0)"
    and d: "dated_table delivery_col_count today (delivery_table s)"
    using ok ok0 by (simp_all add: ledger_ok_def)
  have wf: "wf_table (delivery_table s0)" using d0 by (simp add: dated_table_def)
  have hd: "delivery_headers \<noteq> []" by (simp add: delivery_headers_def)
  have L: "item (delivery_table (loadDataFromExcel wb s0)) i c =
             (if i < month_length today \<and> c \<in> set [1..<delivery_col_count] \<and> in_grid (delivery_table s0) i c \<and>
                 ?vals i c \<noteq> None then ?vals i c else item (delivery_table s0) i c)"
    using loadDataFromExcel_saved [OF v ok ok0 wb]
          overlay_rows_item [OF wf, of ?vals "[1..<delivery_col_count]" "month_length today" i c]
    by (simp add: show_notice_def del: upt_Suc)
  show ?thesis
  proof (cases "i < month_length today \<and> c < delivery_col_count")
    case True
    have "c < length delivery_headers" using True by (simp add: delivery_headers_def delivery_col_count_def)
    then have "ws_value ?wd (i + 2) (c + 1) = item (delivery_table s) i c" by (rule saved_sheet(3) [OF d hd])
    moreover have "in_grid (delivery_table s0) i c" using True d0 by (auto simp: in_grid_def dated_table_def)
    ultimately show ?thesis using L True by auto
  next
    case False
    then have "item (delivery_table s) i c = None" using d by (auto simp: item_def in_grid_def dated_table_def)
    then show ?thesis using L False by auto
  qed
qed

text \<open>C16. Export then import of the delivery ledger (the specification's round trip):
  loading the workbook \<open>saveToExcel\<close> wrote into any ledger of the same month puts back
  every non-empty cell of the saved ledger, with its exact text, leaves every other
  cell as it was, and reports success.\<close>

theorem excel_delivery_roundtrip:
  assumes v: "valid_date today" and ok: "ledger_ok today s" and ok0: "ledger_ok today s0"
    and wb: "snd (saveToExcel IoOk s) = Some wb"
  shows "(\<forall>i c. 0 < c \<longrightarrow> item (delivery_table (loadDataFromExcel wb s0)) i c =
             (case item (delivery_table s) i c of Some x \<Rightarrow> Some x | None \<Rightarrow> item (delivery_table s0) i c)) \<and>
         notices (loadDataFromExcel wb s0) = notices s0 @ [ExcelLoaded]"
proof -
  have "notices (loadDataFromExcel wb s0) = notices s0 @ [ExcelLoaded]"
    using loadDataFromExcel_saved [OF v ok ok0 wb] by (simp add: show_notice_def)
  then show ?thesis using loaded_delivery_item [OF v ok ok0 wb] by (auto split: option.split)
qed

theorem excel_delivery_roundtrip_witness:
  "item (delivery_table (loadDataFromExcel (the (snd (saveToExcel IoOk april_delivery))) april_window)) 2 3 =
     Some ''5.0''"
proof -
  have dt: "dated_table delivery_col_count (2024, 4, 15) (delivery_table april_window)"
    using april_ok [of "[]"] by (simp add: ledger_ok_def)
  then have c: "item (delivery_table april_delivery) 2 3 = Some ''5.0''"
    by (simp add: item_set_item dated_table_def in_grid_def april_len delivery_col_count_def)
  have wb: "snd (saveToExcel IoOk april_delivery) = Some (the (snd (saveToExcel IoOk april_delivery)))"
    by (simp add: saveToExcel_def)
  show ?thesis
    using excel_delivery_roundtrip [OF april_valid april_delivery_ok april_ok wb] c by simp
qed

text \<open>C17. Export then import of the work ledger does not round-trip: \<open>loadWorkHoursRow\<close>
  reads sheet columns 2, 3 and 4 (day name, start, end, since \<open>saveToExcel\<close> writes
  ledger column \<open>c\<close> to sheet column \<open>c + 1\<close>) into ledger columns 2, 3 and 4 (start,
  end, hours).  Each non-empty saved cell of columns 1, 2, 3 lands one column to the
  right: the day name in the start column, the start in the end column, the end in
  the hours column.\<close>

theorem excel_work_roundtrip_shifted:
  assumes v: "valid_date today" and ok: "ledger_ok today s" and ok0: "ledger_ok today s0"
    and wb: "snd (saveToExcel IoOk s) = Some wb" and i: "i < month_length today"
  shows "(truthy (item (work_table s) i 1) \<longrightarrow> item (work_table (loadDataFromExcel wb s0)) i 2 = item (work_table s) i 1) \<and>
         (truthy (item (work_table s) i 2) \<longrightarrow> item (work_table (loadDataFromExcel wb s0)) i 3 = item (work_table s) i 2) \<and>
         (truthy (item (work_table s) i 3) \<longrightarrow> item (work_table (loadDataFromExcel wb s0)) i 4 = item (work_table s) i 3)"
  using loaded_work_item [OF v ok ok0 wb, of i] i by simp

theorem excel_work_roundtrip_shifted_witness:
  "item (work_table (loadDataFromExcel (the (snd (saveToExcel IoOk (saveWorkHours IoOk (april_work (8, 0) (16, 30))))))
      april_window)) 2 4 = Some ''16:30''"
proof -
  let ?s = "saveWorkHours IoOk (april_work (8, 0) (16, 30))"
  have ok: "ledger_ok (2024, 4, 15) ?s" using april_work_hyps(1) by (rule saveWorkHours_ok)
  have "2 < month_length (2024, 4, 15)" by (simp add: april_len)
  moreover have "valid_time (start_time (april_work (8, 0) (16, 30)))" "valid_time (end_time (april_work (8, 0) (16, 30)))"
    by (simp_all add: april_work_hyps valid_time_def)
  ultimately have "item (work_table ?s) 2 3 = Some (time_string (end_time (april_work (8, 0) (16, 30))))"
    using saveWorkHours_match [of "(2024, 4, 15)" "april_work (8, 0) (16, 30)" 2 IoOk,
                               OF april_work_hyps(1) april_valid _ april_work_hyps(2)] by blast
  moreover have "time_string (16, 30) = ''16:30''" by code_simp
  ultimately have e: "item (work_table ?s) 2 3 = Some ''16:30''" by (simp add: april_work_hyps)
  have wb: "snd (saveToExcel IoOk ?s) = Some (the (snd (saveToExcel IoOk ?s)))"
    by (simp add: saveToExcel_def)
  show ?thesis
    using excel_work_roundtrip_shifted [OF april_valid ok april_ok wb, of 2] e april_len
    by (simp add: truthy_def)
qed

section \<open>Loading any workbook into a ledger of the month\<close>

lemma for_rows_safe:
  assumes "dated_table n today t"
    and "\<And>t' row. dated_table n today t' \<Longrightarrow> snd (body t' row) = None \<and> dated_table n today (fst (body t' row))"
  shows "snd (for_rows t (row_if_date d body)) = None \<and> dated_table n today (fst (for_rows t (row_if_date d body)))"
  unfolding for_rows_def
proof (rule py_for_inv [where P = "dated_table n today"])
  fix u row assume r: "row \<in> set [0..<row_count t]" and u: "dated_table n today u"
  then have "row < row_count u" using assms(1) by (simp add: dated_table_def)
  then show "snd (row_if_date d body u row) = None \<and> dated_table n today (fst (row_if_date d body u row))"
    using assms(2) [OF u] u by (simp add: row_if_date_def dated_item_text)
qed (rule assms(1))

lemma set_if_truthy_dated:
  "dated_table n today t \<Longrightarrow> 0 < c \<Longrightarrow> dated_table n today (set_if_truthy row c v t)"
  by (simp add: set_if_truthy_def dated_set_item)

lemma loadWorkHoursRow_safe:
  "dated_table n today t \<Longrightarrow>
   snd (loadWorkHoursRow d ws row t) = None \<and> dated_table n today (fst (loadWorkHoursRow d ws row t))"
  unfolding loadWorkHoursRow_def Let_def
  by (rule for_rows_safe) (simp_all add: set_if_truthy_dated)

lemma loadDeliveryRow_safe:
  assumes "dated_table n today t"
  shows "snd (loadDeliveryRow d ws row t) = None \<and> dated_table n today (fst (loadDeliveryRow d ws row t))"
  unfolding loadDeliveryRow_def
proof (rule py_for_inv [where P = "dated_table n today"])
  fix u col assume "col \<in> set [1..<col_count t]" "dated_table n today u"
  then show "snd (delivery_col d ws row u col) = None \<and> dated_table n today (fst (delivery_col d ws row u col))"
    by (auto simp: delivery_col_def dated_set_item intro!: for_rows_safe split: option.split)
qed (rule assms)

lemma load_sheet_safe:
  assumes "dated_table n today t"
    and "\<And>d row u. dated_table n today u \<Longrightarrow> snd (load d ws row u) = None \<and> dated_table n today (fst (load d ws row u))"
  shows "snd (load_sheet load ws t) = None \<and> dated_table n today (fst (load_sheet load ws t))"
  unfolding load_sheet_def
  by (rule py_for_inv [where P = "dated_table n today"]) (use assms in auto)

lemma loadDataFromExcel_safe:
  assumes "ledger_ok today s"
  shows "ledger_ok today (loadDataFromExcel wb s) \<and> notices (loadDataFromExcel wb s) = notices s @ [ExcelLoaded]"
proof -
  have w: "dated_table work_col_count today (work_table s)" and d: "dated_table delivery_col_count today (delivery_table s)"
    using assms by (simp_all add: ledger_ok_def)
  have lw: "snd (load_sheet loadWorkHoursRow ws (work_table s)) = None \<and>
            dated_table work_col_count today (fst (load_sheet loadWorkHoursRow ws (work_table s)))" for ws
    using w by (rule load_sheet_safe) (rule loadWorkHoursRow_safe)
  have ld: "snd (load_sheet loadDeliveryRow ws (delivery_table s)) = None \<and>
            dated_table delivery_col_count today (fst (load_sheet loadDeliveryRow ws (delivery_table s)))" for ws
    using d by (rule load_sheet_safe) (rule loadDeliveryRow_safe)
  show ?thesis
    using lw ld w d
    by (auto simp: loadDataFromExcel_def ledger_ok_def show_notice_def case_prod_beta
             split: option.split prod.split)
qed

lemma set_if_truthy_frame: "0 < c \<Longrightarrow> col0_frame t (set_if_truthy row c v t)"
  by (simp add: set_if_truthy_def col0_frame_set_item)

lemma loadWorkHoursRow_frame: "col0_frame t (fst (loadWorkHoursRow d ws row t))"
  unfolding loadWorkHoursRow_def Let_def
  by (rule for_rows_frame)
     (simp add: set_if_truthy_def col0_frame_set_item col0_frame_set_item_trans)

lemma loadDeliveryRow_frame: "col0_frame t (fst (loadDeliveryRow d ws row t))"
  unfolding loadDeliveryRow_def
proof (rule py_for_preserves [where P = "col0_frame t"])
  fix u col assume "col \<in> set [1..<col_count t]" "col0_frame t u"
  moreover have "0 < col \<Longrightarrow> col0_frame u (fst (delivery_col d ws row u col))"
    by (auto simp: delivery_col_def intro!: for_rows_frame col0_frame_set_item split: option.split)
  ultimately show "col0_frame t (fst (delivery_col d ws row u col))" by (auto intro: col0_frame_trans)
qed simp

lemma load_sheet_frame:
  "(\<And>d row u. col0_frame u (fst (load d ws row u))) \<Longrightarrow> col0_frame t (fst (load_sheet load ws t))"
  unfolding load_sheet_def
  by (rule py_for_preserves [where P = "col0_frame t"]) (auto intro: col0_frame_trans)

lemma loadDataFromExcel_frame: "ledger_frame s (loadDataFromExcel wb s)"
proof -
  have "col0_frame t (fst (load_sheet loadWorkHoursRow ws t))"
       "col0_frame t (fst (load_sheet loadDeliveryRow ws t))" for t ws
    by (simp_all add: load_sheet_frame loadWorkHoursRow_frame loadDeliveryRow_frame)
  then show ?thesis
    by (auto simp: loadDataFromExcel_def ledger_frame_def case_prod_beta split: option.split prod.split)
qed

lemma openExcel_frame: "ledger_frame s (openExcel c s)"
  using loadDataFromExcel_frame [unfolded ledger_frame_def] by (simp add: openExcel_def ledger_frame_def split: option.split sum.split)

text \<open>C18. Importing any workbook into a ledger of the month never fails and never
  breaks the ledger: no exception is raised, rows are neither added nor removed,
  the date column is untouched, and the success message is shown; after a failed
  \<open>load_workbook\<close> only the error message is added.\<close>

theorem openExcel_ok:
  assumes "ledger_ok today s"
  shows "ledger_ok today (openExcel chosen s) \<and>
         notices (openExcel chosen s) =
           notices s @ (case chosen of None \<Rightarrow> [] | Some (Inl e) \<Rightarrow> [OpenFailed e] | Some (Inr wb) \<Rightarrow> [ExcelLoaded])"
  using loadDataFromExcel_safe [OF assms] assms
  by (auto simp: openExcel_def show_notice_def ledger_ok_def split: option.split sum.split)

theorem openExcel_ok_witness:
  "notices (openExcel (Some (Inr [(''Fuvar adatok'', new_sheet)])) april_window) = [ExcelLoaded]"
proof -
  have "notices april_window = []"
    by (simp add: app_init_def setupTableRows_def fresh_window_def split: prod.split option.split)
  then show ?thesis using openExcel_ok [OF april_ok, of "Some (Inr [(''Fuvar adatok'', new_sheet)])"] by simp
qed

section \<open>The export's headers\<close>

lemma write_headers_enum:
  "ws_cells (foldl (\<lambda>ws (col, h). ws_set 1 col h ws) ws (enumerate n hs)) (1, c) =
     (if n \<le> c \<and> c < n + length hs then Some (hs ! (c - n)) else ws_cells ws (1, c))"
proof (induction hs arbitrary: n ws)
  case Nil
  then show ?case by auto
next
  case (Cons h hs)
  then show ?case
    by (cases "c = n") (auto simp: ws_set_def nth_Cons' Suc_diff_Suc)
qed

lemma sheet_of_header:
  assumes "1 \<le> c" "c \<le> length hs"
  shows "ws_value (sheet_of hs t) 1 c = Some (hs ! (c - 1))"
proof -
  have "ws_cells (write_headers hs new_sheet) (1, c) =
          (if 1 \<le> c \<and> c < 1 + length hs then Some (hs ! (c - 1)) else ws_cells new_sheet (1, c))"
    unfolding write_headers_def by (rule write_headers_enum)
  then show ?thesis using assms by (simp add: ws_value_def sheet_of_def write_rows_def write_cells_rows)
qed

text \<open>C19. \<open>exportToExcel\<close> labels its fifth column "Munka tipusa" (work type), but
  the cells under it are column 4 of the work ledger, the hours worked that
  \<open>saveWorkHours\<close> writes; the work type itself is never exported.\<close>

theorem exportToExcel_type_column:
  assumes "snd (exportToExcel IoOk s) = Some wb"
  shows "\<exists>ws. wb = [(work_sheet_title, ws)] \<and>
           ws_value ws 1 5 = Some (''Munka t'' @ [CHR 0xC3, CHR 0xAD] @ ''pusa'') \<and>
           (\<forall>i. ws_value ws (i + 2) 5 = item (work_table s) i 4)"
proof -
  have "ws_value (sheet_of export_headers (work_table s)) (i + 2) 5 = item (work_table s) i 4" for i
    by (simp add: sheet_of_value export_headers_def item_def in_grid_def)
  moreover have "ws_value (sheet_of export_headers (work_table s)) 1 5 = Some (''Munka t'' @ [CHR 0xC3, CHR 0xAD] @ ''pusa'')"
    using sheet_of_header [of 5 export_headers "work_table s"] by (simp add: export_headers_def)
  moreover have "wb = [(work_sheet_title, sheet_of export_headers (work_table s))]"
    using assms by (simp add: exportToExcel_def)
  ultimately show ?thesis by blast
qed

theorem exportToExcel_type_column_witness:
  "ws_value (snd (hd (the (snd (exportToExcel IoOk (saveWorkHours IoOk (april_work (8, 0) (16, 30)))))))) 4 5 =
     Some ''8.50''"
proof -
  let ?s = "saveWorkHours IoOk (april_work (8, 0) (16, 30))"
  have "2 < month_length (2024, 4, 15)" by (simp add: april_len)
  moreover have "valid_time (start_time (april_work (8, 0) (16, 30)))" "valid_time (end_time (april_work (8, 0) (16, 30)))"
    by (simp_all add: april_work_hyps valid_time_def)
  ultimately have "item (work_table ?s) 2 4 =
      Some (format_fixed 2 (Fin (of_int (timedelta_seconds (start_time (april_work (8, 0) (16, 30)))
                                                           (end_time (april_work (8, 0) (16, 30)))) / 3600)))"
    using saveWorkHours_match [of "(2024, 4, 15)" "april_work (8, 0) (16, 30)" 2 IoOk,
                               OF april_work_hyps(1) april_valid _ april_work_hyps(2)] by blast
  moreover have "(of_int (timedelta_seconds (8, 0) (16, 30)) / 3600 :: rat) = 17 / 2"
    by (simp add: timedelta_seconds_def time_seconds_def)
  moreover have "format_fixed 2 (Fin (17 / 2)) = ''8.50''" by code_simp
  ultimately have h: "item (work_table ?s) 2 4 = Some ''8.50''" by (simp add: april_work_hyps)
  have wb: "snd (exportToExcel IoOk ?s) = Some (the (snd (exportToExcel IoOk ?s)))"
    by (simp add: exportToExcel_def)
  from exportToExcel_type_column [OF wb] obtain ws where
    "the (snd (exportToExcel IoOk ?s)) = [(work_sheet_title, ws)]" "\<forall>i. ws_value ws (i + 2) 5 = item (work_table ?s) i 4"
    by blast
  then show ?thesis using h spec [of _ 2] by (simp add: numeral_eq_Suc)
qed

section \<open>Shape of the written sheets\<close>

lemma sheet_within_new: "sheet_within n new_sheet"
  by (simp add: sheet_within_def new_sheet_def)

lemma sheet_within_set:
  "sheet_within n ws \<Longrightarrow> 1 \<le> r \<Longrightarrow> 1 \<le> c \<Longrightarrow> c \<le> n \<Longrightarrow> sheet_within n (ws_set r c v ws)"
  by (auto simp: sheet_within_def ws_set_def le_max_iff_disj)

lemma sheet_within_headers:
  "sheet_within n ws \<Longrightarrow> 1 \<le> k \<Longrightarrow> k + length hs \<le> n + 1 \<Longrightarrow>
   sheet_within n (foldl (\<lambda>ws (col, h). ws_set 1 col h ws) ws (enumerate k hs))"
proof (induction hs arbitrary: k ws)
  case (Cons h hs)
  have "sheet_within n (ws_set 1 k h ws)" using Cons.prems by (intro sheet_within_set) simp_all
  then show ?case using Cons.IH [of "ws_set 1 k h ws" "Suc k"] Cons.prems by simp
qed simp

lemma sheet_within_rows: "sheet_within n ws \<Longrightarrow> sheet_within n (write_rows t n ws)"
proof -
  assume ws: "sheet_within n ws"
  have one: "sheet_within n (write_cell t row w c)" if "sheet_within n w" "c < n" for w c row
    using that by (cases "item t row c") (simp_all add: write_cell_def sheet_within_set)
  have cell: "sheet_within n (foldl (write_cell t row) w cs)" if "sheet_within n w" "\<forall>c \<in> set cs. c < n" for w cs row
    using that by (induction cs arbitrary: w) (simp_all add: one)
  have "sheet_within n (foldl (\<lambda>ws row. foldl (write_cell t row) ws [0..<n]) w rs)" if "sheet_within n w" for w rs
    using that by (induction rs arbitrary: w) (simp_all add: cell)
  then show ?thesis using ws by (simp add: write_rows_def)
qed

text \<open>C24. Every sheet \<open>saveToExcel\<close> and \<open>exportToExcel\<close> write (each is a
  \<open>sheet_of\<close> its headers and a ledger) is well formed: its cells lie in rows
  \<open>1..max_row\<close> and in the columns of its headers, and row 1 holds exactly the
  headers, in order, from column 1.\<close>

theorem sheet_of_well_formed:
  "sheet_within (length hs) (sheet_of hs t) \<and>
   (\<forall>c. ws_value (sheet_of hs t) 1 c = (if 1 \<le> c \<and> c \<le> length hs then Some (hs ! (c - 1)) else None))"
proof
  have "sheet_within (length hs) (write_headers hs new_sheet)"
    unfolding write_headers_def by (rule sheet_within_headers [OF sheet_within_new]) simp_all
  then show w: "sheet_within (length hs) (sheet_of hs t)" by (simp add: sheet_of_def sheet_within_rows)
  show "\<forall>c. ws_value (sheet_of hs t) 1 c = (if 1 \<le> c \<and> c \<le> length hs then Some (hs ! (c - 1)) else None)"
  proof
    fix c
    show "ws_value (sheet_of hs t) 1 c = (if 1 \<le> c \<and> c \<le> length hs then Some (hs ! (c - 1)) else None)"
    proof (cases "1 \<le> c \<and> c \<le> length hs")
      case True
      then show ?thesis using sheet_of_header [of c hs t] by simp
    next
      case False
      have "ws_cells (sheet_of hs t) (1, c) \<noteq> None \<Longrightarrow> 1 \<le> c \<and> c \<le> length hs"
        using w unfolding sheet_within_def by blast
      then show ?thesis using False by (cases "ws_cells (sheet_of hs t) (1, c)") (auto simp: ws_value_def)
    qed
  qed
qed

theorem sheet_of_well_formed_witness:
  "sheet_within 11 (sheet_of delivery_headers (delivery_table april_delivery)) \<and>
   ws_value (sheet_of delivery_headers (delivery_table april_delivery)) 1 12 = None \<and>
   ws_value (sheet_of delivery_headers (delivery_table april_delivery)) 1 1 = Some (''D'' @ [CHR 0xC3, CHR 0xA1] @ ''tum'')"
  using sheet_of_well_formed [of delivery_headers "delivery_table april_delivery"]
  by (simp add: delivery_headers_def)

end
