(* ===== verification/RefData.thy ===== *)
theory RefData
  imports QtTable PyNum
begin

text \<open>
  The reference data store: the three SQLite tables \<open>factories\<close>, \<open>addresses\<close>
  and \<open>zones\<close> of \<open>fuvarok.db\<close>, created and seeded by \<open>FuvarAdminApp.initDatabase\<close>,
  and the \<open>DatabaseManager\<close> dialog that lists them in three tables and adds and
  deletes rows.  A table is the list of its rows in rowid order, which is the order
  \<open>SELECT *\<close> returns them in; the three tables share one row shape
  \<open>(id, label, price)\<close>, and the dialog's three tabs differ only in the table they
  address, so each handler is one definition over a \<open>ref_kind\<close>.  The table
  widgets are editable, so the dialog's events include cell edits; \<open>DELETE ...
  WHERE id=?\<close> binds the text of the id cell, compared with the integer ids under
  SQLite's NUMERIC affinity (\<open>sql_numeric\<close>).
\<close>

section \<open>The SQLite tables\<close>

record ref_row =
  row_id :: int
  row_label :: string
  row_price :: int

type_synonym sql_table = "ref_row list"

datatype ref_kind = Factories | Addresses | Zones

record ref_db =
  factories :: sql_table
  addresses :: sql_table
  zones :: sql_table

definition db_table :: "ref_kind \<Rightarrow> ref_db \<Rightarrow> sql_table" where
  "db_table k db = (case k of Factories \<Rightarrow> factories db | Addresses \<Rightarrow> addresses db
                              | Zones \<Rightarrow> zones db)"

definition db_set :: "ref_kind \<Rightarrow> sql_table \<Rightarrow> ref_db \<Rightarrow> ref_db" where
  "db_set k t db = (case k of Factories \<Rightarrow> db\<lparr>factories := t\<rparr> | Addresses \<Rightarrow> db\<lparr>addresses := t\<rparr>
                              | Zones \<Rightarrow> db\<lparr>zones := t\<rparr>)"

text \<open>\<open>INSERT INTO t (label, price) VALUES (?, ?)\<close> on a table whose \<open>id\<close> is an
  \<open>INTEGER PRIMARY KEY\<close> (an alias of the rowid) without \<open>AUTOINCREMENT\<close>: the new
  row gets one more than the largest id in the table, 1 in an empty table.\<close>

definition next_rowid :: "sql_table \<Rightarrow> int" where
  "next_rowid t = (if t = [] then 1 else Max (set (map row_id t)) + 1)"

definition sql_insert :: "string \<Rightarrow> int \<Rightarrow> sql_table \<Rightarrow> sql_table" where
  "sql_insert label price t = t @ [\<lparr>row_id = next_rowid t, row_label = label, row_price = price\<rparr>]"

text \<open>The parameter of \<open>DELETE FROM t WHERE id=?\<close> is the id cell's text, bound
  as TEXT.  Compared with the \<open>INTEGER\<close> column it gets NUMERIC affinity: with
  the spaces around it removed, a well-formed integer or real literal (an optional
  sign, digits with an optional decimal point, at least one digit, an optional
  exponent) becomes that number; any other text stays TEXT and equals no integer.
  So \<open>'1.0'\<close>, \<open>' 2 '\<close> and \<open>'3e0'\<close> address the ids 1, 2 and 3.\<close>

definition sql_space :: "char \<Rightarrow> bool" where
  "sql_space c \<longleftrightarrow> c \<in> set [CHR '' '', CHR 0x09, CHR 0x0A, CHR 0x0B, CHR 0x0C, CHR 0x0D]"

definition sql_strip :: "string \<Rightarrow> string" where
  "sql_strip s = rev (dropWhile sql_space (rev (dropWhile sql_space s)))"

definition sql_digits :: "string \<Rightarrow> bool" where
  "sql_digits s \<longleftrightarrow> s \<noteq> [] \<and> list_all is_digit s"

text \<open>An unsigned real literal: \<open>digits [. [digits]] | . digits\<close>, then an optional
  \<open>e\<close> or \<open>E\<close> with an optional sign and digits.\<close>

definition sql_real :: "string \<Rightarrow> rat option" where
  "sql_real r =
     (let is_e = (\<lambda>c. c = CHR ''e'' \<or> c = CHR ''E'');
          m = takeWhile (\<lambda>c. \<not> is_e c) r; ex = dropWhile (\<lambda>c. \<not> is_e c) r;
          i = takeWhile (\<lambda>c. c \<noteq> CHR ''.'') m; f = drop 1 (dropWhile (\<lambda>c. c \<noteq> CHR ''.'') m);
          mant = (if (i = [] \<or> sql_digits i) \<and> (f = [] \<or> sql_digits f) \<and> (i \<noteq> [] \<or> f \<noteq> [])
                  then Some (of_nat (digits_val i) + of_nat (digits_val f) / 10 ^ length f) else None);
          e = (case ex of [] \<Rightarrow> Some 0
               | _ # es \<Rightarrow> (case split_sign es of (sg, d) \<Rightarrow>
                              if sql_digits d then Some (sg * int (digits_val d)) else None)) in
      case (mant, e) of (Some q, Some k) \<Rightarrow> Some (scale10 q k) | _ \<Rightarrow> None)"

definition sql_numeric :: "string \<Rightarrow> rat option" where
  "sql_numeric s = (case split_sign (sql_strip s) of (sg, r) \<Rightarrow> map_option (\<lambda>q. of_int sg * q) (sql_real r))"

text \<open>The integer id a text equals, if any.\<close>

definition sql_int_text :: "string \<Rightarrow> int option" where
  "sql_int_text s = (case sql_numeric s of
     Some q \<Rightarrow> if q = of_int (floor q) then Some (floor q) else None
   | None \<Rightarrow> None)"

definition sql_delete :: "string \<Rightarrow> sql_table \<Rightarrow> sql_table" where
  "sql_delete id_text t = filter (\<lambda>r. sql_int_text id_text \<noteq> Some (row_id r)) t"

section \<open>initDatabase\<close>

text \<open>\<open>fuvarok.db\<close> as the program finds it: each table present with its rows, or
  absent.\<close>

record ref_file =
  file_factories :: "sql_table option"
  file_addresses :: "sql_table option"
  file_zones :: "sql_table option"

definition no_file :: ref_file where
  "no_file = \<lparr>file_factories = None, file_addresses = None, file_zones = None\<rparr>"

text \<open>The three factories seeded into an empty table; the third, whose name has an a-acute, in UTF-8.\<close>

definition factory_seeds :: "(string \<times> int) list" where
  "factory_seeds = [(''CATL'', 5000), (''BMW'', 6000), (''Gy'' @ [CHR 0xC3, CHR 0xA1] @ ''r 3'', 5500)]"

text \<open>\<open>cursor.executemany("INSERT ...", rows)\<close>: one insert per row, in order.\<close>

definition insert_many :: "(string \<times> int) list \<Rightarrow> sql_table \<Rightarrow> sql_table" where
  "insert_many values t = foldl (\<lambda>t (label, price). sql_insert label price t) t values"

text \<open>\<open>CREATE TABLE IF NOT EXISTS\<close> for the three tables, then the seeds when
  \<open>SELECT COUNT(*) FROM factories\<close> is 0.\<close>

definition initDatabase :: "ref_file \<Rightarrow> ref_db" where
  "initDatabase f =
     (let db = \<lparr>factories = (case file_factories f of None \<Rightarrow> [] | Some t \<Rightarrow> t),
                addresses = (case file_addresses f of None \<Rightarrow> [] | Some t \<Rightarrow> t),
                zones = (case file_zones f of None \<Rightarrow> [] | Some t \<Rightarrow> t)\<rparr>;
          count = length (factories db) in
      if count = 0 then db\<lparr>factories := insert_many factory_seeds (factories db)\<rparr> else db)"

text \<open>\<open>FuvarAdminApp.loadFactories\<close>: the factory combo lists the \<open>nev\<close> column.\<close>

definition factory_names :: "ref_db \<Rightarrow> string list" where
  "factory_names db = map row_label (factories db)"

section \<open>The DatabaseManager dialog\<close>

text \<open>One tab: its table widget, the name line edit, the price spin box, and the
  row of the first selected item, if an item is selected.\<close>

record ref_tab =
  tab_table :: qtable
  tab_label :: string
  tab_price :: int
  tab_selected :: "nat option"

record ref_dialog =
  dlg_db :: ref_db
  factory_tab :: ref_tab
  address_tab :: ref_tab
  zone_tab :: ref_tab

definition dlg_tab :: "ref_kind \<Rightarrow> ref_dialog \<Rightarrow> ref_tab" where
  "dlg_tab k d = (case k of Factories \<Rightarrow> factory_tab d | Addresses \<Rightarrow> address_tab d
                            | Zones \<Rightarrow> zone_tab d)"

definition dlg_tab_update :: "ref_kind \<Rightarrow> (ref_tab \<Rightarrow> ref_tab) \<Rightarrow> ref_dialog \<Rightarrow> ref_dialog" where
  "dlg_tab_update k f d = (case k of Factories \<Rightarrow> d\<lparr>factory_tab := f (factory_tab d)\<rparr>
                                   | Addresses \<Rightarrow> d\<lparr>address_tab := f (address_tab d)\<rparr>
                                   | Zones \<Rightarrow> d\<lparr>zone_tab := f (zone_tab d)\<rparr>)"

text \<open>\<open>str(item)\<close> for the columns of a fetched row \<open>(id, label, price)\<close>.\<close>

definition row_texts :: "ref_row \<Rightarrow> string list" where
  "row_texts r = [show_int (row_id r), row_label r, show_int (row_price r)]"

text \<open>One iteration of \<open>for row, data in enumerate(cursor.fetchall())\<close>: insert the
  row, then \<open>for col, item in enumerate(data): setItem(row, col, str(item))\<close>.\<close>

definition load_row :: "qtable \<Rightarrow> nat \<times> ref_row \<Rightarrow> qtable" where
  "load_row t rd = (case rd of (row, data) \<Rightarrow>
     foldl (\<lambda>t (col, txt). set_item row col txt t) (insert_row row t) (enumerate 0 (row_texts data)))"

text \<open>\<open>loadFactories\<close>, \<open>loadAddresses\<close>, \<open>loadZones\<close>: \<open>setRowCount(0)\<close>, which also
  clears the selection, then one row per fetched row.\<close>

definition load_kind :: "ref_kind \<Rightarrow> ref_dialog \<Rightarrow> ref_dialog" where
  "load_kind k d =
     dlg_tab_update k (\<lambda>tb. tb\<lparr>tab_table := foldl load_row (set_row_count_zero (tab_table tb))
                                                   (enumerate 0 (db_table k (dlg_db d))),
                             tab_selected := None\<rparr>) d"

text \<open>\<open>DatabaseManager.__init__\<close>: the three tabs, each with a 3-column table, an
  empty name, a spin box at 0 with range \<open>0..1000000\<close>, each table loaded.\<close>

definition empty_tab :: ref_tab where
  "empty_tab = \<lparr>tab_table = new_table 3, tab_label = [], tab_price = 0, tab_selected = None\<rparr>"

definition dialog_init :: "ref_db \<Rightarrow> ref_dialog" where
  "dialog_init db = load_kind Zones (load_kind Addresses (load_kind Factories
     \<lparr>dlg_db = db, factory_tab = empty_tab, address_tab = empty_tab, zone_tab = empty_tab\<rparr>))"

text \<open>\<open>QSpinBox.setValue\<close> with \<open>setRange(0, 1000000)\<close>: the value is clamped.\<close>

definition spin_clamp :: "int \<Rightarrow> int" where
  "spin_clamp v = max 0 (min 1000000 v)"

text \<open>\<open>addFactory\<close>, \<open>addAddress\<close>, \<open>addZone\<close>: when the name is non-empty and the
  price non-zero (\<open>if name and price\<close>), insert and commit, reload the table,
  clear the name and reset the price.  A failing \<open>execute\<close> or \<open>commit\<close> raises
  \<open>sqlite3.Error\<close>, which no handler catches: the slot ends with nothing changed.\<close>

definition add_entry :: "ref_kind \<Rightarrow> io_result \<Rightarrow> ref_dialog \<Rightarrow> ref_dialog" where
  "add_entry k io d =
     (let tb = dlg_tab k d; name = tab_label tb; price = tab_price tb in
      if name \<noteq> [] \<and> price \<noteq> 0 then
        (case io of
           IoFail \<Rightarrow> d
         | IoOk \<Rightarrow>
             let d1 = d\<lparr>dlg_db := db_set k (sql_insert name price (db_table k (dlg_db d))) (dlg_db d)\<rparr>;
                 d2 = load_kind k d1 in
             dlg_tab_update k (\<lambda>tb. tb\<lparr>tab_label := [], tab_price := spin_clamp 0\<rparr>) d2)
      else d)"

text \<open>\<open>deleteFactory\<close>, \<open>deleteAddress\<close>, \<open>deleteZone\<close>: with an item selected, the
  id cell of its row is read; when there is one, its text is the parameter of the
  \<open>DELETE\<close>, then commit and reload.\<close>

definition delete_entry :: "ref_kind \<Rightarrow> io_result \<Rightarrow> ref_dialog \<Rightarrow> ref_dialog" where
  "delete_entry k io d =
     (let tb = dlg_tab k d in
      case tab_selected tb of
        None \<Rightarrow> d
      | Some row \<Rightarrow>
          (case item (tab_table tb) row 0 of
             None \<Rightarrow> d
           | Some id_text \<Rightarrow>
               (case io of
                  IoFail \<Rightarrow> d
                | IoOk \<Rightarrow> load_kind k (d\<lparr>dlg_db := db_set k (sql_delete id_text (db_table k (dlg_db d)))
                                                          (dlg_db d)\<rparr>))))"

text \<open>The user's actions in the dialog: typing a name, setting a price, selecting
  an item of a row (or clearing the selection), the two buttons of a tab, and
  editing a cell of a tab's table: nothing in the code turns off the
  \<open>QTableWidget\<close>'s default edit triggers, so the user can retype any item; the
  text replaces the item's text and no handler is called.\<close>

datatype ref_event =
    TypeLabel ref_kind string
  | SetPrice ref_kind int
  | SelectRow ref_kind "nat option"
  | AddPressed ref_kind io_result
  | DeletePressed ref_kind io_result
  | EditCell ref_kind nat nat string

fun dialog_step :: "ref_dialog \<Rightarrow> ref_event \<Rightarrow> ref_dialog" where
  "dialog_step d (TypeLabel k s) = dlg_tab_update k (\<lambda>tb. tb\<lparr>tab_label := s\<rparr>) d"
| "dialog_step d (SetPrice k v) = dlg_tab_update k (\<lambda>tb. tb\<lparr>tab_price := spin_clamp v\<rparr>) d"
| "dialog_step d (SelectRow k r) =
     dlg_tab_update k (\<lambda>tb. tb\<lparr>tab_selected :=
        (case r of Some i \<Rightarrow> if i < row_count (tab_table tb) then Some i else None | None \<Rightarrow> None)\<rparr>) d"
| "dialog_step d (AddPressed k io) = add_entry k io d"
| "dialog_step d (DeletePressed k io) = delete_entry k io d"
| "dialog_step d (EditCell k r c s) = dlg_tab_update k (\<lambda>tb. tb\<lparr>tab_table := set_item r c s (tab_table tb)\<rparr>) d"

section \<open>The abstract store\<close>

text \<open>What the specification promises of a record set: a finite map from id to
  (label, price).\<close>

definition db_abs :: "sql_table \<Rightarrow> int \<rightharpoonup> string \<times> int" where
  "db_abs t = map_of (map (\<lambda>r. (row_id r, (row_label r, row_price r))) t)"

text \<open>The store invariant: ids positive and strictly increasing in rowid order,
  labels non-empty, prices within the spin box's positive range.\<close>

definition table_ok :: "sql_table \<Rightarrow> bool" where
  "table_ok t \<longleftrightarrow> sorted_wrt (<) (map row_id t) \<and>
     (\<forall>r \<in> set t. 0 < row_id r \<and> row_label r \<noteq> [] \<and> 0 < row_price r \<and> row_price r \<le> 1000000)"

definition db_ok :: "ref_db \<Rightarrow> bool" where
  "db_ok db \<longleftrightarrow> (\<forall>k. table_ok (db_table k db))"

text \<open>A table widget shows a table: three columns, one row per table row, each
  cell the text \<open>str()\<close> gives.\<close>

definition shows_table :: "qtable \<Rightarrow> sql_table \<Rightarrow> bool" where
  "shows_table w t \<longleftrightarrow> wf_table w \<and> col_count w = 3 \<and> row_count w = length t \<and>
     (\<forall>i < length t. \<forall>c < 3. item w i c = Some (row_texts (t ! i) ! c))"

definition tab_ok :: "ref_tab \<Rightarrow> sql_table \<Rightarrow> bool" where
  "tab_ok tb t \<longleftrightarrow> shows_table (tab_table tb) t \<and> 0 \<le> tab_price tb \<and> tab_price tb \<le> 1000000 \<and>
     (\<forall>i. tab_selected tb = Some i \<longrightarrow> i < length t)"

definition dialog_ok :: "ref_dialog \<Rightarrow> bool" where
  "dialog_ok d \<longleftrightarrow> db_ok (dlg_db d) \<and> (\<forall>k. tab_ok (dlg_tab k d) (db_table k (dlg_db d)))"

text \<open>What survives the user's edits of the table widgets: the store invariant, and
  each widget with three columns, one row per table row, the spin box in range and
  a selection naming an existing row.\<close>

definition tab_shape :: "ref_tab \<Rightarrow> sql_table \<Rightarrow> bool" where
  "tab_shape tb t \<longleftrightarrow> wf_table (tab_table tb) \<and> col_count (tab_table tb) = 3 \<and>
     row_count (tab_table tb) = length t \<and> 0 \<le> tab_price tb \<and> tab_price tb \<le> 1000000 \<and>
     (\<forall>i. tab_selected tb = Some i \<longrightarrow> i < length t)"

definition dialog_shape_ok :: "ref_dialog \<Rightarrow> bool" where
  "dialog_shape_ok d \<longleftrightarrow> db_ok (dlg_db d) \<and> (\<forall>k. tab_shape (dlg_tab k d) (db_table k (dlg_db d)))"

text \<open>A database file the program could have written: every table present
  satisfies the store invariant.\<close>

definition file_ok :: "ref_file \<Rightarrow> bool" where
  "file_ok f \<longleftrightarrow> (\<forall>t. (file_factories f = Some t \<or> file_addresses f = Some t \<or> file_zones f = Some t)
                     \<longrightarrow> table_ok t)"

text \<open>The dialog states reachable from opening it on the database \<open>initDatabase\<close>
  left, by any sequence of the user's actions.\<close>

inductive dialog_reachable :: "ref_dialog \<Rightarrow> bool" where
  open_dialog: "file_ok f \<Longrightarrow> dialog_reachable (dialog_init (initDatabase f))"
| step: "dialog_reachable d \<Longrightarrow> dialog_reachable (dialog_step d e)"

text \<open>The Zones tab of the dialog opened on a first run, with a name typed and a
  price set: the state the examples below start from.\<close>

abbreviation zone_form :: ref_dialog where
  "zone_form \<equiv> dialog_step (dialog_step (dialog_init (initDatabase no_file)) (TypeLabel Zones ''A''))
                  (SetPrice Zones 1500)"


lemma db_table_set [simp]:
  "db_table k (db_set k t db) = t"
  "k' \<noteq> k \<Longrightarrow> db_table k' (db_set k t db) = db_table k' db"
  by (cases k; cases k'; simp add: db_table_def db_set_def)+

lemma dlg_tab_update [simp]:
  "dlg_tab k (dlg_tab_update k f d) = f (dlg_tab k d)"
  "k' \<noteq> k \<Longrightarrow> dlg_tab k' (dlg_tab_update k f d) = dlg_tab k' d"
  "dlg_db (dlg_tab_update k f d) = dlg_db d"
  by (cases k; cases k'; simp add: dlg_tab_def dlg_tab_update_def)+

lemma dlg_tab_db_update [simp]: "dlg_tab k (d\<lparr>dlg_db := db\<rparr>) = dlg_tab k d"
  by (cases k) (simp_all add: dlg_tab_def)

lemma load_kind_db [simp]: "dlg_db (load_kind k d) = dlg_db d"
  by (simp add: load_kind_def)

lemma load_kind_other [simp]: "k' \<noteq> k \<Longrightarrow> dlg_tab k' (load_kind k d) = dlg_tab k' d"
  by (simp add: load_kind_def)

section \<open>Ids\<close>

lemma next_rowid_gt: "r \<in> set t \<Longrightarrow> row_id r < next_rowid t"
  by (auto simp: next_rowid_def intro: le_imp_less_Suc [unfolded Suc_eq_plus1])

lemma next_rowid_fresh: "next_rowid t \<notin> row_id ` set t"
  using next_rowid_gt by fastforce

lemma next_rowid_pos: "\<forall>r \<in> set t. 0 < row_id r \<Longrightarrow> 0 < next_rowid t"
proof (cases t)
  case (Cons r rs)
  assume "\<forall>r \<in> set t. 0 < row_id r"
  then have "0 < row_id r" using Cons by simp
  moreover have "row_id r \<le> Max (set (map row_id t))" using Cons by simp
  ultimately have "0 < Max (set (map row_id t))" by linarith
  then show ?thesis using Cons by (simp only: next_rowid_def) simp
qed (simp add: next_rowid_def)

lemma table_ok_insert:
  "table_ok t \<Longrightarrow> label \<noteq> [] \<Longrightarrow> 0 < p \<Longrightarrow> p \<le> 1000000 \<Longrightarrow> table_ok (sql_insert label p t)"
  by (auto simp: table_ok_def sql_insert_def sorted_wrt_append next_rowid_gt next_rowid_pos)

lemma table_ok_delete: "table_ok t \<Longrightarrow> table_ok (sql_delete s t)"
  by (auto simp: table_ok_def sql_delete_def sorted_wrt_map sorted_wrt_filter)

section \<open>The id text\<close>

lemma sql_int_text_numeric: "sql_int_text s = Some j \<Longrightarrow> sql_numeric s = Some (of_int j)"
  by (auto simp: sql_int_text_def split: option.splits if_splits)

lemma sql_strip_no_space: "\<forall>c \<in> set s. \<not> sql_space c \<Longrightarrow> sql_strip s = s"
  by (simp add: sql_strip_def dropWhile_all_not)

lemma sql_real_digits:
  assumes "\<forall>c \<in> set ds. is_digit c" "ds \<noteq> []"
  shows "sql_real ds = Some (of_nat (digits_val ds))"
proof -
  have ne: "\<forall>c \<in> set ds. \<not> (c = CHR ''e'' \<or> c = CHR ''E'')" "\<forall>c \<in> set ds. c \<noteq> CHR ''.''"
    using assms(1) by (auto simp: is_digit_def)
  have t1: "takeWhile (\<lambda>c. \<not> (c = CHR ''e'' \<or> c = CHR ''E'')) ds = ds"
    and t2: "dropWhile (\<lambda>c. \<not> (c = CHR ''e'' \<or> c = CHR ''E'')) ds = []"
    and t3: "takeWhile (\<lambda>c. c \<noteq> CHR ''.'') ds = ds"
    and t4: "dropWhile (\<lambda>c. c \<noteq> CHR ''.'') ds = []"
    using ne by (simp_all only: takeWhile_all dropWhile_all)
  show ?thesis
    unfolding sql_real_def Let_def t1 t2 t3 t4
    using assms by (simp add: sql_digits_def list_all_iff scale10_def)
qed

lemma sql_int_text_show_int: "sql_int_text (show_int i) = Some i"
proof -
  let ?n = "show_nat (nat \<bar>i\<bar>)"
  have d: "\<forall>c \<in> set ?n. is_digit c" by simp
  have nd: "\<not> sql_space c" if "is_digit c" for c using that by (auto simp: sql_space_def is_digit_def)
  have "\<forall>c \<in> set (show_nat n). \<not> sql_space c" for n using nd show_nat_all_digits by blast
  then have sp: "\<forall>c \<in> set (show_int i). \<not> sql_space c" by (simp add: show_int_def sql_space_def)
  have r: "sql_real ?n = Some (of_nat (nat \<bar>i\<bar>))" using sql_real_digits [OF d] by simp
  show ?thesis
  proof (cases "i < 0")
    case True
    then have "split_sign (show_int i) = (-1, ?n)" by (simp add: show_int_def split_sign_def)
    then show ?thesis using r True sp
      by (simp add: sql_int_text_def sql_numeric_def sql_strip_no_space)
  next
    case False
    then have "split_sign (show_int i) = (1, ?n)"
      using split_sign_digit [of ?n] by (simp add: show_int_def)
    then show ?thesis using r False sp
      by (simp add: sql_int_text_def sql_numeric_def sql_strip_no_space)
  qed
qed

section \<open>Refinement of the abstract store\<close>

lemma map_of_snoc_fresh: "k \<notin> fst ` set xs \<Longrightarrow> map_of (xs @ [(k, v)]) = (map_of xs)(k \<mapsto> v)"
  by (induction xs) (auto simp: fun_eq_iff)

lemma db_abs_insert:
  "db_abs (sql_insert label p t) = (db_abs t)(next_rowid t \<mapsto> (label, p))"
  using map_of_snoc_fresh [of "next_rowid t" "map (\<lambda>r. (row_id r, row_label r, row_price r)) t"]
        next_rowid_fresh [of t]
  by (simp add: db_abs_def sql_insert_def image_image)

lemma db_abs_delete:
  "sql_int_text s = Some x \<Longrightarrow> db_abs (sql_delete s t) = (db_abs t)(x := None)"
  by (induction t) (auto simp: db_abs_def sql_delete_def fun_eq_iff)

lemma sql_delete_absent:
  "\<forall>r \<in> set t. sql_int_text s \<noteq> Some (row_id r) \<Longrightarrow> sql_delete s t = t"
  by (simp add: sql_delete_def)

lemma dom_db_abs: "dom (db_abs t) = row_id ` set t"
  by (simp add: db_abs_def dom_map_of_conv_image_fst image_image)

section \<open>The table widgets\<close>

lemma load_row_shows:
  assumes "shows_table w t"
  shows "shows_table (load_row w (length t, r)) (t @ [r])"
proof -
  have wf: "wf_table w" and cc: "col_count w = 3" and rc: "row_count w = length t"
    using assms by (simp_all add: shows_table_def)
  let ?w1 = "insert_row (length t) w"
  have wf1: "wf_table ?w1" using wf by (simp add: qtable_simps)
  have g: "in_grid ?w1 (length t) c \<longleftrightarrow> c < 3" for c
    using in_grid_insert_row_end [of w "length t" c] rc cc by simp
  have old: "item ?w1 i c = (if i < length t then item w i c else None)" for i c
    using item_insert_row_end [OF wf, of i c] rc by simp
  have "load_row w (length t, r) =
          set_item (length t) 2 (show_int (row_price r)) (set_item (length t) 1 (row_label r)
            (set_item (length t) 0 (show_int (row_id r)) ?w1))"
    by (simp add: load_row_def row_texts_def numeral_2_eq_2)
  moreover have "row_count ?w1 = Suc (length t)" using rc by (simp add: qtable_simps)
  moreover have "col_count ?w1 = 3" using cc by (simp add: qtable_simps)
  ultimately show ?thesis
    using assms wf1 g old
    by (auto simp: shows_table_def qtable_simps nth_append row_texts_def less_Suc_eq
                   less_Suc_eq [of _ 2, unfolded numeral_2_eq_2] numeral_3_eq_3)
qed

lemma load_rows_shows:
  assumes "wf_table w" "col_count w = 3"
  shows "shows_table (foldl load_row (set_row_count_zero w) (enumerate 0 t)) t"
proof (induction t rule: rev_induct)
  case Nil
  then show ?case using assms by (simp add: shows_table_def qtable_simps)
next
  case (snoc r t)
  then show ?case by (simp add: enumerate_append_eq load_row_shows)
qed

section \<open>The dialog invariant\<close>

lemma db_set_same [simp]: "db_set k (db_table k db) db = db"
  by (cases k) (simp_all add: db_table_def db_set_def)

lemma dlg_tab_update_compose [simp]:
  "dlg_tab_update k f (dlg_tab_update k g d) = dlg_tab_update k (f \<circ> g) d"
  by (cases k) (simp_all add: dlg_tab_update_def)

lemma dlg_tab_update_db:
  "dlg_tab_update k f (d\<lparr>dlg_db := db\<rparr>) = (dlg_tab_update k f d)\<lparr>dlg_db := db\<rparr>"
  by (cases k) (simp_all add: dlg_tab_update_def)

lemma spin_clamp_range: "0 \<le> spin_clamp v \<and> spin_clamp v \<le> 1000000"
  by (simp add: spin_clamp_def)

lemma tab_ok_shows: "tab_ok tb t \<Longrightarrow> wf_table (tab_table tb) \<and> col_count (tab_table tb) = 3"
  by (simp add: tab_ok_def shows_table_def)

lemma tab_ok_reload:
  "tab_ok tb t \<Longrightarrow> 0 \<le> p \<Longrightarrow> p \<le> 1000000 \<Longrightarrow>
   tab_ok (tb\<lparr>tab_table := foldl load_row (set_row_count_zero (tab_table tb)) (enumerate 0 t'),
             tab_selected := None, tab_label := l, tab_price := p\<rparr>) t'"
  using tab_ok_shows [of tb t] load_rows_shows [of "tab_table tb" t'] by (simp add: tab_ok_def)

lemma dialog_ok_kind:
  assumes "dialog_ok d" "table_ok t" "tab_ok (f (dlg_tab k d)) t"
  shows "dialog_ok ((dlg_tab_update k f d)\<lparr>dlg_db := db_set k t (dlg_db d)\<rparr>)"
proof -
  have "table_ok (db_table k' (db_set k t (dlg_db d))) \<and>
        tab_ok (dlg_tab k' (dlg_tab_update k f d)) (db_table k' (db_set k t (dlg_db d)))" for k'
    using assms by (cases "k' = k") (auto simp: dialog_ok_def db_ok_def)
  then show ?thesis by (simp add: dialog_ok_def db_ok_def)
qed

lemma dialog_ok_tab:
  "dialog_ok d \<Longrightarrow> tab_ok (f (dlg_tab k d)) (db_table k (dlg_db d)) \<Longrightarrow> dialog_ok (dlg_tab_update k f d)"
  using dialog_ok_kind [of d "db_table k (dlg_db d)" f k] by (simp add: dialog_ok_def db_ok_def)

lemma dialog_ok_tables:
  "dialog_ok d \<Longrightarrow> table_ok (db_table k (dlg_db d)) \<and> tab_ok (dlg_tab k d) (db_table k (dlg_db d))"
  by (simp add: dialog_ok_def db_ok_def)

lemma add_entry_ok: "dialog_ok d \<Longrightarrow> dialog_ok (add_entry k io d)"
proof -
  assume ok: "dialog_ok d"
  let ?tb = "dlg_tab k d" and ?t = "db_table k (dlg_db d)"
  have t: "table_ok ?t" and tb: "tab_ok ?tb ?t" using dialog_ok_tables [OF ok] by blast+
  have p: "0 \<le> tab_price ?tb" "tab_price ?tb \<le> 1000000" using tb by (simp_all add: tab_ok_def)
  show ?thesis
  proof (cases "tab_label ?tb \<noteq> [] \<and> tab_price ?tb \<noteq> 0 \<and> io = IoOk")
    case True
    then have "table_ok (sql_insert (tab_label ?tb) (tab_price ?tb) ?t)"
      using t p by (intro table_ok_insert) auto
    with True ok tb show ?thesis
      by (auto simp: add_entry_def load_kind_def Let_def dlg_tab_update_db spin_clamp_def
               intro!: dialog_ok_kind tab_ok_reload [simplified])
  next
    case False
    with ok show ?thesis by (cases io) (auto simp: add_entry_def Let_def)
  qed
qed

lemma add_entry_db:
  "tab_label (dlg_tab k d) \<noteq> [] \<Longrightarrow> tab_price (dlg_tab k d) \<noteq> 0 \<Longrightarrow>
   db_table k (dlg_db (add_entry k IoOk d)) =
     sql_insert (tab_label (dlg_tab k d)) (tab_price (dlg_tab k d)) (db_table k (dlg_db d))"
  by (simp add: add_entry_def Let_def)

lemma delete_entry_ok: "dialog_ok d \<Longrightarrow> dialog_ok (delete_entry k io d)"
proof -
  assume ok: "dialog_ok d"
  let ?tb = "dlg_tab k d" and ?t = "db_table k (dlg_db d)"
  have t: "table_ok ?t" and tb: "tab_ok ?tb ?t" using dialog_ok_tables [OF ok] by blast+
  have "table_ok (sql_delete s ?t)" for s using t by (rule table_ok_delete)
  moreover have "wf_table (tab_table ?tb)" "col_count (tab_table ?tb) = 3" using tab_ok_shows [OF tb] by blast+
  ultimately show ?thesis using ok tb
    by (auto simp: delete_entry_def load_kind_def Let_def dlg_tab_update_db tab_ok_def load_rows_shows
             split: option.split io_result.split
             intro!: dialog_ok_kind)
qed

lemma dialog_step_ok: "dialog_ok d \<Longrightarrow> (\<And>k r c s. e \<noteq> EditCell k r c s) \<Longrightarrow> dialog_ok (dialog_step d e)"
proof (cases e)
  case (AddPressed k io)
  assume "dialog_ok d" then show ?thesis using AddPressed by (simp add: add_entry_ok)
next
  case (DeletePressed k io)
  assume "dialog_ok d" then show ?thesis using DeletePressed by (simp add: delete_entry_ok)
next
  case (TypeLabel k s)
  assume ok: "dialog_ok d"
  then show ?thesis using TypeLabel dialog_ok_tables [OF ok, of k]
    by (auto intro!: dialog_ok_tab simp: tab_ok_def)
next
  case (SetPrice k v)
  assume ok: "dialog_ok d"
  then show ?thesis using SetPrice dialog_ok_tables [OF ok, of k] spin_clamp_range [of v]
    by (auto intro!: dialog_ok_tab simp: tab_ok_def)
next
  case (SelectRow k r)
  assume ok: "dialog_ok d"
  then show ?thesis using SelectRow dialog_ok_tables [OF ok, of k]
    by (auto intro!: dialog_ok_tab simp: tab_ok_def shows_table_def split: option.split)
next
  case (EditCell k r c s)
  assume "\<And>k r c s. e \<noteq> EditCell k r c s"
  with EditCell show ?thesis by blast
qed

lemma load_kind_ok:
  "tab_ok (dlg_tab k d) t \<Longrightarrow> tab_ok (dlg_tab k (load_kind k d)) (db_table k (dlg_db d))"
  using tab_ok_reload [where tb = "dlg_tab k d" and t = t and p = "tab_price (dlg_tab k d)"
                       and t' = "db_table k (dlg_db d)" and l = "tab_label (dlg_tab k d)"]
  by (simp add: load_kind_def tab_ok_def)

lemma dialog_init_ok: "db_ok db \<Longrightarrow> dialog_ok (dialog_init db)"
proof -
  assume db: "db_ok db"
  let ?d0 = "\<lparr>dlg_db = db, factory_tab = empty_tab, address_tab = empty_tab, zone_tab = empty_tab\<rparr>"
  have e: "tab_ok (dlg_tab k ?d0) []" for k
    by (cases k) (simp_all add: tab_ok_def empty_tab_def shows_table_def dlg_tab_def)
  have l: "tab_ok (dlg_tab k (load_kind k d)) (db_table k db)" if "tab_ok (dlg_tab k d) []" "dlg_db d = db" for k d
    using load_kind_ok [OF that(1)] that(2) by simp
  have "tab_ok (dlg_tab k (dialog_init db)) (db_table k db)" for k
    by (cases k) (simp_all add: dialog_init_def l e)
  with db show ?thesis by (simp add: dialog_ok_def dialog_init_def)
qed

section \<open>The invariant that survives cell edits\<close>

lemma tab_ok_shape: "tab_ok tb t \<Longrightarrow> tab_shape tb t"
  by (simp add: tab_ok_def tab_shape_def shows_table_def)

lemma dialog_ok_shape: "dialog_ok d \<Longrightarrow> dialog_shape_ok d"
  by (simp add: dialog_ok_def dialog_shape_ok_def tab_ok_shape)

lemma dialog_shape_tables:
  "dialog_shape_ok d \<Longrightarrow> table_ok (db_table k (dlg_db d)) \<and> tab_shape (dlg_tab k d) (db_table k (dlg_db d))"
  by (simp add: dialog_shape_ok_def db_ok_def)

lemma dialog_shape_kind:
  assumes "dialog_shape_ok d" "table_ok t" "tab_shape (f (dlg_tab k d)) t"
  shows "dialog_shape_ok ((dlg_tab_update k f d)\<lparr>dlg_db := db_set k t (dlg_db d)\<rparr>)"
proof -
  have "table_ok (db_table k' (db_set k t (dlg_db d))) \<and>
        tab_shape (dlg_tab k' (dlg_tab_update k f d)) (db_table k' (db_set k t (dlg_db d)))" for k'
    using assms by (cases "k' = k") (auto simp: dialog_shape_ok_def db_ok_def)
  then show ?thesis by (simp add: dialog_shape_ok_def db_ok_def)
qed

lemma dialog_shape_tab:
  "dialog_shape_ok d \<Longrightarrow> tab_shape (f (dlg_tab k d)) (db_table k (dlg_db d)) \<Longrightarrow> dialog_shape_ok (dlg_tab_update k f d)"
  using dialog_shape_kind [of d "db_table k (dlg_db d)" f k] by (simp add: dialog_shape_ok_def db_ok_def)

lemma tab_shape_reload:
  "tab_shape tb t \<Longrightarrow> 0 \<le> p \<Longrightarrow> p \<le> 1000000 \<Longrightarrow>
   tab_shape (tb\<lparr>tab_table := foldl load_row (set_row_count_zero (tab_table tb)) (enumerate 0 t'),
               tab_selected := None, tab_label := l, tab_price := p\<rparr>) t'"
  using load_rows_shows [of "tab_table tb" t'] by (simp add: tab_shape_def shows_table_def)

lemma add_entry_shape: "dialog_shape_ok d \<Longrightarrow> dialog_shape_ok (add_entry k io d)"
proof -
  assume ok: "dialog_shape_ok d"
  let ?tb = "dlg_tab k d" and ?t = "db_table k (dlg_db d)"
  have t: "table_ok ?t" and tb: "tab_shape ?tb ?t" using dialog_shape_tables [OF ok] by blast+
  have p: "0 \<le> tab_price ?tb" "tab_price ?tb \<le> 1000000" using tb by (simp_all add: tab_shape_def)
  show ?thesis
  proof (cases "tab_label ?tb \<noteq> [] \<and> tab_price ?tb \<noteq> 0 \<and> io = IoOk")
    case True
    then have "table_ok (sql_insert (tab_label ?tb) (tab_price ?tb) ?t)"
      using t p by (intro table_ok_insert) auto
    with True ok tb show ?thesis
      by (auto simp: add_entry_def load_kind_def Let_def dlg_tab_update_db spin_clamp_def
               intro!: dialog_shape_kind tab_shape_reload [simplified])
  next
    case False
    with ok show ?thesis by (cases io) (auto simp: add_entry_def Let_def)
  qed
qed

lemma delete_entry_shape: "dialog_shape_ok d \<Longrightarrow> dialog_shape_ok (delete_entry k io d)"
proof -
  assume ok: "dialog_shape_ok d"
  let ?tb = "dlg_tab k d" and ?t = "db_table k (dlg_db d)"
  have t: "table_ok ?t" and tb: "tab_shape ?tb ?t" using dialog_shape_tables [OF ok] by blast+
  have "table_ok (sql_delete s ?t)" for s using t by (rule table_ok_delete)
  then show ?thesis using ok tb
    by (auto simp: delete_entry_def load_kind_def Let_def dlg_tab_update_db tab_shape_def
                   load_rows_shows [THEN shows_table_def [THEN iffD1]]
             split: option.split io_result.split
             intro!: dialog_shape_kind)
qed

lemma dialog_step_shape: "dialog_shape_ok d \<Longrightarrow> dialog_shape_ok (dialog_step d e)"
proof (cases e)
  case (AddPressed k io)
  assume "dialog_shape_ok d" then show ?thesis using AddPressed by (simp add: add_entry_shape)
next
  case (DeletePressed k io)
  assume "dialog_shape_ok d" then show ?thesis using DeletePressed by (simp add: delete_entry_shape)
next
  case (TypeLabel k s)
  assume ok: "dialog_shape_ok d"
  then show ?thesis using TypeLabel dialog_shape_tables [OF ok, of k]
    by (auto intro!: dialog_shape_tab simp: tab_shape_def)
next
  case (SetPrice k v)
  assume ok: "dialog_shape_ok d"
  then show ?thesis using SetPrice dialog_shape_tables [OF ok, of k] spin_clamp_range [of v]
    by (auto intro!: dialog_shape_tab simp: tab_shape_def)
next
  case (SelectRow k r)
  assume ok: "dialog_shape_ok d"
  then show ?thesis using SelectRow dialog_shape_tables [OF ok, of k]
    by (auto intro!: dialog_shape_tab simp: tab_shape_def split: option.split)
next
  case (EditCell k r c s)
  assume ok: "dialog_shape_ok d"
  then show ?thesis using EditCell dialog_shape_tables [OF ok, of k]
    by (auto intro!: dialog_shape_tab simp: tab_shape_def qtable_simps)
qed



section \<open>initDatabase\<close>

lemma table_ok_Nil [simp]: "table_ok []"
  by (simp add: table_ok_def)

lemma table_ok_seeds: "table_ok (insert_many factory_seeds [])"
  by (simp add: insert_many_def factory_seeds_def table_ok_insert)

lemma initDatabase_ok: "file_ok f \<Longrightarrow> db_ok (initDatabase f)"
  unfolding file_ok_def db_ok_def initDatabase_def Let_def
  by (auto simp: db_table_def table_ok_seeds split: option.split ref_kind.split)

section \<open>Properties of the store and the dialog\<close>

text \<open>C10. Every state of the reference data dialog reachable from opening it, by any sequence of typing, price setting, selection, add, delete and editing of table cells, keeps the store invariant (in each table the ids positive and strictly increasing in rowid order, the labels non-empty, the prices in 1..1000000) and the shape of each tab (a 3-column table widget with one row per table row, the spin box in range, a selection naming an existing row).  That the widget shows the texts of its table holds after each reload (\<open>add_entry_refines\<close>, \<open>delete_entry_refines\<close>) but not in general: the user can retype any cell.\<close>

theorem dialog_reachable_ok: "dialog_reachable d \<Longrightarrow> dialog_shape_ok d"
  by (induction rule: dialog_reachable.induct)
     (auto intro: dialog_ok_shape dialog_init_ok initDatabase_ok dialog_step_shape)

lemma file_ok_no_file: "file_ok no_file"
  by (simp add: file_ok_def no_file_def)

theorem dialog_reachable_ok_witness:
  "dialog_shape_ok (dialog_step (dialog_step (dialog_init (initDatabase no_file)) (EditCell Zones 0 0 ''x''))
     (AddPressed Zones IoOk))"
  using dialog_reachable_ok [OF dialog_reachable.step [OF dialog_reachable.step
          [OF dialog_reachable.open_dialog [OF file_ok_no_file]]]] .

text \<open>C33. When the factories table already has rows, initDatabase keeps them as they are: the seeds are inserted only into an empty table.\<close>

theorem initDatabase_keeps:
  "file_factories f = Some t \<Longrightarrow> t \<noteq> [] \<Longrightarrow> factories (initDatabase f) = t"
  by (simp add: initDatabase_def)

theorem initDatabase_keeps_witness:
  "factories (initDatabase (no_file\<lparr>file_factories := Some [\<lparr>row_id = 9, row_label = ''X'', row_price = 1\<rparr>]\<rparr>)) =
     [\<lparr>row_id = 9, row_label = ''X'', row_price = 1\<rparr>]"
  by (rule initDatabase_keeps) simp_all

text \<open>C11. Pressing Add with a name and a non-zero price refines the specification's add: the abstract map of the table gains the fresh id one past the largest, bound to (name, price); the other tables are unchanged; the widget shows the new table, and the name and price fields are cleared.\<close>

theorem add_entry_refines:
  assumes ok: "dialog_ok d" and g: "tab_label (dlg_tab k d) \<noteq> []" "tab_price (dlg_tab k d) \<noteq> 0"
  shows "db_abs (db_table k (dlg_db (add_entry k IoOk d))) =
           (db_abs (db_table k (dlg_db d)))(next_rowid (db_table k (dlg_db d)) \<mapsto>
              (tab_label (dlg_tab k d), tab_price (dlg_tab k d))) \<and>
         next_rowid (db_table k (dlg_db d)) \<notin> dom (db_abs (db_table k (dlg_db d))) \<and>
         (\<forall>k'. k' \<noteq> k \<longrightarrow> db_table k' (dlg_db (add_entry k IoOk d)) = db_table k' (dlg_db d)) \<and>
         shows_table (tab_table (dlg_tab k (add_entry k IoOk d))) (db_table k (dlg_db (add_entry k IoOk d))) \<and>
         tab_label (dlg_tab k (add_entry k IoOk d)) = [] \<and> tab_price (dlg_tab k (add_entry k IoOk d)) = 0"
proof -
  have "dialog_ok (add_entry k IoOk d)" using ok by (rule add_entry_ok)
  then have "shows_table (tab_table (dlg_tab k (add_entry k IoOk d))) (db_table k (dlg_db (add_entry k IoOk d)))"
    by (simp add: dialog_ok_def tab_ok_def)
  then show ?thesis using g next_rowid_fresh [of "db_table k (dlg_db d)"]
    by (simp add: add_entry_def load_kind_def Let_def db_abs_insert dom_db_abs spin_clamp_def)
qed


lemma zone_form_ok: "dialog_ok zone_form"
  using dialog_step_ok dialog_init_ok initDatabase_ok file_ok_no_file by blast

lemma zone_form_fields:
  "tab_label (dlg_tab Zones zone_form) = ''A''" "tab_price (dlg_tab Zones zone_form) = 1500"
  "db_table Zones (dlg_db zone_form) = []"
  by (simp_all add: dialog_init_def spin_clamp_def initDatabase_def no_file_def db_table_def)

theorem add_entry_refines_witness:
  "db_abs (db_table Zones (dlg_db (add_entry Zones IoOk zone_form))) = [1 \<mapsto> (''A'', 1500)]"
  using add_entry_refines [OF zone_form_ok] zone_form_fields
  by (simp add: db_abs_def next_rowid_def)

text \<open>C32. Pressing Add with an empty name or a zero price does nothing at all: no row, no reload, the fields are kept.\<close>

theorem add_entry_guard:
  "tab_label (dlg_tab k d) = [] \<or> tab_price (dlg_tab k d) = 0 \<Longrightarrow> add_entry k io d = d"
  by (auto simp: add_entry_def Let_def)

theorem add_entry_guard_witness:
  "add_entry Zones IoOk (dialog_step zone_form (SetPrice Zones (-7))) = dialog_step zone_form (SetPrice Zones (-7))"
  by (rule add_entry_guard) (simp add: spin_clamp_def)

text \<open>C12. Pressing Delete with a row selected refines the specification's remove: the abstract map loses exactly the id shown in that row, the other tables are unchanged.\<close>

theorem delete_entry_refines:
  assumes ok: "dialog_ok d" and sel: "tab_selected (dlg_tab k d) = Some i"
  shows "db_abs (db_table k (dlg_db (delete_entry k IoOk d))) =
           (db_abs (db_table k (dlg_db d)))(row_id (db_table k (dlg_db d) ! i) := None) \<and>
         (\<forall>k'. k' \<noteq> k \<longrightarrow> db_table k' (dlg_db (delete_entry k IoOk d)) = db_table k' (dlg_db d))"
proof -
  have tb: "tab_ok (dlg_tab k d) (db_table k (dlg_db d))" using dialog_ok_tables [OF ok] by blast
  then have "i < length (db_table k (dlg_db d))" using sel by (simp add: tab_ok_def)
  with tb have "item (tab_table (dlg_tab k d)) i 0 = Some (show_int (row_id (db_table k (dlg_db d) ! i)))"
    by (simp add: tab_ok_def shows_table_def row_texts_def)
  then show ?thesis using sel
    by (simp add: delete_entry_def load_kind_def Let_def db_abs_delete sql_int_text_show_int)
qed


lemma first_run_db:
  "db_table Factories (initDatabase no_file) =
     [\<lparr>row_id = 1, row_label = ''CATL'', row_price = 5000\<rparr>,
      \<lparr>row_id = 2, row_label = ''BMW'', row_price = 6000\<rparr>,
      \<lparr>row_id = 3, row_label = ''Gy'' @ [CHR 0xC3, CHR 0xA1] @ ''r 3'', row_price = 5500\<rparr>]"
  by (simp add: db_table_def initDatabase_def no_file_def insert_many_def factory_seeds_def sql_insert_def next_rowid_def)

theorem delete_entry_refines_witness:
  "db_abs (factories (dlg_db (delete_entry Factories IoOk
      (dialog_step (dialog_init (initDatabase no_file)) (SelectRow Factories (Some 1)))))) =
   [1 \<mapsto> (''CATL'', 5000), 3 \<mapsto> (''Gy'' @ [CHR 0xC3, CHR 0xA1] @ ''r 3'', 5500)]"
proof -
  let ?d0 = "dialog_init (initDatabase no_file)"
  have ok0: "dialog_ok ?d0" using dialog_init_ok initDatabase_ok file_ok_no_file by blast
  then have "row_count (tab_table (dlg_tab Factories ?d0)) = 3"
    using dialog_ok_tables [OF ok0, of Factories] first_run_db
    by (simp add: tab_ok_def shows_table_def dialog_init_def)
  then have sel: "tab_selected (dlg_tab Factories (dialog_step ?d0 (SelectRow Factories (Some 1)))) = Some 1"
    by simp
  have ok: "dialog_ok (dialog_step ?d0 (SelectRow Factories (Some 1)))" by (rule dialog_step_ok [OF ok0]) simp
  have db: "dlg_db (dialog_step ?d0 (SelectRow Factories (Some 1))) = initDatabase no_file"
    by (simp add: dialog_init_def)
  show ?thesis
    using delete_entry_refines [OF ok sel] first_run_db db
    by (simp add: db_abs_def fun_eq_iff db_table_def)
qed

text \<open>C13. Deleting an id that is not in the table leaves it unchanged, and so does deleting by a text whose value under SQLite's NUMERIC affinity is no id of the table (a non-numeric text, or a number with a fraction); Delete with no selection leaves the dialog unchanged.\<close>

theorem delete_absent_noop:
  "(x \<notin> dom (db_abs t) \<longrightarrow> sql_delete (show_int x) t = t) \<and>
   ((\<forall>r \<in> set t. sql_numeric s \<noteq> Some (of_int (row_id r))) \<longrightarrow> sql_delete s t = t) \<and>
   (tab_selected (dlg_tab k d) = None \<longrightarrow> delete_entry k io d = d)"
proof (intro conjI impI)
  show "x \<notin> dom (db_abs t) \<Longrightarrow> sql_delete (show_int x) t = t"
    by (auto simp: dom_db_abs sql_int_text_show_int sql_delete_def filter_id_conv image_iff)
  show "\<forall>r \<in> set t. sql_numeric s \<noteq> Some (of_int (row_id r)) \<Longrightarrow> sql_delete s t = t"
    by (auto simp: sql_delete_def filter_id_conv dest: sql_int_text_numeric)
  show "tab_selected (dlg_tab k d) = None \<Longrightarrow> delete_entry k io d = d"
    by (simp add: delete_entry_def)
qed

theorem delete_absent_noop_witness:
  "sql_delete (show_int 7) (db_table Factories (initDatabase no_file)) = db_table Factories (initDatabase no_file) \<and>
   sql_delete ''1.5'' (db_table Factories (initDatabase no_file)) = db_table Factories (initDatabase no_file) \<and>
   db_abs (sql_delete ''1.0'' (db_table Factories (initDatabase no_file))) 1 = None"
proof -
  have "7 \<notin> dom (db_abs (db_table Factories (initDatabase no_file)))"
    by (simp add: first_run_db db_abs_def)
  moreover have "sql_numeric ''1.5'' = Some (3 / 2)" by code_simp
  moreover have "sql_int_text ''1.0'' = Some 1" by code_simp
  ultimately show ?thesis
    using delete_absent_noop [of 7 "db_table Factories (initDatabase no_file)" "''1.5''"]
    by (simp add: first_run_db db_abs_delete)
qed

text \<open>C14. Delete takes the id from the selected row's id cell, which the user can
  edit: after retyping that cell with a text whose numeric value is an id \<open>j\<close>,
  Delete removes the record \<open>j\<close>, whatever row was selected, and the selected
  row's own record stays.\<close>

theorem delete_edited_id:
  assumes ok: "dialog_ok d" and sel: "tab_selected (dlg_tab k d) = Some i" and j: "sql_int_text s = Some j"
  shows "db_abs (db_table k (dlg_db (delete_entry k IoOk (dialog_step d (EditCell k i 0 s))))) =
           (db_abs (db_table k (dlg_db d)))(j := None)"
proof -
  have tb: "tab_ok (dlg_tab k d) (db_table k (dlg_db d))" using dialog_ok_tables [OF ok] by blast
  then have g: "in_grid (tab_table (dlg_tab k d)) i 0" and wf: "wf_table (tab_table (dlg_tab k d))"
    using sel by (simp_all add: tab_ok_def shows_table_def in_grid_def)
  then have "item (tab_table (dlg_tab k (dialog_step d (EditCell k i 0 s)))) i 0 = Some s"
    by (simp add: qtable_simps)
  then show ?thesis using sel j
    by (simp add: delete_entry_def load_kind_def Let_def db_abs_delete)
qed

theorem delete_edited_id_witness:
  "db_abs (factories (dlg_db (delete_entry Factories IoOk (dialog_step
     (dialog_step (dialog_init (initDatabase no_file)) (SelectRow Factories (Some 0)))
     (EditCell Factories 0 0 ''2.0''))))) =
   [1 \<mapsto> (''CATL'', 5000), 3 \<mapsto> (''Gy'' @ [CHR 0xC3, CHR 0xA1] @ ''r 3'', 5500)]"
proof -
  let ?d0 = "dialog_init (initDatabase no_file)"
  have ok0: "dialog_ok ?d0" using dialog_init_ok initDatabase_ok file_ok_no_file by blast
  then have "row_count (tab_table (dlg_tab Factories ?d0)) = 3"
    using dialog_ok_tables [OF ok0, of Factories] first_run_db
    by (simp add: tab_ok_def shows_table_def dialog_init_def)
  then have sel: "tab_selected (dlg_tab Factories (dialog_step ?d0 (SelectRow Factories (Some 0)))) = Some 0"
    by simp
  have ok: "dialog_ok (dialog_step ?d0 (SelectRow Factories (Some 0)))" by (rule dialog_step_ok [OF ok0]) simp
  have db: "dlg_db (dialog_step ?d0 (SelectRow Factories (Some 0))) = initDatabase no_file"
    by (simp add: dialog_init_def)
  have j: "sql_int_text ''2.0'' = Some 2" by code_simp
  show ?thesis
    using delete_edited_id [OF ok sel j] first_run_db db
    by (simp add: db_abs_def fun_eq_iff db_table_def)
qed

text \<open>C15. Ids are not stable: after the row with the largest id is deleted, the next insert is given an id no larger than the deleted one, that is, a deleted id is issued again.\<close>

theorem rowid_reused:
  assumes ok: "table_ok t" and ne: "t \<noteq> []"
  shows "next_rowid (sql_delete (show_int (row_id (last t))) t) \<le> row_id (last t)"
proof -
  let ?t' = "sql_delete (show_int (row_id (last t))) t"
  have split: "t = butlast t @ [last t]" using ne by simp
  have "sorted_wrt (<) (map row_id (butlast t @ [last t]))" using ok split by (simp add: table_ok_def)
  then have before: "\<forall>r \<in> set (butlast t). row_id r < row_id (last t)" by (simp add: sorted_wrt_append)
  have lt: "\<forall>r \<in> set ?t'. row_id r < row_id (last t)"
  proof
    fix r assume r: "r \<in> set ?t'"
    then have "r \<in> set t" "row_id r \<noteq> row_id (last t)" by (auto simp: sql_delete_def sql_int_text_show_int)
    then have "r \<in> set (butlast t)" using split by (metis Un_iff empty_iff empty_set set_ConsD set_append)
    then show "row_id r < row_id (last t)" using before by blast
  qed
  have pos: "0 < row_id (last t)" using ok ne by (simp add: table_ok_def)
  show ?thesis
  proof (cases "?t' = []")
    case True
    then show ?thesis using pos by (simp add: next_rowid_def)
  next
    case False
    then have "Max (set (map row_id ?t')) < row_id (last t)" using lt by simp
    moreover have "next_rowid ?t' = Max (set (map row_id ?t')) + 1"
      unfolding next_rowid_def using False by (rule if_not_P)
    ultimately show ?thesis by linarith
  qed
qed

theorem rowid_reused_witness:
  "next_rowid (sql_delete (show_int 3) (db_table Factories (initDatabase no_file))) = 3"
proof -
  have ok: "table_ok (db_table Factories (initDatabase no_file))"
    using initDatabase_ok [OF file_ok_no_file] by (simp add: db_ok_def)
  have "row_id (last (db_table Factories (initDatabase no_file))) = 3" by (simp add: first_run_db)
  moreover have "3 \<le> next_rowid (sql_delete (show_int 3) (db_table Factories (initDatabase no_file)))"
    by (simp add: first_run_db sql_delete_def sql_int_text_show_int next_rowid_def)
  ultimately show ?thesis using rowid_reused [OF ok] by (simp add: first_run_db)
qed

end
