(* ===== verification/System.thy ===== *)
theory System
  imports Excel RefData "HOL-Library.Stream"
begin

text \<open>
  The program as a whole: the state \<open>fuvar_system\<close> of the main window, the
  database and the saved workbook; the user's events and the step function
  \<open>sys_step\<close> that wires each button, menu action and the volume field's Enter
  to its handler (\<open>setupButtons\<close>, \<open>MenuBar\<close>, \<open>openDatabaseManager\<close>,
  \<open>printData\<close>) and applies the user's edits of the editable ledger cells; the runs
  \<open>sys_reachable\<close> and their invariants \<open>sys_shape_ok\<close> (every run) and \<open>sys_ok\<close>
  (runs that leave the dates alone, \<open>run_ok\<close>); and the
  \<open>__main__\<close> block, Qt's event loop over a stream of events.  The lemmas are
  the per-event facts the program-level theorems of the root theory are built from.
\<close>

section \<open>The program as a whole\<close>

text \<open>The program's state: the main window, the database \<open>fuvarok.db\<close>, the
  factory combo's items (read once, by \<open>loadFactories\<close> in \<open>setupTopFrame\<close>),
  and the file \<open>munka_nyilvantartas.xlsx\<close> as last written in this run.\<close>

record fuvar_system =
  sys_app :: app
  sys_db :: ref_db
  sys_factory_items :: "string list"
  sys_file :: "workbook option"

text \<open>The items of \<open>type_combo\<close> (\<open>setupTopFrame\<close>, line 192).\<close>

definition work_types :: "string list" where
  "work_types = [''Sima munkanap'', ''M'' @ [CHR 0xC5, CHR 0xB1] @ ''hely nap'', ''Szabads'' @ [CHR 0xC3, CHR 0xA1] @ ''g'',
                 ''Betegszabads'' @ [CHR 0xC3, CHR 0xA1] @ ''g (TP)'']"

text \<open>\<open>FuvarAdminApp.__init__\<close>: \<open>initDatabase\<close>, then \<open>initUI\<close>, whose
  \<open>setupTopFrame\<close> reads the factory names.\<close>

definition sys_init :: "qdate \<Rightarrow> ref_file \<Rightarrow> fuvar_system" where
  "sys_init today f =
     (let db = initDatabase f; names = factory_names db in
      \<lparr>sys_app = fst (app_init today names), sys_db = db, sys_factory_items = names, sys_file = None\<rparr>)"

text \<open>What the user can do: edit the widgets of the top frame, press Enter in the
  volume field, press the buttons of the bottom row (\<open>setupButtons\<close>), and choose
  the menu items (\<open>MenuBar\<close>); \<open>ManageDatabase\<close> is a whole session of the
  modal \<open>DatabaseManager\<close> dialog (\<open>openDatabaseManager\<close>, \<open>exec_()\<close>);
  \<open>PrintMenu\<close> carries whether the print dialog was accepted; \<open>QuitPressed\<close> is the
  quit button or menu item (\<open>self.close\<close>), which ends the event loop.
  \<open>EditWorkCell r c v\<close> and \<open>EditDeliveryCell r c v\<close> are the user retyping cell
  \<open>(r, c)\<close> of \<open>work_table\<close> or \<open>delivery_table\<close>: the tables are created without
  \<open>setEditTriggers\<close>, so Qt's default triggers make every item editable, and an
  edit commits \<open>setText\<close> on the item (or a new item on an empty cell).\<close>

datatype app_event =
    SetDate qdate
  | SetStartTime qtime
  | SetEndTime qtime
  | SelectType nat
  | SelectBand nat
  | SelectFactory nat
  | TypeAddress string
  | TypeDeliveryNumber string
  | TypeM3 string
  | PressM3Enter
  | SaveWorkPressed io_result
  | SaveDeliveryPressed io_result
  | ExportPressed io_result
  | SaveMenu io_result
  | OpenMenu "(py_exc + workbook) option"
  | ManageDatabase "ref_event list"
  | PrintMenu bool
  | QuitPressed
  | EditWorkCell nat nat string
  | EditDeliveryCell nat nat string

text \<open>The events the widgets allow: a \<open>QDateEdit\<close> holds a valid date, a
  \<open>QTimeEdit\<close> a valid time, a combo box one of its items.\<close>

fun event_ok :: "fuvar_system \<Rightarrow> app_event \<Rightarrow> bool" where
  "event_ok s (SetDate d) = valid_date d"
| "event_ok s (SetStartTime t) = valid_time t"
| "event_ok s (SetEndTime t) = valid_time t"
| "event_ok s (SelectType i) = (i < length work_types)"
| "event_ok s (SelectBand i) = (i < length km_bands)"
| "event_ok s (SelectFactory i) = (i < length (sys_factory_items s))"
| "event_ok s _ = True"

text \<open>\<open>openDatabaseManager\<close>: \<open>DatabaseManager(self).exec_()\<close>, a modal session of
  the dialog on the database file; what it leaves is the file its commits wrote.\<close>

definition openDatabaseManager :: "ref_db \<Rightarrow> ref_event list \<Rightarrow> ref_db" where
  "openDatabaseManager db es = dlg_db (foldl dialog_step (dialog_init db) es)"

text \<open>\<open>printData\<close>: the print dialog is shown, and whether it is accepted or not
  the method does nothing more (its printing logic is a \<open>TODO\<close>).\<close>

definition printData :: "bool \<Rightarrow> fuvar_system \<Rightarrow> fuvar_system" where
  "printData accepted s = s"

definition sys_save :: "(app \<Rightarrow> app \<times> workbook option) \<Rightarrow> fuvar_system \<Rightarrow> fuvar_system" where
  "sys_save save s = (case save (sys_app s) of
     (a, Some wb) \<Rightarrow> s\<lparr>sys_app := a, sys_file := Some wb\<rparr>
   | (a, None) \<Rightarrow> s\<lparr>sys_app := a\<rparr>)"

fun sys_step :: "fuvar_system \<Rightarrow> app_event \<Rightarrow> fuvar_system" where
  "sys_step s (SetDate d) = s\<lparr>sys_app := (sys_app s)\<lparr>date_edit := d\<rparr>\<rparr>"
| "sys_step s (SetStartTime t) = s\<lparr>sys_app := (sys_app s)\<lparr>start_time := t\<rparr>\<rparr>"
| "sys_step s (SetEndTime t) = s\<lparr>sys_app := (sys_app s)\<lparr>end_time := t\<rparr>\<rparr>"
| "sys_step s (SelectType i) = s\<lparr>sys_app := (sys_app s)\<lparr>type_combo := work_types ! i\<rparr>\<rparr>"
| "sys_step s (SelectBand i) = s\<lparr>sys_app := (sys_app s)\<lparr>km_combo := km_bands ! i\<rparr>\<rparr>"
| "sys_step s (SelectFactory i) = s\<lparr>sys_app := (sys_app s)\<lparr>factory_combo := sys_factory_items s ! i\<rparr>\<rparr>"
| "sys_step s (TypeAddress a) = s\<lparr>sys_app := (sys_app s)\<lparr>address_input := a\<rparr>\<rparr>"
| "sys_step s (TypeDeliveryNumber n) = s\<lparr>sys_app := (sys_app s)\<lparr>delivery_input := n\<rparr>\<rparr>"
| "sys_step s (TypeM3 m) = s\<lparr>sys_app := (sys_app s)\<lparr>m3_input := m\<rparr>\<rparr>"
| "sys_step s PressM3Enter = s\<lparr>sys_app := handleM3Input (sys_app s)\<rparr>"
| "sys_step s (SaveWorkPressed io) = s\<lparr>sys_app := saveWorkHours io (sys_app s)\<rparr>"
| "sys_step s (SaveDeliveryPressed io) = s\<lparr>sys_app := saveDeliveryData io (sys_app s)\<rparr>"
| "sys_step s (ExportPressed io) = sys_save (exportToExcel io) s"
| "sys_step s (SaveMenu io) = sys_save (saveToExcel io) s"
| "sys_step s (OpenMenu c) = s\<lparr>sys_app := openExcel c (sys_app s)\<rparr>"
| "sys_step s (ManageDatabase es) = s\<lparr>sys_db := openDatabaseManager (sys_db s) es\<rparr>"
| "sys_step s (PrintMenu accepted) = printData accepted s"
| "sys_step s QuitPressed = s"
| "sys_step s (EditWorkCell r c v) =
     s\<lparr>sys_app := (sys_app s)\<lparr>work_table := set_item r c v (work_table (sys_app s))\<rparr>\<rparr>"
| "sys_step s (EditDeliveryCell r c v) =
     s\<lparr>sys_app := (sys_app s)\<lparr>delivery_table := set_item r c v (delivery_table (sys_app s))\<rparr>\<rparr>"

text \<open>An edit of column 0, where \<open>setupTableRows\<close> wrote the dates the handlers
  search for.\<close>

fun edits_dates :: "app_event \<Rightarrow> bool" where
  "edits_dates (EditWorkCell r c v) = (c = 0)"
| "edits_dates (EditDeliveryCell r c v) = (c = 0)"
| "edits_dates _ = False"

text \<open>The states of a run started on \<open>today\<close> with a database file the program
  could have written.\<close>

inductive sys_reachable :: "qdate \<Rightarrow> fuvar_system \<Rightarrow> bool" for today where
  start: "valid_date today \<Longrightarrow> file_ok f \<Longrightarrow> sys_reachable today (sys_init today f)"
| step: "sys_reachable today s \<Longrightarrow> event_ok s e \<Longrightarrow> sys_reachable today (sys_step s e)"

text \<open>The invariants of a run: the inputs the widgets and the dialog keep valid; the
  shape of the two month ledgers, which every run keeps; and the dated ledgers,
  which a run keeps as long as the user leaves column 0 alone.\<close>

definition sys_inputs_ok :: "fuvar_system \<Rightarrow> bool" where
  "sys_inputs_ok s \<longleftrightarrow> db_ok (sys_db s) \<and>
     valid_time (start_time (sys_app s)) \<and> valid_time (end_time (sys_app s)) \<and>
     km_combo (sys_app s) \<in> set km_bands"

definition sys_shape_ok :: "qdate \<Rightarrow> fuvar_system \<Rightarrow> bool" where
  "sys_shape_ok today s \<longleftrightarrow> valid_date today \<and> ledger_shape today (sys_app s) \<and> sys_inputs_ok s"

definition sys_ok :: "qdate \<Rightarrow> fuvar_system \<Rightarrow> bool" where
  "sys_ok today s \<longleftrightarrow> valid_date today \<and> ledger_ok today (sys_app s) \<and> sys_inputs_ok s"

text \<open>A sequence of events the widgets allow, none of which retypes a date.\<close>

fun run_ok :: "fuvar_system \<Rightarrow> app_event list \<Rightarrow> bool" where
  "run_ok s [] = True"
| "run_ok s (e # es) = (event_ok s e \<and> \<not> edits_dates e \<and> run_ok (sys_step s e) es)"

section \<open>The main loop\<close>

text \<open>\<open>if __name__ == "__main__": window = FuvarAdminApp(); window.show();
  sys.exit(app.exec())\<close>: Qt's event loop delivers the user's events one at a time
  to the window until the quit button or the quit menu item (\<open>self.close\<close>) closes it, the last
  window, and \<open>app.exec()\<close> returns.  The user's events are an infinite stream;
  the loop is a partial function that gives \<open>None\<close> when it never returns.\<close>

fun is_quit :: "app_event \<Rightarrow> bool" where
  "is_quit QuitPressed = True"
| "is_quit _ = False"

partial_function (option) event_loop :: "fuvar_system \<Rightarrow> app_event stream \<Rightarrow> fuvar_system option" where
  "event_loop s es = (if is_quit (shd es) then Some s else event_loop (sys_step s (shd es)) (stl es))"

definition fuvar_main :: "qdate \<Rightarrow> ref_file \<Rightarrow> app_event stream \<Rightarrow> fuvar_system option" where
  "fuvar_main today f es = event_loop (sys_init today f) es"

text \<open>The handlers leave the widgets the user edits as they are.\<close>

definition same_inputs :: "app \<Rightarrow> app \<Rightarrow> bool" where
  "same_inputs a b \<longleftrightarrow> start_time b = start_time a \<and> end_time b = end_time a \<and> km_combo b = km_combo a"

text \<open>A run of the event loop on finitely many events, one \<open>sys_step\<close> each.\<close>

definition sys_run :: "fuvar_system \<Rightarrow> app_event list \<Rightarrow> fuvar_system" where
  "sys_run s es = foldl sys_step s es"

lemma sys_run_simps [simp]:
  "sys_run s [] = s"
  "sys_run s (e # es) = sys_run (sys_step s e) es"
  "sys_run s (es1 @ es2) = sys_run (sys_run s es1) es2"
  by (simp_all add: sys_run_def)

lemma setupTableRows_fields:
  "date_edit (fst (setupTableRows today s)) = date_edit s \<and>
   start_time (fst (setupTableRows today s)) = start_time s \<and>
   end_time (fst (setupTableRows today s)) = end_time s \<and>
   km_combo (fst (setupTableRows today s)) = km_combo s \<and>
   factory_combo (fst (setupTableRows today s)) = factory_combo s \<and>
   m3_values (fst (setupTableRows today s)) = m3_values s"
  by (simp add: setupTableRows_def split: prod.split option.split)

lemma km_bands_hd: "hd km_bands \<in> set km_bands"
  by (rule hd_in_set) (simp add: km_bands_def)

lemma sys_init_ok: "valid_date today \<Longrightarrow> file_ok f \<Longrightarrow> sys_ok today (sys_init today f)"
  using app_init_ok [of today] initDatabase_ok [of f] setupTableRows_fields km_bands_hd
  by (simp add: sys_ok_def sys_inputs_ok_def sys_init_def app_init_def fresh_window_def valid_time_def Let_def)

lemma sys_ok_shape: "sys_ok today s \<Longrightarrow> sys_shape_ok today s"
  by (simp add: sys_ok_def sys_shape_ok_def ledger_ok_shape)

lemma show_notice_frame [simp]: "ledger_frame a (show_notice n a)"
  by (simp add: ledger_frame_def show_notice_def)

lemma sys_save_notice:
  assumes "\<And>a. \<exists>n. fst (save a) = show_notice n a"
  shows "\<exists>n. sys_app (sys_save save s) = show_notice n (sys_app s) \<and> sys_db (sys_save save s) = sys_db s"
proof -
  obtain n where n: "fst (save (sys_app s)) = show_notice n (sys_app s)" using assms by blast
  then show ?thesis by (cases "save (sys_app s)"; cases "snd (save (sys_app s))") (auto simp: sys_save_def)
qed

lemma exportToExcel_notice: "\<exists>n. fst (exportToExcel io a) = show_notice n a"
  by (cases io) (auto simp: exportToExcel_def)

lemma saveToExcel_notice: "\<exists>n. fst (saveToExcel io a) = show_notice n a"
  by (cases io) (auto simp: saveToExcel_def)

lemma dialog_session_ok: "db_ok db \<Longrightarrow> db_ok (openDatabaseManager db es)"
proof -
  assume "db_ok db"
  then have "dialog_shape_ok (dialog_init db)" by (intro dialog_ok_shape dialog_init_ok)
  then have "dialog_shape_ok (foldl dialog_step (dialog_init db) es)"
    by (induction es rule: rev_induct) (simp_all add: dialog_step_shape)
  then show ?thesis by (simp add: dialog_shape_ok_def openDatabaseManager_def)
qed

lemma same_inputs_notice [simp]: "same_inputs a (show_notice n b) = same_inputs a b"
  by (simp add: same_inputs_def show_notice_def)

lemma updateDeliveryTable_inputs: "same_inputs a (fst (updateDeliveryTable w a))"
  by (simp add: updateDeliveryTable_def same_inputs_def Let_def split: prod.split)

lemma handleM3Input_inputs: "same_inputs a (handleM3Input a)"
  using updateDeliveryTable_inputs
  by (auto simp: handleM3Input_def Let_def same_inputs_def show_notice_def case_prod_beta
           split: option.split prod.split py_exc.split)

lemma saveWorkHours_inputs: "same_inputs a (saveWorkHours io a)"
  by (simp add: saveWorkHours_def Let_def same_inputs_def show_notice_def split: option.split prod.split io_result.split)

lemma saveDeliveryData_inputs: "same_inputs a (saveDeliveryData io a)"
  by (simp add: saveDeliveryData_def Let_def same_inputs_def case_prod_beta show_notice_def split: option.split io_result.split)

lemma openExcel_inputs: "same_inputs a (openExcel c a)"
  by (simp add: openExcel_def loadDataFromExcel_def Let_def same_inputs_def case_prod_beta show_notice_def
           split: option.split sum.split)

lemmas handler_inputs = handleM3Input_inputs saveWorkHours_inputs saveDeliveryData_inputs openExcel_inputs

lemma sys_step_inputs:
  assumes "sys_inputs_ok s" and "event_ok s e"
  shows "sys_inputs_ok (sys_step s e)"
  using assms
proof (cases e)
  case (ExportPressed io)
  then show ?thesis using assms sys_save_notice [of "exportToExcel io" s, OF exportToExcel_notice]
    by (auto simp: sys_inputs_ok_def show_notice_def)
next
  case (SaveMenu io)
  then show ?thesis using assms sys_save_notice [of "saveToExcel io" s, OF saveToExcel_notice]
    by (auto simp: sys_inputs_ok_def show_notice_def)
qed (auto simp: sys_inputs_ok_def printData_def dialog_session_ok handler_inputs [unfolded same_inputs_def])

text \<open>Every event but an edit of column 0 keeps the rows, the column counts and
  the dates of both ledgers.\<close>

lemma sys_step_frame: "\<not> edits_dates e \<Longrightarrow> ledger_frame (sys_app s) (sys_app (sys_step s e))"
proof (cases e)
  case (ExportPressed io)
  then show ?thesis using sys_save_notice [of "exportToExcel io" s, OF exportToExcel_notice] by auto
next
  case (SaveMenu io)
  then show ?thesis using sys_save_notice [of "saveToExcel io" s, OF saveToExcel_notice] by auto
qed (auto simp: ledger_frame_def col0_frame_set_item printData_def handleM3Input_frame saveWorkHours_frame
                saveDeliveryData_frame openExcel_frame [unfolded ledger_frame_def]
                handleM3Input_frame [unfolded ledger_frame_def] saveWorkHours_frame [unfolded ledger_frame_def]
                saveDeliveryData_frame [unfolded ledger_frame_def])

lemma keyed_set_item: "keyed_table n m t \<Longrightarrow> keyed_table n m (set_item r c v t)"
  by (simp add: keyed_table_def qtable_simps)

lemma sys_step_shape:
  assumes "ledger_shape today (sys_app s)"
  shows "ledger_shape today (sys_app (sys_step s e))"
proof (cases "edits_dates e")
  case True
  then show ?thesis using assms
    by (cases e) (auto simp: ledger_shape_def keyed_set_item)
next
  case False
  then show ?thesis using assms by (blast intro: ledger_frame_shape sys_step_frame)
qed

lemma sys_step_ok: "sys_ok today s \<Longrightarrow> event_ok s e \<Longrightarrow> \<not> edits_dates e \<Longrightarrow> sys_ok today (sys_step s e)"
  by (simp add: sys_ok_def sys_step_inputs ledger_frame_ok [OF _ sys_step_frame])

lemma sys_step_shape_ok: "sys_shape_ok today s \<Longrightarrow> event_ok s e \<Longrightarrow> sys_shape_ok today (sys_step s e)"
  by (simp add: sys_shape_ok_def sys_step_inputs sys_step_shape)

lemma first_run_names: "factory_names (initDatabase no_file) = map fst factory_seeds"
  by (simp add: factory_names_def initDatabase_def no_file_def insert_many_def factory_seeds_def sql_insert_def)

lemma event_loop_first_quit:
  "is_quit (es !! n) \<Longrightarrow> \<forall>i < n. \<not> is_quit (es !! i) \<Longrightarrow>
   event_loop s es = Some (sys_run s (stake n es))"
proof (induction n arbitrary: s es)
  case 0
  then show ?case by (simp add: event_loop.simps [of s es])
next
  case (Suc n)
  have "\<not> is_quit (shd es)" using Suc.prems(2) by (metis snth.simps(1) zero_less_Suc)
  moreover have "event_loop (sys_step s (shd es)) (stl es) = Some (sys_run (sys_step s (shd es)) (stake n (stl es)))"
    using Suc.prems by (intro Suc.IH) auto
  ultimately show ?case by (simp add: event_loop.simps [of s es])
qed

lemma event_loop_returns_quit:
  "event_loop s es = Some r \<Longrightarrow> \<exists>n. is_quit (es !! n)"
proof (rule event_loop.raw_induct [where P = "\<lambda>s es r. \<exists>n. is_quit (es !! n)"])
  fix f :: "fuvar_system \<Rightarrow> app_event stream \<Rightarrow> fuvar_system option" and s es r
  assume IH: "\<And>s es r. f s es = Some r \<Longrightarrow> \<exists>n. is_quit (es !! n)"
    and eq: "(if is_quit (shd es) then Some s else f (sys_step s (shd es)) (stl es)) = Some r"
  show "\<exists>n. is_quit (es !! n)"
  proof (cases "is_quit (shd es)")
    case True
    then show ?thesis by (metis snth.simps(1))
  next
    case False
    with eq have "f (sys_step s (shd es)) (stl es) = Some r" by simp
    then obtain n where "is_quit (stl es !! n)" using IH by blast
    then show ?thesis by (metis snth.simps(2))
  qed
qed

end
