(* ===== verification/Spec2Isabelle.thy ===== *)
theory Spec2Isabelle
  imports System
begin

text \<open>
  \<^bold>\<open>A verification library for FuvarFeladat.\<close>
  The program (\<open>src/main.py\<close>, with an unused duplicate of its \<open>DatabaseManager\<close>
  class in \<open>src/database_manager.py\<close>) is a PySide6 desktop application for a
  delivery driver: a main window with a month ledger of working hours and a month
  ledger of delivered volume per distance band, an SQLite store of reference data
  edited in a dialog, and export to and import from an Excel workbook.  The library
  is a shallow embedding: each handler is a HOL function on an explicit state, each
  Python exception a value of \<open>py_exc\<close>, each loop a fold or \<open>py_for\<close>.

  \<^bold>\<open>Theories and what they model.\<close>
  \<^item> \<open>Prelude\<close>: Python's \<open>str\<close> operations (\<open>split\<close>, \<open>strip\<close>, \<open>replace\<close>, \<open>join\<close>),
    \<open>str()\<close> of integers, list indexing with \<open>IndexError\<close>, and \<open>py_for\<close>, a \<open>for\<close>
    loop whose body updates a state and may raise; the loop lemmas shared by all
    handlers (\<open>py_for_inv\<close>, \<open>py_for_fold_inv\<close>, \<open>py_for_only\<close>).
  \<^item> \<open>PyNum\<close>: \<open>int()\<close> and \<open>float()\<close> on text, following Python's grammar (sign,
    underscores, exponent, \<open>inf\<close>/\<open>nan\<close>), floats as exact rationals plus infinities
    and NaN, \<open>sum\<close>, and \<open>f"{x:.nf}"\<close> with round-half-even.
  \<^item> \<open>QtTable\<close>: the part of \<open>QTableWidget\<close> the code uses (items as optional texts,
    \<open>setItem\<close>/\<open>item\<close> ignoring indices outside the grid, \<open>insertRow\<close>, \<open>setRowCount(0)\<close>).
  \<^item> \<open>Calendar\<close>: \<open>QDate\<close> (validity, \<open>daysInMonth\<close>, \<open>addDays\<close>, \<open>dayOfWeek\<close> via a day
    number counted from 0001-01-01, \<open>toString('yyyy-MM-dd')\<close>), \<open>QTime\<close> as
    \<open>HH:mm\<close>, \<open>strptime("%H:%M")\<close> and \<open>timedelta.seconds\<close>.
  \<^item> \<open>Zone\<close>: the distance bands of \<open>km_combo\<close>, the delivery headers and
    \<open>getZoneColumn\<close> (main.py 493-499).
  \<^item> \<open>Ledger\<close>: the main window's state (record \<open>app\<close>: the two tables, the input
    widgets, the volume session \<open>m3_values\<close>, the JSON journals, the message boxes
    shown), the start-up window (\<open>fresh_window\<close>, \<open>app_init\<close>), \<open>setupTableRows\<close>,
    \<open>handleM3Input\<close> with \<open>updateDeliveryTable\<close>, \<open>saveWorkHours\<close>,
    \<open>saveDeliveryData\<close>; the ledger invariant \<open>ledger_ok\<close>; and, as a reference
    for the handlers' scan by date text, the direct date-to-row mapping
    \<open>date_row\<close>/\<open>write_by_date\<close> the specification proposes (its section 9).
  \<^item> \<open>RefData\<close>: \<open>initDatabase\<close>, the three SQLite tables as rowid-ordered row lists
    (\<open>INSERT\<close> gives max id + 1; \<open>DELETE ... WHERE id=?\<close> binds the id cell's text,
    which SQLite converts under NUMERIC affinity, \<open>sql_numeric\<close>/\<open>sql_int_text\<close>), and
    the \<open>DatabaseManager\<close> dialog (\<open>dialog_init\<close>, \<open>load_kind\<close>, \<open>add_entry\<close>,
    \<open>delete_entry\<close>, \<open>dialog_step\<close> over \<open>ref_event\<close>, with \<open>EditCell\<close> for the
    editable table cells); the abstract store \<open>db_abs\<close> (id to label and price), the
    store invariant \<open>dialog_ok\<close> that holds after each reload, and the shape invariant
    \<open>dialog_shape_ok\<close> that survives cell edits.
  \<^item> \<open>Excel\<close>: openpyxl workbooks as sheets of text cells with \<open>max_row\<close>;
    \<open>saveToExcel\<close>, \<open>exportToExcel\<close>, \<open>openExcel\<close>, \<open>loadDataFromExcel\<close>,
    \<open>loadWorkHoursRow\<close>, \<open>loadDeliveryRow\<close>; \<open>sheet_within\<close>, the shape of a
    well-formed sheet.
  \<^item> \<open>System\<close>: the program as a whole, \<open>fuvar_system\<close> (main window, database,
    the factory combo's items, the last saved workbook), its start \<open>sys_init\<close>
    (\<open>initDatabase\<close> then \<open>initUI\<close>), the user's events \<open>app_event\<close> with the
    constraints the widgets impose (\<open>event_ok\<close>), among them \<open>EditWorkCell\<close> and
    \<open>EditDeliveryCell\<close>: the ledgers are created without \<open>setEditTriggers\<close>, so the user
    can retype any cell, dates included; \<open>sys_step\<close> (with \<open>openDatabaseManager\<close>,
    \<open>printData\<close> and the quit actions), a run of finitely many events \<open>sys_run\<close>, the
    runs \<open>sys_reachable\<close>, and the \<open>__main__\<close> block: Qt's event loop \<open>event_loop\<close>
    over an infinite \<open>stream\<close> of user events, a \<open>partial_function (option)\<close> that
    returns when the window is closed (\<open>event_loop_first_quit\<close>,
    \<open>event_loop_returns_quit\<close>: it returns exactly when the stream holds a quit),
    and \<open>fuvar_main\<close>.  Three invariants: \<open>sys_inputs_ok\<close> (store, time edits, band
    selector), \<open>sys_shape_ok\<close> (with \<open>Ledger.ledger_shape\<close>: month rows, column
    counts, an item in column 0 of each row) and \<open>sys_ok\<close> (with the dated
    \<open>Ledger.ledger_ok\<close>); every event but an edit of column 0 (\<open>edits_dates\<close>)
    keeps the ledgers' column 0 (\<open>sys_step_frame\<close>, through \<open>Ledger.ledger_frame\<close>).
  \<^item> This theory: the header and the theorems about the whole program, each
    built from the lemmas of the component theories.

  \<^bold>\<open>What is proved.\<close>
  Invariants: every run, cell edits included, keeps the shape of the month ledgers
  and the inputs' invariant (\<open>sys_reachable_ok\<close>, by rule induction over
  \<open>sys_step\<close>); a run that leaves column 0 alone (\<open>run_ok\<close>) keeps the dated ledgers
  (\<open>run_keeps_dates\<close>, from the per-handler frame lemmas \<open>handleM3Input_frame\<close>,
  \<open>saveWorkHours_frame\<close>, \<open>saveDeliveryData_frame\<close>, \<open>openExcel_frame\<close>); every
  dialog state keeps the store and tab invariant (\<open>RefData.dialog_reachable_ok\<close>).
  Functional behaviour of each handler on every branch, errors included
  (\<open>Ledger\<close>, \<open>Zone\<close>).  Refinement of the specification's \<open>add\<close>/\<open>remove\<close> by the
  dialog's handlers (\<open>RefData.add_entry_refines\<close>, \<open>RefData.delete_entry_refines\<close>).
  Equivalence: the handlers' linear scan by date text runs the row body exactly
  where the direct mapping (row = day - 1) does (\<open>Ledger.scan_equals_direct\<close>).
  Liveness: in every state a dialog session can add any valid record to the store
  (\<open>dialog_can_add\<close>).  Type: every sheet the program writes is well formed
  (\<open>Excel.sheet_of_well_formed\<close>).  Round trip: export then import of the delivery
  ledger (\<open>Excel.excel_delivery_roundtrip\<close>).  Several theorems state defects of
  the code: retyping a date makes Save Delivery record nothing while it reports
  success (\<open>edited_date_loses_delivery\<close>), Delete removes the record named by an
  edited id cell (\<open>RefData.delete_edited_id\<close>), a volume entry makes the next
  delivery save fail (\<open>Ledger.m3_entry_then_save_fails\<close>), the last band is never
  recorded (\<open>Ledger.last_band_not_recorded\<close>), the work sheet does not round-trip
  (\<open>Excel.excel_work_roundtrip_shifted\<close>), ids are reused (\<open>RefData.rowid_reused\<close>),
  the factory selector goes stale (\<open>stale_factory_combo\<close>), Export overwrites the
  workbook Save wrote, dropping its delivery sheet (\<open>export_overwrites_saved_file\<close>),
  and the volume session survives a date change, so Enter, a new date and Save put
  one delivery in two rows (\<open>session_follows_date\<close>, over the run \<open>sys_run\<close>).
  Witnesses evaluate each hypothesised theorem on the start-up window of 15 April
  2024 or the first-run database.

  \<^bold>\<open>Modelling choices.\<close>  Python floats are exact rationals with infinities and NaN,
  and \<open>f"{x:.nf}"\<close> rounds the exact value half to even.  Python rounds the binary
  double nearest to the value instead, so the two print different last digits
  where a decimal tie is not exactly representable: \<open>f"{0.15:.1f}"\<close> is \<open>0.1\<close> in
  Python (the double is just below 0.15) and \<open>0.2\<close> in the model.  Signed zero and
  overflow are not modelled either.  The theorems about printed cell texts are
  therefore about the exact sums; they agree with the program wherever the sum's
  decimal expansion has no such tie.  SQLite's affinity conversion of a bound text
  is computed exactly as well; it differs from SQLite's double conversion only for
  texts with more than about 17 significant digits.  \<open>str.strip\<close> and the digits of
  \<open>int()\<close>/\<open>float()\<close> are taken over ASCII.  Texts are byte strings (UTF-8 for the
  Hungarian labels).  The outside world is a parameter: whether a file write or
  database commit succeeds (\<open>io_result\<close>), what the file dialog returns, the
  workbook read.  The JSON journals are lists of the records appended.  Workbooks
  hold text cells only, which is what the program writes.  Every loop of the
  handlers runs over a finite range, so those definitions are total by structural
  recursion; the one loop that may run forever is Qt's event loop, modelled as a
  partial function on the event stream whose value is \<open>None\<close> when the user never
  quits.  A modal dialog session (\<open>DatabaseManager.exec_()\<close>) is a finite list of
  dialog events.  A cell edit is modelled as its committed text; the editor's
  intermediate states are not observable by the handlers.

  \<^bold>\<open>Not modelled.\<close>  Layout, styling, fonts and colours, column widths and window
  titles (\<open>setupStyles\<close>, \<open>setupTableStyles\<close>, \<open>createInputGroup\<close>, the frames
  and layouts): they hold no state the handlers read; the print dialog itself
  (\<open>printData\<close> is modelled as changing nothing, which is all it does); the
  duplicate \<open>DatabaseManager\<close> of \<open>src/database_manager.py\<close>, the same methods as
  the class in \<open>main.py\<close> in another order, which nothing imports; the SQLite rowid overflow at
  \<open>2^63 - 1\<close>; workbooks with numeric or date cells written by other programs.
\<close>

text \<open>C1. Every state of a run keeps the shape of the month ledgers of the day the
  program started (\<open>setupTableRows\<close> runs once, with \<open>QDate.currentDate()\<close>;
  changing the date edit does not rebuild the tables), whatever the user types into
  the editable cells: one row per day of that month, the code's column counts, an
  item in column 0 of every row (so the handlers' \<open>item(row, 0).text()\<close> never
  raises); the reference tables keep their invariant; the time edits hold valid
  times and the band selector one of its bands.\<close>

theorem sys_reachable_ok: "sys_reachable today s \<Longrightarrow> sys_shape_ok today s"
  by (induction rule: sys_reachable.induct) (auto intro: sys_ok_shape sys_init_ok sys_step_shape_ok)

theorem sys_reachable_ok_witness:
  "sys_shape_ok (2024, 4, 15) (sys_step (sys_step (sys_init (2024, 4, 15) no_file) (EditDeliveryCell 0 0 ''x''))
     (SaveDeliveryPressed IoOk))"
proof -
  have "sys_reachable (2024, 4, 15) (sys_init (2024, 4, 15) no_file)"
    by (rule sys_reachable.start) (simp_all add: april_valid file_ok_no_file)
  then have "sys_reachable (2024, 4, 15) (sys_step (sys_init (2024, 4, 15) no_file) (EditDeliveryCell 0 0 ''x''))"
    by (rule sys_reachable.step) simp
  then have "sys_reachable (2024, 4, 15) (sys_step (sys_step (sys_init (2024, 4, 15) no_file)
               (EditDeliveryCell 0 0 ''x'')) (SaveDeliveryPressed IoOk))"
    by (rule sys_reachable.step) simp
  then show ?thesis by (rule sys_reachable_ok)
qed

text \<open>C2. A run that leaves the dates in column 0 alone keeps the dated month
  ledgers: row \<open>i\<close> of both tables still carries the date \<open>i\<close> days after the first
  of the start month, so the handlers' scan by date text finds the selected day.\<close>

theorem run_keeps_dates: "sys_ok today s \<Longrightarrow> run_ok s es \<Longrightarrow> sys_ok today (sys_run s es)"
  by (induction es arbitrary: s) (auto intro: sys_step_ok)

theorem run_keeps_dates_witness:
  "sys_ok (2024, 4, 15) (sys_run (sys_init (2024, 4, 15) no_file)
     [SelectBand 9, EditDeliveryCell 14 3 ''5.0'', PressM3Enter, SaveDeliveryPressed IoOk])"
  using run_keeps_dates [OF sys_init_ok [OF april_valid file_ok_no_file],
          of "[SelectBand 9, EditDeliveryCell 14 3 ''5.0'', PressM3Enter, SaveDeliveryPressed IoOk]"]
  by (simp add: km_bands_def)

text \<open>C3. Retyping a date loses deliveries: when the user edits the date cell of the
  selected day in the delivery ledger, Save Delivery finds no row with that date
  text and writes nothing into the ledger, yet it reports success and clears the
  volume session.\<close>

theorem edited_date_loses_delivery:
  assumes ok: "sys_ok today s"
    and r: "r < month_length today"
    and d: "date_edit (sys_app s) = add_days (first_of_month today) r"
    and w: "w \<noteq> date_string (add_days (first_of_month today) r)"
  shows "delivery_table (sys_app (sys_run s [EditDeliveryCell r 0 w, SaveDeliveryPressed IoOk])) =
           set_item r 0 w (delivery_table (sys_app s)) \<and>
         notices (sys_app (sys_run s [EditDeliveryCell r 0 w, SaveDeliveryPressed IoOk])) =
           notices (sys_app s) @ [DeliverySaved] \<and>
         m3_values (sys_app (sys_run s [EditDeliveryCell r 0 w, SaveDeliveryPressed IoOk])) = Some []"
proof -
  let ?t = "delivery_table (sys_app s)"
  let ?a1 = "(sys_app s)\<lparr>delivery_table := set_item r 0 w ?t\<rparr>"
  have v: "valid_date today" and dt: "dated_table delivery_col_count today ?t"
    using ok by (simp_all add: sys_ok_def ledger_ok_def)
  then have wf: "wf_table ?t" and g: "in_grid ?t r 0"
    using r by (simp_all add: dated_table_def in_grid_def delivery_col_count_def)
  have "\<forall>i < row_count (delivery_table ?a1). \<exists>x. item (delivery_table ?a1) i 0 = Some x \<and> x \<noteq> date_string (date_edit ?a1)"
  proof (intro allI impI)
    fix i assume "i < row_count (delivery_table ?a1)"
    then have i: "i < month_length today" using dt by (simp add: dated_table_def qtable_simps)
    show "\<exists>x. item (delivery_table ?a1) i 0 = Some x \<and> x \<noteq> date_string (date_edit ?a1)"
    proof (cases "i = r")
      case True
      then show ?thesis using wf g w d by (simp add: item_set_item)
    next
      case False
      then show ?thesis using wf dt i d month_dates_distinct [OF v i r False] by (simp add: item_set_item dated_table_def)
    qed
  qed
  then show ?thesis using saveDeliveryData_no_row [of ?a1 IoOk] by simp
qed

theorem edited_date_loses_delivery_witness:
  "delivery_table (sys_app (sys_run (sys_init (2024, 4, 15) no_file) [EditDeliveryCell 14 0 ''x'', SaveDeliveryPressed IoOk])) =
     set_item 14 0 ''x'' (delivery_table (sys_app (sys_init (2024, 4, 15) no_file)))"
proof -
  have a15: "add_days (first_of_month (2024, 4, 15)) 14 = (2024, 4, 15)"
    by (simp add: month_dates april_valid month_length_def days_in_month_def)
  have d: "date_edit (sys_app (sys_init (2024, 4, 15) no_file)) = add_days (first_of_month (2024, 4, 15)) 14"
    using setupTableRows_fields a15 by (simp add: sys_init_def app_init_def fresh_window_def Let_def)
  have "''x'' \<noteq> date_string (add_days (first_of_month (2024, 4, 15)) 14)"
    by (simp add: a15 date_string_def)
  then show ?thesis
    using edited_date_loses_delivery [OF sys_init_ok [OF april_valid file_ok_no_file] _ d]
    by (simp add: month_length_def days_in_month_def)
qed

text \<open>C20. The factory selector is not refreshed by the database dialog: after
  deleting \<open>CATL\<close> in \<open>DatabaseManager\<close> the store no longer has it, while the main
  window still lists and shows it, and a delivery saved now records it.\<close>

theorem stale_factory_combo:
  "let s = sys_step (sys_init today no_file)
             (ManageDatabase [SelectRow Factories (Some 0), DeletePressed Factories IoOk]) in
   ''CATL'' \<notin> set (factory_names (sys_db s)) \<and> factory_combo (sys_app s) = ''CATL'' \<and>
   ''CATL'' \<in> set (sys_factory_items s)"
proof -
  let ?db = "initDatabase no_file"
  let ?d0 = "dialog_init ?db"
  have ok0: "dialog_ok ?d0" using dialog_init_ok initDatabase_ok file_ok_no_file by blast
  have "db_table Factories (dlg_db ?d0) = db_table Factories ?db" by (simp add: dialog_init_def)
  then have sh: "shows_table (tab_table (dlg_tab Factories ?d0)) (db_table Factories ?db)"
    using dialog_ok_tables [OF ok0, of Factories] by (simp add: tab_ok_def)
  then have rc: "row_count (tab_table (dlg_tab Factories ?d0)) = 3" by (simp add: shows_table_def first_run_db)
  have id0: "item (tab_table (dlg_tab Factories ?d0)) 0 0 = Some (show_int 1)"
    using sh by (simp add: shows_table_def first_run_db row_texts_def)
  let ?d1 = "dialog_step ?d0 (SelectRow Factories (Some 0))"
  have sel: "tab_selected (dlg_tab Factories ?d1) = Some 0" using rc by simp
  have tab1: "tab_table (dlg_tab Factories ?d1) = tab_table (dlg_tab Factories ?d0)" by simp
  have db1: "dlg_db ?d1 = ?db" by (simp add: dialog_init_def)
  have "dlg_db (dialog_step ?d1 (DeletePressed Factories IoOk)) =
          db_set Factories (sql_delete (show_int 1) (db_table Factories ?db)) ?db"
    using sel tab1 id0 db1 by (simp add: delete_entry_def Let_def load_kind_def)
  then have "factories (dlg_db (dialog_step ?d1 (DeletePressed Factories IoOk))) =
               sql_delete (show_int 1) (db_table Factories ?db)"
    by (simp add: db_set_def db_table_def)
  moreover have "''CATL'' \<notin> set (map row_label (sql_delete (show_int 1) (db_table Factories ?db)))"
    by (simp add: first_run_db sql_delete_def sql_int_text_show_int)
  ultimately show ?thesis
    using first_run_names setupTableRows_fields
    by (simp add: Let_def factory_names_def sys_init_def app_init_def fresh_window_def factory_seeds_def
                  openDatabaseManager_def)
qed

text \<open>C21. The Export button and File, Save write the same file
  (\<open>munka_nyilvantartas.xlsx\<close>): after Save, the file holds the delivery sheet
  of the ledger; an Export right after replaces it with a workbook of the single
  work sheet under the export headers, so the saved delivery data is lost from
  the file.\<close>

theorem export_overwrites_saved_file:
  "map_of (the (sys_file (sys_step s (SaveMenu IoOk)))) delivery_sheet_title =
     Some (sheet_of delivery_headers (delivery_table (sys_app s))) \<and>
   the (sys_file (sys_step (sys_step s (SaveMenu IoOk)) (ExportPressed IoOk))) =
     [(work_sheet_title, sheet_of export_headers (work_table (sys_app s)))]"
  using sheet_titles
  by (simp add: sys_save_def saveToExcel_def exportToExcel_def show_notice_def)

text \<open>C23. Liveness of the reference data: in every state of the program, a session of
  the database dialog that types a non-empty name, sets a price in the spin box's
  positive range and presses Add puts that record into the store, keeping every
  record it had.\<close>

theorem dialog_can_add:
  fixes s :: fuvar_system and k :: ref_kind
  assumes "name \<noteq> []" "0 < price" "price \<le> 1000000"
  defines "s' \<equiv> sys_step s (ManageDatabase [TypeLabel k name, SetPrice k price, AddPressed k IoOk])"
  shows "(name, price) \<in> ran (db_abs (db_table k (sys_db s'))) \<and>
         db_abs (db_table k (sys_db s)) \<subseteq>\<^sub>m db_abs (db_table k (sys_db s'))"
proof -
  let ?d2 = "dialog_step (dialog_step (dialog_init (sys_db s)) (TypeLabel k name)) (SetPrice k price)"
  have lab: "tab_label (dlg_tab k ?d2) = name" and pr: "tab_price (dlg_tab k ?d2) = price"
    using assms(2,3) by (simp_all add: spin_clamp_def)
  have db: "dlg_db ?d2 = sys_db s" by (simp add: dialog_init_def)
  have t: "db_table k (sys_db s') = sql_insert name price (db_table k (sys_db s))"
    using add_entry_db [of k ?d2] lab pr db assms(1,2) by (simp add: s'_def openDatabaseManager_def)
  have fresh: "next_rowid (db_table k (sys_db s)) \<notin> dom (db_abs (db_table k (sys_db s)))"
    using next_rowid_fresh [of "db_table k (sys_db s)"] by (simp add: dom_db_abs)
  show ?thesis
    using fresh by (auto simp: t db_abs_insert map_le_def ran_def)
qed

theorem dialog_can_add_witness:
  "(''Audi'', 4000) \<in> ran (db_abs (db_table Factories (sys_db (sys_step (sys_init (2024, 4, 15) no_file)
      (ManageDatabase [TypeLabel Factories ''Audi'', SetPrice Factories 4000, AddPressed Factories IoOk])))))"
  using dialog_can_add [where name = "''Audi''" and price = 4000 and s = "sys_init (2024, 4, 15) no_file"
                             and k = Factories] by simp

text \<open>C25. Ordering of events: the volume session is not tied to the date.  Pressing
  Enter on a volume for one day writes the running display into that day's cell;
  changing the date and then saving adds the session's total to the cell of the new
  day.  One delivery thus shows in two rows, the display text in the first and the
  number in the second, and the session is cleared.\<close>

theorem session_follows_date:
  assumes ok: "sys_ok today s"
    and r: "r1 < month_length today" "r2 < month_length today" "r1 \<noteq> r2"
    and d: "date_edit (sys_app s) = add_days (first_of_month today) r1"
    and z: "getZoneColumn (km_combo (sys_app s)) = int c" "0 < c" "c < delivery_col_count"
    and x: "m3_text (sys_app s) \<noteq> []" "py_float (m3_text (sys_app s)) = Some x" "session (sys_app s) = []"
    and cell: "cell_value (item (delivery_table (sys_app s)) r2 c) = Some v"
  shows "item (delivery_table (sys_app (sys_run s [PressM3Enter, SetDate (add_days (first_of_month today) r2),
              SaveDeliveryPressed IoOk]))) r1 c = Some (m3_display [x]) \<and>
         item (delivery_table (sys_app (sys_run s [PressM3Enter, SetDate (add_days (first_of_month today) r2),
              SaveDeliveryPressed IoOk]))) r2 c = Some (format_fixed 1 (py_add v (session_total [x]))) \<and>
         m3_values (sys_app (sys_run s [PressM3Enter, SetDate (add_days (first_of_month today) r2),
              SaveDeliveryPressed IoOk])) = Some []"
proof -
  let ?a = "sys_app s"
  let ?t = "delivery_table ?a"
  let ?a1 = "handleM3Input ?a"
  let ?a2 = "?a1\<lparr>date_edit := add_days (first_of_month today) r2\<rparr>"
  have v: "valid_date today" and la: "ledger_ok today ?a" using ok by (simp_all add: sys_ok_def)
  have a1: "?a1 = ?a\<lparr>m3_values := Some [x], m3_sum := m3_display [x],
               delivery_table := set_item r1 c (m3_display [x]) ?t, m3_input := []\<rparr>"
    using handleM3Input_match [OF la v r(1) d z(1,2) x(1,2)] x(3) by simp
  have la2: "ledger_ok today ?a2" using handleM3Input_ok [OF la] by simp
  have dt: "dated_table delivery_col_count today ?t" using la by (simp add: ledger_ok_def)
  then have wf: "wf_table ?t" and g1: "in_grid ?t r1 c" and g2: "in_grid ?t r2 c"
    using r z(3) by (simp_all add: dated_table_def in_grid_def)
  have t2: "delivery_table ?a2 = set_item r1 c (m3_display [x]) ?t" using a1 by simp
  have c2: "cell_value (item (delivery_table ?a2) r2 c) = Some v"
    using cell r(3) wf by (simp add: t2 item_set_item)
  have z2: "getZoneColumn (km_combo ?a2) = int c" and s2: "session ?a2 = [x]"
    using a1 z(1) by (simp_all add: session_def)
  note commit = saveDeliveryData_commit [OF la2 v r(2) _ z2 z(2,3) c2, of IoOk]
  have run: "sys_app (sys_run s [PressM3Enter, SetDate (add_days (first_of_month today) r2), SaveDeliveryPressed IoOk]) =
               saveDeliveryData IoOk ?a2" by simp
  show ?thesis
    using commit s2 wf g1 g2 r(3) by (simp add: run t2 qtable_simps)
qed

theorem session_follows_date_witness:
  "let s = \<lparr>sys_app = april_window\<lparr>km_combo := band_label 10, m3_input := ''6,0'',
                 delivery_table := set_item 2 3 ''5.0'' (delivery_table april_window)\<rparr>,
            sys_db = initDatabase no_file, sys_factory_items = [], sys_file = None\<rparr>;
       s' = sys_run s [PressM3Enter, SetDate (2024, 4, 3), SaveDeliveryPressed IoOk] in
   item (delivery_table (sys_app s')) 14 3 = Some ''(6.0) (6.0)'' \<and>
   item (delivery_table (sys_app s')) 2 3 = Some ''11.0''"
proof -
  define s where "s = \<lparr>sys_app = april_window\<lparr>km_combo := band_label 10, m3_input := ''6,0'',
                 delivery_table := set_item 2 3 ''5.0'' (delivery_table april_window)\<rparr>,
            sys_db = initDatabase no_file, sys_factory_items = [], sys_file = None\<rparr>"
  have dt: "dated_table delivery_col_count (2024, 4, 15) (delivery_table april_window)"
    using april_ok [of "[]"] by (simp add: ledger_ok_def)
  have b: "band_label 10 \<in> set km_bands"
  proof -
    have "km_bands ! 2 = band_label 10" by (simp add: km_bands_def)
    then show ?thesis using nth_mem [of 2 km_bands] by (simp add: km_bands_def)
  qed
  have ok: "sys_ok (2024, 4, 15) s"
    using april_ok [of "[]"] initDatabase_ok [OF file_ok_no_file] dated_set_item [OF dt, of 3 2 "''5.0''"] april_valid b
    by (simp add: s_def sys_ok_def sys_inputs_ok_def ledger_ok_def app_init_def setupTableRows_fields fresh_window_def valid_time_def)
  have a15: "add_days (first_of_month (2024, 4, 15)) 14 = (2024, 4, 15)"
    by (simp add: month_dates april_valid month_length_def days_in_month_def)
  have wf: "wf_table (delivery_table april_window)" and g: "in_grid (delivery_table april_window) 2 3"
    using dt april_len by (simp_all add: dated_table_def in_grid_def delivery_col_count_def)
  have cell: "cell_value (item (delivery_table (sys_app s)) 2 3) = Some (Fin 5)"
  proof -
    have "item (delivery_table (sys_app s)) 2 3 = Some ''5.0''" using wf g by (simp add: s_def item_set_item)
    moreover have "py_float ''5.0'' = Some (Fin 5)" by code_simp
    ultimately show ?thesis by (simp add: cell_value_def)
  qed
  have t: "m3_text (sys_app s) = ''6.0''" by (simp add: s_def m3_text_def) code_simp
  have f: "py_float ''6.0'' = Some (Fin 6)" by code_simp
  have se: "session (sys_app s) = []" by (simp add: s_def session_def app_init_def setupTableRows_fields fresh_window_def)
  have de: "date_edit (sys_app s) = add_days (first_of_month (2024, 4, 15)) 14"
    using a15 by (simp add: s_def app_init_def setupTableRows_fields fresh_window_def)
  have z: "getZoneColumn (km_combo (sys_app s)) = int 3" using band_10 by (simp add: s_def)
  have m: "m3_display [Fin 6] = ''(6.0) (6.0)''" by code_simp
  have n: "format_fixed 1 (py_add (Fin 5) (session_total [Fin 6])) = ''11.0''" by code_simp
  show ?thesis
    using session_follows_date [of "(2024, 4, 15)" s 14 2 3 "Fin 6" "Fin 5"] ok april_len de z t f se cell m n april_3
    unfolding s_def [symmetric] by (simp add: delivery_col_count_def)
qed

end
